theory Spec2Isabelle
  imports Main "HOL-Library.AList" "HOL-Library.Sublist"
begin

section \<open>The dataset filter of matched\_images\_labels.py\<close>

text \<open>
  The program is one function, \<open>filter_annotated_data\<close>, over a file system. The model
  has three layers: the string operations the function applies to a label's file name
  (\<open>Path.suffix\<close>, \<open>Path.stem\<close>, \<open>str.lower\<close>, \<open>str.split\<close>, \<open>str.join\<close>), a file
  system with the library calls the function makes (\<open>is_dir\<close>, \<open>is_file\<close>, \<open>exists\<close>,
  \<open>iterdir\<close>, \<open>mkdir(parents=True, exist_ok=True)\<close>, \<open>shutil.copy2\<close>), and the function
  itself, with its log, its counter and the sequence of its \<open>copy2\<close> calls.
\<close>

subsection \<open>Strings\<close>

text \<open>
  \<open>str.rfind\<close>: the index of the last occurrence of a character, \<open>-1\<close> when there is
  none.
\<close>

definition rfind :: "char \<Rightarrow> string \<Rightarrow> int" where
  "rfind c s =
     (if c \<in> set s
      then int (length s) - 1 - int (length (takeWhile (\<lambda>x. x \<noteq> c) (rev s)))
      else - 1)"

text \<open>
  \<open>PurePath.suffix\<close> and \<open>PurePath.stem\<close> of a final path component, as pathlib
  computes them: with \<open>i = name.rfind('.')\<close>, the suffix is \<open>name[i:]\<close> and the stem
  \<open>name[:i]\<close> when \<open>0 < i < len(name) - 1\<close>; otherwise the suffix is empty and the stem
  is the whole name. (Python 3.14 treats differently only the names that end with a
  dot and those with nothing but dots before their last dot.)
\<close>

definition path_suffix :: "string \<Rightarrow> string" where
  "path_suffix name =
     (let i = rfind CHR ''.'' name
      in if 0 < i \<and> i < int (length name) - 1 then drop (nat i) name else [])"

definition path_stem :: "string \<Rightarrow> string" where
  "path_stem name =
     (let i = rfind CHR ''.'' name
      in if 0 < i \<and> i < int (length name) - 1 then take (nat i) name else name)"

text \<open>\<open>str.lower\<close>, on the letters that can lower to a letter of \<open>.txt\<close>.\<close>

definition lower_char :: "char \<Rightarrow> char" where
  "lower_char c =
     (let k = (of_char c :: nat) in if 65 \<le> k \<and> k \<le> 90 then char_of (k + 32) else c)"

definition lower :: "string \<Rightarrow> string" where
  "lower s = map lower_char s"

text \<open>
  \<open>s.split(c)\<close> for a one-character separator: every occurrence separates, so the
  result has one part more than there are separators and is never empty.
\<close>

fun split :: "char \<Rightarrow> string \<Rightarrow> string list" where
  "split c [] = [[]]"
| "split c (x # xs) =
     (if x = c then [] # split c xs
      else (case split c xs of
              [] \<Rightarrow> [[x]]
            | p # ps \<Rightarrow> (x # p) # ps))"

text \<open>\<open>sep.join(parts)\<close>.\<close>

fun join :: "string \<Rightarrow> string list \<Rightarrow> string" where
  "join sep [] = []"
| "join sep [p] = p"
| "join sep (p # q # ps) = p @ sep @ join sep (q # ps)"

text \<open>
  Lines 57 to 61: the base name of the frame, from the stem of the label's name.
\<close>

definition image_base_name :: "string \<Rightarrow> string" where
  "image_base_name stem =
     (let parts = split CHR ''-'' stem
      in if length parts > 1 then join ''-'' (tl parts) else stem)"

text \<open>Line 64: the name of the image expected for a label file's name.\<close>

definition image_filename :: "string \<Rightarrow> string" where
  "image_filename name = image_base_name (path_stem name) @ ''.jpg''"

text \<open>The test on a directory entry's name in line 46.\<close>

definition is_txt :: "string \<Rightarrow> bool" where
  "is_txt name \<longleftrightarrow> lower (path_suffix name) = ''.txt''"

subsection \<open>The file system\<close>

text \<open>
  A path is the list of its components, \<open>[]\<close> the root; \<open>p / name\<close> is \<open>p @ [name]\<close>.
  A node is a regular file with its bytes or a directory. The file system is an
  association list from paths to nodes, so that a directory can be listed, in the
  order the list has (the order of \<open>iterdir\<close> is arbitrary). Symbolic links,
  permissions, \<open>.\<close> and \<open>..\<close> are outside the model.
\<close>

type_synonym path = "string list"

datatype node = File string | Dir

type_synonym filesystem = "(path \<times> node) list"

definition node_at :: "filesystem \<Rightarrow> path \<Rightarrow> node option" where
  "node_at fs p = (if p = [] then Some Dir else map_of fs p)"

definition is_dir :: "filesystem \<Rightarrow> path \<Rightarrow> bool" where
  "is_dir fs p \<longleftrightarrow> node_at fs p = Some Dir"

definition is_file :: "filesystem \<Rightarrow> path \<Rightarrow> bool" where
  "is_file fs p \<longleftrightarrow> (case node_at fs p of Some (File c) \<Rightarrow> True | _ \<Rightarrow> False)"

definition exists_path :: "filesystem \<Rightarrow> path \<Rightarrow> bool" where
  "exists_path fs p \<longleftrightarrow> node_at fs p \<noteq> None"

text \<open>\<open>Path.iterdir\<close>: the names of the entries of a directory, each once.\<close>

definition iterdir :: "filesystem \<Rightarrow> path \<Rightarrow> string list" where
  "iterdir fs d = remdups (map last (filter (\<lambda>p. p \<noteq> [] \<and> butlast p = d) (map fst fs)))"

text \<open>The exceptions the library calls of the function raise in this model.\<close>

datatype exc =
    FileExistsError
  | NotADirectoryError
  | FileNotFoundError
  | IsADirectoryError
  | SameFileError

text \<open>
  \<open>Path.mkdir(parents=True, exist_ok=True)\<close>: nothing to do when the path is a
  directory; \<open>FileExistsError\<close> when it is a regular file; otherwise the missing
  ancestors are created first, and a regular file among them is
  \<open>NotADirectoryError\<close>.
\<close>

function mkdir_parents :: "filesystem \<Rightarrow> path \<Rightarrow> exc + filesystem" where
  "mkdir_parents fs p =
     (case node_at fs p of
        Some Dir \<Rightarrow> Inr fs
      | Some (File c) \<Rightarrow> Inl FileExistsError
      | None \<Rightarrow>
          (case mkdir_parents fs (butlast p) of
             Inl e \<Rightarrow> Inl NotADirectoryError
           | Inr fs' \<Rightarrow> Inr (AList.update p Dir fs')))"
  by pat_completeness auto
termination
  by (relation "measure (\<lambda>(fs, p). length p)") (auto simp: node_at_def split: if_splits)

declare mkdir_parents.simps [simp del]

text \<open>
  \<open>shutil.copy2(src, dst)\<close>. When \<open>dst\<close> is a directory the file goes into it under
  the name of \<open>src\<close>. Then \<open>copyfile\<close>: \<open>SameFileError\<close> when source and target are the
  same path; the source is opened for reading and the target for writing, which needs
  the source to be a regular file, the target not to be a directory and the target's
  parent to be one; the target then holds the source's bytes.
\<close>

definition copy_target :: "filesystem \<Rightarrow> path \<Rightarrow> path \<Rightarrow> path" where
  "copy_target fs src dst = (if is_dir fs dst then dst @ [last src] else dst)"

definition copy2 :: "filesystem \<Rightarrow> path \<Rightarrow> path \<Rightarrow> exc + filesystem" where
  "copy2 fs src dst =
     (let target = copy_target fs src dst
      in if src = target then Inl SameFileError
         else (case node_at fs src of
                 None \<Rightarrow> Inl FileNotFoundError
               | Some Dir \<Rightarrow> Inl IsADirectoryError
               | Some (File c) \<Rightarrow>
                   (case node_at fs target of
                      Some Dir \<Rightarrow> Inl IsADirectoryError
                    | _ \<Rightarrow>
                        (case node_at fs (butlast target) of
                           None \<Rightarrow> Inl FileNotFoundError
                         | Some (File c') \<Rightarrow> Inl NotADirectoryError
                         | Some Dir \<Rightarrow> Inr (AList.update target (File c) fs)))))"

subsection \<open>The function\<close>

text \<open>
  The log is the list of the records the function emits, each with the values its
  message interpolates. \<open>copies\<close> is the sequence of the \<open>copy2\<close> calls made, source
  and destination as passed, whether or not the call raised.
\<close>

datatype log_record =
    Error_sources_not_found bool bool bool
  | Info_created path
  | Info_starting
  | Warning_skipping string string
  | Error_processing string exc
  | Info_complete nat
  | Info_available path

record state =
  fsys :: filesystem
  copied_count :: nat
  log :: "log_record list"
  copies :: "(path \<times> path) list"

datatype outcome = Returned | Exited nat | Raised exc

text \<open>Line 46: the label files, the regular files of the labels directory named \<open>*.txt\<close>.\<close>

definition label_files :: "filesystem \<Rightarrow> path \<Rightarrow> string list" where
  "label_files fs source_labels_dir =
     filter (\<lambda>f. is_file fs (source_labels_dir @ [f]) \<and> is_txt f) (iterdir fs source_labels_dir)"

text \<open>
  Lines 55 to 77, the body of the loop for one label file. The \<open>try\<close> block ends at
  the first call that raises; the handler logs the exception and the loop goes on, so
  the body always yields a state.
\<close>

definition process_label :: "path \<Rightarrow> path \<Rightarrow> path \<Rightarrow> state \<Rightarrow> string \<Rightarrow> state" where
  "process_label source_images_dir source_labels_dir output_filtered_dir s name =
     (let source_image_path = source_images_dir @ [image_filename name];
          image_dst = output_filtered_dir @ [''images'', image_filename name];
          label_path = source_labels_dir @ [name];
          label_dst = output_filtered_dir @ [''labels'', name]
      in if is_file (fsys s) source_image_path then
           (case copy2 (fsys s) source_image_path image_dst of
              Inl e \<Rightarrow>
                s\<lparr>log := log s @ [Error_processing name e],
                  copies := copies s @ [(source_image_path, image_dst)]\<rparr>
            | Inr fs1 \<Rightarrow>
                (case copy2 fs1 label_path label_dst of
                   Inl e \<Rightarrow>
                     s\<lparr>fsys := fs1,
                       log := log s @ [Error_processing name e],
                       copies := copies s @ [(source_image_path, image_dst), (label_path, label_dst)]\<rparr>
                 | Inr fs2 \<Rightarrow>
                     s\<lparr>fsys := fs2,
                       copied_count := copied_count s + 1,
                       copies := copies s @ [(source_image_path, image_dst), (label_path, label_dst)]\<rparr>))
         else s\<lparr>log := log s @ [Warning_skipping name (image_filename name)]\<rparr>)"

text \<open>Lines 51 to 77, the loop.\<close>

fun process_labels :: "path \<Rightarrow> path \<Rightarrow> path \<Rightarrow> state \<Rightarrow> string list \<Rightarrow> state" where
  "process_labels simg slab out s [] = s"
| "process_labels simg slab out s (name # names) =
     process_labels simg slab out (process_label simg slab out s name) names"

text \<open>
  Lines 33 to 83. \<open>sys.exit(1)\<close> is the outcome \<open>Exited 1\<close>; an exception that leaves
  the function (from \<open>mkdir\<close> or from the copy of the class file, which are outside the
  \<open>try\<close>) is \<open>Raised\<close>.
\<close>

definition filter_annotated_data ::
  "filesystem \<Rightarrow> path \<Rightarrow> path \<Rightarrow> path \<Rightarrow> path \<Rightarrow> outcome \<times> state" where
  "filter_annotated_data fs0 source_images_dir source_labels_dir output_filtered_dir source_classes_file =
     (if \<not> (is_dir fs0 source_images_dir \<and> is_dir fs0 source_labels_dir
             \<and> is_file fs0 source_classes_file) then
        (Exited 1,
         \<lparr>fsys = fs0, copied_count = 0,
          log = [Error_sources_not_found (exists_path fs0 source_images_dir)
                   (exists_path fs0 source_labels_dir) (exists_path fs0 source_classes_file)],
          copies = []\<rparr>)
      else
        (case mkdir_parents fs0 (output_filtered_dir @ [''images'']) of
           Inl e \<Rightarrow> (Raised e, \<lparr>fsys = fs0, copied_count = 0, log = [], copies = []\<rparr>)
         | Inr fs1 \<Rightarrow>
             (case mkdir_parents fs1 (output_filtered_dir @ [''labels'']) of
                Inl e \<Rightarrow> (Raised e, \<lparr>fsys = fs1, copied_count = 0, log = [], copies = []\<rparr>)
              | Inr fs2 \<Rightarrow>
                  (let s0 = \<lparr>fsys = fs2, copied_count = 0,
                             log = [Info_created output_filtered_dir, Info_starting],
                             copies = []\<rparr>;
                       s1 = process_labels source_images_dir source_labels_dir output_filtered_dir
                              s0 (label_files fs2 source_labels_dir);
                       class_dst = output_filtered_dir @ [last source_classes_file];
                       s2 = s1\<lparr>copies := copies s1 @ [(source_classes_file, class_dst)]\<rparr>
                   in (case copy2 (fsys s1) source_classes_file class_dst of
                         Inl e \<Rightarrow> (Raised e, s2)
                       | Inr fs3 \<Rightarrow>
                           (Returned,
                            s2\<lparr>fsys := fs3,
                               log := log s1 @ [Info_complete (copied_count s1),
                                                Info_available output_filtered_dir]\<rparr>))))))"

subsection \<open>Where the copies go\<close>

text \<open>
  The paths the three \<open>copy2\<close> calls of the function write to: the destination they
  are given, or the entry of the source's name inside it when the destination is a
  directory already.
\<close>

definition image_target :: "filesystem \<Rightarrow> path \<Rightarrow> path \<Rightarrow> string \<Rightarrow> path" where
  "image_target fs source_images_dir output_filtered_dir name =
     copy_target fs (source_images_dir @ [image_filename name])
       (output_filtered_dir @ [''images'', image_filename name])"

definition label_target :: "filesystem \<Rightarrow> path \<Rightarrow> path \<Rightarrow> string \<Rightarrow> path" where
  "label_target fs source_labels_dir output_filtered_dir name =
     copy_target fs (source_labels_dir @ [name]) (output_filtered_dir @ [''labels'', name])"

definition class_target :: "filesystem \<Rightarrow> path \<Rightarrow> path \<Rightarrow> path" where
  "class_target fs output_filtered_dir source_classes_file =
     copy_target fs source_classes_file (output_filtered_dir @ [last source_classes_file])"

text \<open>
  When the two copies for a label return, in a file system where the output
  directories exist: the source is not the target and the target is not a directory.
\<close>

definition image_copy_ok :: "filesystem \<Rightarrow> path \<Rightarrow> path \<Rightarrow> string \<Rightarrow> bool" where
  "image_copy_ok fs simg out name \<longleftrightarrow>
     image_target fs simg out name \<noteq> simg @ [image_filename name]
     \<and> \<not> is_dir fs (image_target fs simg out name)"

definition label_copy_ok :: "filesystem \<Rightarrow> path \<Rightarrow> path \<Rightarrow> string \<Rightarrow> bool" where
  "label_copy_ok fs slab out name \<longleftrightarrow>
     label_target fs slab out name \<noteq> slab @ [name]
     \<and> \<not> is_dir fs (label_target fs slab out name)"

text \<open>
  What the loop leaves as it is: which paths are directories, the images of the source
  directory and its label files.
\<close>

definition stable :: "path \<Rightarrow> path \<Rightarrow> filesystem \<Rightarrow> filesystem \<Rightarrow> bool" where
  "stable simg slab fs fs' \<longleftrightarrow>
     (\<forall>q. is_dir fs' q = is_dir fs q)
     \<and> (\<forall>m. node_at fs' (simg @ [image_filename m]) = node_at fs (simg @ [image_filename m]))
     \<and> (\<forall>m. is_txt m \<longrightarrow> node_at fs' (slab @ [m]) = node_at fs (slab @ [m]))"

subsection \<open>Notions for the statements\<close>

text \<open>
  A label's pair is copied when its image is there and neither copy raises. The loop
  can run when the two output directories exist and every name of its list is a
  label file of the source directory.
\<close>

definition pair_copied :: "filesystem \<Rightarrow> path \<Rightarrow> path \<Rightarrow> path \<Rightarrow> string \<Rightarrow> bool" where
  "pair_copied fs simg slab out name \<longleftrightarrow>
     is_file fs (simg @ [image_filename name])
     \<and> image_copy_ok fs simg out name \<and> label_copy_ok fs slab out name"

definition loop_ready :: "path \<Rightarrow> path \<Rightarrow> filesystem \<Rightarrow> string list \<Rightarrow> bool" where
  "loop_ready slab out fs names \<longleftrightarrow>
     is_dir fs (out @ [''images'']) \<and> is_dir fs (out @ [''labels''])
     \<and> (\<forall>n \<in> set names. is_txt n \<and> is_file fs (slab @ [n]))"

text \<open>
  Lines 40 and 41 together, and the state in which the loop ends when they have
  returned the file system \<open>fs2\<close>.
\<close>

definition make_output_dirs :: "filesystem \<Rightarrow> path \<Rightarrow> exc + filesystem" where
  "make_output_dirs fs out =
     (case mkdir_parents fs (out @ [''images'']) of
        Inl e \<Rightarrow> Inl e
      | Inr fs1 \<Rightarrow> mkdir_parents fs1 (out @ [''labels'']))"

definition after_loop :: "filesystem \<Rightarrow> path \<Rightarrow> path \<Rightarrow> path \<Rightarrow> state" where
  "after_loop fs2 simg slab out =
     process_labels simg slab out
       \<lparr>fsys = fs2, copied_count = 0, log = [Info_created out, Info_starting], copies = []\<rparr>
       (label_files fs2 slab)"

text \<open>
  The exception that ends the \<open>try\<close> block of the loop body for a label in a state,
  if one does: the one the copy of the image raises, or else the one the copy of the
  label raises.
\<close>

definition raised :: "path \<Rightarrow> path \<Rightarrow> path \<Rightarrow> state \<Rightarrow> string \<Rightarrow> exc option" where
  "raised simg slab out s name =
     (if is_file (fsys s) (simg @ [image_filename name]) then
        (case copy2 (fsys s) (simg @ [image_filename name]) (out @ [''images'', image_filename name]) of
           Inl e \<Rightarrow> Some e
         | Inr fs1 \<Rightarrow>
             (case copy2 fs1 (slab @ [name]) (out @ [''labels'', name]) of
                Inl e \<Rightarrow> Some e
              | Inr fs2 \<Rightarrow> None))
      else None)"

text \<open>
  A label is settled in a file system when the copies the loop body would make for it
  are there already: the target of the image holds what the image holds, and the
  target of the label what the label holds.
\<close>

definition settled :: "filesystem \<Rightarrow> path \<Rightarrow> path \<Rightarrow> path \<Rightarrow> string \<Rightarrow> bool" where
  "settled fs simg slab out name \<longleftrightarrow>
     (is_file fs (simg @ [image_filename name]) \<and> image_copy_ok fs simg out name \<longrightarrow>
        node_at fs (image_target fs simg out name) = node_at fs (simg @ [image_filename name])
        \<and> (label_copy_ok fs slab out name \<longrightarrow>
             node_at fs (label_target fs slab out name) = node_at fs (slab @ [name])))"

subsection \<open>Example file systems\<close>

text \<open>An export with one image and two labels, and an output tree that exists.\<close>

definition fs_a :: filesystem where
  "fs_a = [([''src''], Dir), ([''src'', ''images''], Dir), ([''src'', ''labels''], Dir),
           ([''src'', ''classes.txt''], File ''person''),
           ([''src'', ''images'', ''frame_00100.jpg''], File ''JPEG-100''),
           ([''src'', ''labels'', ''0a5581f7-frame_00100.txt''], File ''0 0.5 0.5 0.1 0.1''),
           ([''src'', ''labels'', ''1b66c2d0-frame_00200.txt''], File ''1 0.2 0.2 0.1 0.1''),
           ([''out''], Dir), ([''out'', ''images''], Dir), ([''out'', ''labels''], Dir)]"

definition st_a :: state where
  "st_a = \<lparr>fsys = fs_a, copied_count = 0, log = [], copies = []\<rparr>"

text \<open>
  An export whose images directory is the \<open>images\<close> directory of the output: the
  output directory is the export directory itself, the labels are beside it under
  another name and the class file is elsewhere.
\<close>

definition fs_b :: filesystem where
  "fs_b = [([''data''], Dir), ([''data'', ''images''], Dir),
           ([''data'', ''images'', ''frame_1.jpg''], File ''JPEG-1''),
           ([''data'', ''raw_labels''], Dir),
           ([''data'', ''raw_labels'', ''ab12-frame_1.txt''], File ''0 0.5 0.5 0.2 0.2''),
           ([''meta''], Dir), ([''meta'', ''classes.txt''], File ''person'')]"

text \<open>
  An export with three labels, the second without image, and no output directory yet;
  and the same after the output directories are created.
\<close>

definition fs_c :: filesystem where
  "fs_c = [([''exp''], Dir), ([''exp'', ''images''], Dir), ([''exp'', ''labels''], Dir),
           ([''exp'', ''classes.txt''], File ''car''),
           ([''exp'', ''images'', ''f1.jpg''], File ''J1''),
           ([''exp'', ''images'', ''f3.jpg''], File ''J3''),
           ([''exp'', ''labels'', ''a-f1.txt''], File ''L1''),
           ([''exp'', ''labels'', ''b-f2.txt''], File ''L2''),
           ([''exp'', ''labels'', ''c-f3.txt''], File ''L3'')]"

definition fs_c_dirs :: filesystem where
  "fs_c_dirs = fs_c @ [([''exp'', ''filtered_data''], Dir),
                       ([''exp'', ''filtered_data'', ''images''], Dir),
                       ([''exp'', ''filtered_data'', ''labels''], Dir)]"

text \<open>
  Two exports in which something is a regular file where a directory is expected: the
  source images path, and the \<open>images\<close> entry of the output directory.
\<close>

definition fs_d :: filesystem where
  "fs_d = [([''exp''], Dir), ([''exp'', ''images''], File ''not a directory''),
           ([''exp'', ''labels''], Dir), ([''exp'', ''classes.txt''], File ''car'')]"

definition fs_e :: filesystem where
  "fs_e = [([''exp''], Dir), ([''exp'', ''images''], Dir), ([''exp'', ''labels''], Dir),
           ([''exp'', ''classes.txt''], File ''car''),
           ([''exp'', ''images'', ''f1.jpg''], File ''J1''),
           ([''exp'', ''labels'', ''a-f1.txt''], File ''L1''),
           ([''res''], Dir), ([''res'', ''images''], File ''a file named images'')]"

text \<open>
  An export with three matched pairs and an output tree in which a directory stands
  where the second label is to be written.
\<close>

definition fs_f :: filesystem where
  "fs_f = [([''exp''], Dir), ([''exp'', ''images''], Dir), ([''exp'', ''labels''], Dir),
           ([''exp'', ''classes.txt''], File ''car''),
           ([''exp'', ''images'', ''f1.jpg''], File ''J1''),
           ([''exp'', ''images'', ''f2.jpg''], File ''J2''),
           ([''exp'', ''images'', ''f3.jpg''], File ''J3''),
           ([''exp'', ''labels'', ''a-f1.txt''], File ''L1''),
           ([''exp'', ''labels'', ''b-f2.txt''], File ''L2''),
           ([''exp'', ''labels'', ''c-f3.txt''], File ''L3''),
           ([''res''], Dir), ([''res'', ''images''], Dir), ([''res'', ''labels''], Dir),
           ([''res'', ''labels'', ''b-f2.txt''], Dir),
           ([''res'', ''labels'', ''b-f2.txt'', ''b-f2.txt''], Dir)]"

text \<open>An export whose labels have no identifier, with the output directories.\<close>

definition fs_g :: filesystem where
  "fs_g = [([''exp''], Dir), ([''exp'', ''images''], Dir), ([''exp'', ''labels''], Dir),
           ([''exp'', ''classes.txt''], File ''car''),
           ([''exp'', ''images'', ''f1.jpg''], File ''J1''),
           ([''exp'', ''labels'', ''f1.txt''], File ''L1''),
           ([''exp'', ''labels'', ''f9.txt''], File ''L9''),
           ([''res''], Dir), ([''res'', ''images''], Dir), ([''res'', ''labels''], Dir)]"

text \<open>
  An export used with its labels directory as output directory, and with an image
  named as the class file is.
\<close>

definition fs_h :: filesystem where
  "fs_h = [([''exp''], Dir), ([''exp'', ''images''], Dir), ([''exp'', ''labels''], Dir),
           ([''exp'', ''classes.txt''], File ''car''),
           ([''exp'', ''images'', ''f1.jpg''], File ''J1''),
           ([''exp'', ''images'', ''classes.jpg''], File ''JC''),
           ([''exp'', ''labels'', ''a-f1.txt''], File ''L1'')]"

text \<open>
  An export whose labels have no identifier, used with the export directory itself as
  output directory.
\<close>

definition fs_i :: filesystem where
  "fs_i = [([''data''], Dir), ([''data'', ''images''], Dir),
           ([''data'', ''images'', ''f1.jpg''], File ''J1''),
           ([''data'', ''annotations''], Dir),
           ([''data'', ''annotations'', ''f1.txt''], File ''L1''),
           ([''meta''], Dir), ([''meta'', ''classes.txt''], File ''car'')]"

text \<open>
  An export with one pair, and an output directory whose \<open>labels\<close> directory has a
  directory under the name of the label file.
\<close>

definition fs_j :: filesystem where
  "fs_j = [([''exp''], Dir), ([''exp'', ''images''], Dir), ([''exp'', ''labels''], Dir),
           ([''exp'', ''classes.txt''], File ''car''),
           ([''exp'', ''images'', ''f1.jpg''], File ''J1''),
           ([''exp'', ''labels'', ''a-f1.txt''], File ''L1''),
           ([''res''], Dir), ([''res'', ''images''], Dir), ([''res'', ''labels''], Dir),
           ([''res'', ''labels'', ''a-f1.txt''], Dir)]"

subsection \<open>Facts about the strings\<close>

lemma split_not_Nil: "split c s \<noteq> []"
  by (induction s) (auto split: list.splits)

lemma split_no_sep: "c \<notin> set s \<Longrightarrow> split c s = [s]"
  by (induction s) auto

lemma length_split_sep: "c \<in> set s \<Longrightarrow> length (split c s) > 1"
proof (induction s)
  case Nil
  then show ?case by simp
next
  case (Cons x xs)
  show ?case
  proof (cases "x = c")
    case True
    then show ?thesis using split_not_Nil [of c xs] by (cases "split c xs") auto
  next
    case False
    with Cons show ?thesis by (cases "split c xs") auto
  qed
qed

lemma join_tl_split:
  "c \<in> set s \<Longrightarrow> join [c] (tl (split c s)) = tl (dropWhile (\<lambda>x. x \<noteq> c) s)"
  and join_split: "join [c] (split c s) = s"
proof (induction s)
  case Nil
  { case 1 then show ?case by simp }
  { case 2 show ?case by simp }
next
  case (Cons x xs)
  { case 1
    show ?case
    proof (cases "x = c")
      case True
      then show ?thesis using Cons(2) by simp
    next
      case False
      with 1 have "c \<in> set xs" by simp
      with Cons(1) False show ?thesis
        by (cases "split c xs") auto
    qed }
  { case 2
    show ?case
    proof (cases "x = c")
      case True
      then show ?thesis using Cons(2) split_not_Nil [of c xs]
        by (cases "split c xs") auto
    next
      case False
      then show ?thesis using Cons(2) split_not_Nil [of c xs]
        by (cases "split c xs"; cases "tl (split c xs)") auto
    qed }
qed

lemma image_base_name_hyphen:
  "CHR ''-'' \<in> set s \<Longrightarrow> image_base_name s = tl (dropWhile (\<lambda>x. x \<noteq> CHR ''-'') s)"
  using length_split_sep [of "CHR ''-''" s] join_tl_split [of "CHR ''-''" s]
  by (simp add: image_base_name_def)

lemma image_base_name_plain: "CHR ''-'' \<notin> set s \<Longrightarrow> image_base_name s = s"
  by (simp add: image_base_name_def split_no_sep)

lemma path_suffix_drop:
  "path_suffix n \<noteq> [] \<Longrightarrow>
     path_suffix n = drop (length n - length (path_suffix n)) n \<and>
     path_stem n = take (length n - length (path_suffix n)) n \<and>
     length (path_suffix n) < length n"
  by (auto simp: path_suffix_def path_stem_def Let_def split: if_splits)

lemma is_txt_suffix_length: "is_txt n \<Longrightarrow> length (path_suffix n) = 4"
proof -
  assume "is_txt n"
  then have "length (lower (path_suffix n)) = length ''.txt''" by (simp add: is_txt_def)
  then show ?thesis by (simp add: lower_def)
qed

lemma is_txt_decomp: "is_txt n \<Longrightarrow> n = path_stem n @ path_suffix n"
proof -
  assume a: "is_txt n"
  then have "path_suffix n \<noteq> []" using is_txt_suffix_length by fastforce
  from path_suffix_drop [OF this] show ?thesis by (metis append_take_drop_id)
qed

lemma is_txt_last4: "is_txt n \<Longrightarrow> 4 < length n \<and> lower (drop (length n - 4) n) = ''.txt''"
proof -
  assume a: "is_txt n"
  then have l: "length (path_suffix n) = 4" by (rule is_txt_suffix_length)
  then have "path_suffix n \<noteq> []" by auto
  from path_suffix_drop [OF this] l a show ?thesis by (simp add: is_txt_def)
qed

lemma is_txt_not_jpg: "is_txt n \<Longrightarrow> n \<noteq> b @ ''.jpg''"
proof
  assume a: "is_txt n" and e: "n = b @ ''.jpg''"
  from is_txt_last4 [OF a] e show False by (simp add: lower_def lower_char_def)
qed

lemma image_filename_not_txt: "is_txt n \<Longrightarrow> n \<noteq> image_filename m"
  by (simp add: image_filename_def is_txt_not_jpg)

lemma labels_not_txt: "\<not> is_txt ''labels''"
  by (simp add: is_txt_def path_suffix_def rfind_def lower_def)

lemma images_not_jpg: "''images'' \<noteq> image_filename m"
proof
  assume "''images'' = image_filename m"
  then have "drop (length ''images'' - 4) ''images'' = drop (length (image_filename m) - 4) (image_filename m)"
    by simp
  then show False by (simp add: image_filename_def)
qed

lemma lower_hyphen: "CHR ''-'' \<in> set s \<Longrightarrow> CHR ''-'' \<in> set (lower s)"
proof -
  assume "CHR ''-'' \<in> set s"
  then have "lower_char (CHR ''-'') \<in> set (lower s)" unfolding lower_def by (auto simp: image_iff)
  then show ?thesis by (simp add: lower_char_def)
qed

lemma is_txt_hyphen: "is_txt n \<Longrightarrow> CHR ''-'' \<in> set n \<longleftrightarrow> CHR ''-'' \<in> set (path_stem n)"
proof -
  assume a: "is_txt n"
  have "CHR ''-'' \<notin> set (path_suffix n)"
  proof
    assume "CHR ''-'' \<in> set (path_suffix n)"
    from lower_hyphen [OF this] a show False by (simp add: is_txt_def)
  qed
  moreover have "set n = set (path_stem n) \<union> set (path_suffix n)"
    using is_txt_decomp [OF a] by (metis set_append)
  ultimately show ?thesis by auto
qed

lemma node_at_update:
  "p \<noteq> [] \<Longrightarrow> node_at (AList.update p v fs) q = (if q = p then Some v else node_at fs q)"
  by (simp add: node_at_def update_conv')

lemma is_dir_root [simp]: "is_dir fs []"
  by (simp add: is_dir_def node_at_def)

lemma is_file_iff: "is_file fs p \<longleftrightarrow> (\<exists>c. node_at fs p = Some (File c))"
  by (auto simp: is_file_def split: option.splits node.splits)

lemma is_file_not_dir: "is_file fs p \<Longrightarrow> \<not> is_dir fs p"
  by (auto simp: is_file_iff is_dir_def)

lemma copy_target_cases:
  "copy_target fs src dst = dst \<and> \<not> is_dir fs dst \<or>
   copy_target fs src dst = dst @ [last src] \<and> is_dir fs dst"
  by (simp add: copy_target_def)

lemma copy_target_parent:
  "is_dir fs (butlast dst) \<Longrightarrow> is_dir fs (butlast (copy_target fs src dst))"
  by (simp add: copy_target_def)

lemma copy_target_not_Nil: "\<not> is_dir fs (copy_target fs src dst) \<Longrightarrow> copy_target fs src dst \<noteq> []"
  by auto

text \<open>What a call of \<open>copy2\<close> that returns has done, and when a call returns.\<close>

lemma copy2_Inr_D:
  assumes "copy2 fs src dst = Inr fs'"
  shows "\<exists>c. node_at fs src = Some (File c)
             \<and> fs' = AList.update (copy_target fs src dst) (File c) fs
             \<and> copy_target fs src dst \<noteq> src
             \<and> \<not> is_dir fs (copy_target fs src dst)
             \<and> is_dir fs (butlast (copy_target fs src dst))"
  using assms
  by (auto simp: copy2_def Let_def is_dir_def split: if_splits option.splits node.splits)

lemma copy2_Inr_I:
  assumes "node_at fs src = Some (File c)" "copy_target fs src dst \<noteq> src"
    "\<not> is_dir fs (copy_target fs src dst)" "is_dir fs (butlast (copy_target fs src dst))"
  shows "copy2 fs src dst = Inr (AList.update (copy_target fs src dst) (File c) fs)"
  using assms
  by (auto simp: copy2_def Let_def is_dir_def split: if_splits option.splits node.splits)

lemma copy2_Inl_iff:
  assumes "is_file fs src" "is_dir fs (butlast dst)"
  shows "(\<exists>e. copy2 fs src dst = Inl e) \<longleftrightarrow>
         copy_target fs src dst = src \<or> is_dir fs (copy_target fs src dst)"
proof -
  from assms(1) obtain c where c: "node_at fs src = Some (File c)" by (auto simp: is_file_iff)
  have p: "is_dir fs (butlast (copy_target fs src dst))" using assms(2) by (rule copy_target_parent)
  show ?thesis
  proof (cases "copy_target fs src dst = src \<or> is_dir fs (copy_target fs src dst)")
    case True
    then show ?thesis
      by (auto simp: copy2_def Let_def is_dir_def c split: option.splits node.splits)
  next
    case False
    with copy2_Inr_I [OF c _ _ p] show ?thesis by auto
  qed
qed

text \<open>A write of a regular file changes one node and no directory.\<close>

lemma node_at_write:
  "\<not> is_dir fs t \<Longrightarrow>
   node_at (AList.update t (File c) fs) q = (if q = t then Some (File c) else node_at fs q)"
  by (cases "t = []") (auto simp: node_at_update)

lemma is_dir_write:
  "\<not> is_dir fs t \<Longrightarrow> is_dir (AList.update t (File c) fs) q \<longleftrightarrow> is_dir fs q"
  by (auto simp: is_dir_def node_at_write)

lemma copy_target_write:
  "\<not> is_dir fs t \<Longrightarrow> copy_target (AList.update t (File c) fs) src dst = copy_target fs src dst"
  by (simp add: copy_target_def is_dir_write)

subsection \<open>Facts about the targets\<close>

lemma image_target_cases:
  "image_target fs simg out n = out @ [''images'', image_filename n] \<or>
   image_target fs simg out n = out @ [''images'', image_filename n, image_filename n]"
  by (simp add: image_target_def copy_target_def)

lemma label_target_cases:
  "label_target fs slab out n = out @ [''labels'', n] \<or>
   label_target fs slab out n = out @ [''labels'', n, n]"
  by (simp add: label_target_def copy_target_def)

lemma class_target_cases:
  "class_target fs out cls = out @ [last cls] \<or> class_target fs out cls = out @ [last cls, last cls]"
  by (simp add: class_target_def copy_target_def)

lemma last_image_target: "last (image_target fs simg out n) = image_filename n"
  using image_target_cases [of fs simg out n] by auto

lemma last_label_target: "last (label_target fs slab out n) = n"
  using label_target_cases [of fs slab out n] by auto

lemma image_target_neq_label_target: "image_target fs simg out m \<noteq> label_target fs' slab out n"
  using image_target_cases [of fs simg out m] label_target_cases [of fs' slab out n] by auto

lemma image_target_neq_label_src: "is_txt n \<Longrightarrow> image_target fs simg out m \<noteq> slab @ [n]"
  using last_image_target [of fs simg out m] image_filename_not_txt [of n m] by auto

lemma label_target_neq_image_src: "is_txt n \<Longrightarrow> label_target fs slab out n \<noteq> simg @ [image_filename m]"
  using last_label_target [of fs slab out n] image_filename_not_txt [of n m] by auto

lemma image_target_eq_image_src:
  "image_target fs simg out n = simg @ [image_filename m] \<Longrightarrow> image_filename m = image_filename n"
  using last_image_target [of fs simg out n] by auto

lemma label_target_eq_label_src: "label_target fs slab out n = slab @ [m] \<Longrightarrow> m = n"
  using last_label_target [of fs slab out n] by auto

lemma image_target_eq: "image_target fs simg out m = image_target fs simg out n \<Longrightarrow> image_filename m = image_filename n"
  using last_image_target [of fs simg out n] last_image_target [of fs simg out m] by auto

lemma label_target_eq: "label_target fs slab out m = label_target fs slab out n \<Longrightarrow> m = n"
  using last_label_target [of fs slab out n] last_label_target [of fs slab out m] by auto

lemma class_target_neq_image_target: "class_target fs out cls \<noteq> image_target fs' simg out n"
proof
  assume e: "class_target fs out cls = image_target fs' simg out n"
  from class_target_cases [of fs out cls] image_target_cases [of fs' simg out n] e
  have "''images'' = image_filename n" by auto
  then show False using images_not_jpg by blast
qed

lemma class_target_neq_label_target: "is_txt n \<Longrightarrow> class_target fs out cls \<noteq> label_target fs' slab out n"
proof
  assume t: "is_txt n" and e: "class_target fs out cls = label_target fs' slab out n"
  from class_target_cases [of fs out cls] label_target_cases [of fs' slab out n] e
  have "n = ''labels''" by auto
  then show False using t labels_not_txt by blast
qed

lemma image_target_parent:
  "is_dir fs (out @ [''images'']) \<Longrightarrow> is_dir fs (butlast (image_target fs simg out n))"
  unfolding image_target_def by (rule copy_target_parent) (simp add: butlast_append)

lemma label_target_parent:
  "is_dir fs (out @ [''labels'']) \<Longrightarrow> is_dir fs (butlast (label_target fs slab out n))"
  unfolding label_target_def by (rule copy_target_parent) (simp add: butlast_append)

lemma class_target_parent:
  "is_dir fs out \<Longrightarrow> is_dir fs (butlast (class_target fs out cls))"
  unfolding class_target_def by (rule copy_target_parent) (simp add: butlast_append)

subsection \<open>The four ways through the body of the loop\<close>

lemma process_label_skip:
  "\<not> is_file (fsys s) (simg @ [image_filename n]) \<Longrightarrow>
   process_label simg slab out s n = s\<lparr>log := log s @ [Warning_skipping n (image_filename n)]\<rparr>"
  by (simp add: process_label_def)

lemma image_copy_Inl:
  assumes "is_file fs (simg @ [image_filename n])" "is_dir fs (out @ [''images''])"
    "\<not> image_copy_ok fs simg out n"
  shows "\<exists>e. copy2 fs (simg @ [image_filename n]) (out @ [''images'', image_filename n]) = Inl e"
proof -
  have "is_dir fs (butlast (out @ [''images'', image_filename n]))"
    using assms(2) by (simp add: butlast_append)
  from copy2_Inl_iff [OF assms(1) this] assms(3) show ?thesis
    by (auto simp: image_copy_ok_def image_target_def)
qed

lemma image_copy_Inr:
  assumes "node_at fs (simg @ [image_filename n]) = Some (File ci)" "is_dir fs (out @ [''images''])"
    "image_copy_ok fs simg out n"
  shows "copy2 fs (simg @ [image_filename n]) (out @ [''images'', image_filename n])
         = Inr (AList.update (image_target fs simg out n) (File ci) fs)"
  using copy2_Inr_I [OF assms(1), of "out @ [''images'', image_filename n]"]
    image_target_parent [OF assms(2), of simg n] assms(3)
  by (simp add: image_copy_ok_def image_target_def)

lemma label_copy_Inl:
  assumes "is_file fs (slab @ [n])" "is_dir fs (out @ [''labels''])"
    "\<not> label_copy_ok fs slab out n"
  shows "\<exists>e. copy2 fs (slab @ [n]) (out @ [''labels'', n]) = Inl e"
proof -
  have "is_dir fs (butlast (out @ [''labels'', n]))"
    using assms(2) by (simp add: butlast_append)
  from copy2_Inl_iff [OF assms(1) this] assms(3) show ?thesis
    by (auto simp: label_copy_ok_def label_target_def)
qed

lemma label_copy_Inr:
  assumes "node_at fs (slab @ [n]) = Some (File cl)" "is_dir fs (out @ [''labels''])"
    "label_copy_ok fs slab out n"
  shows "copy2 fs (slab @ [n]) (out @ [''labels'', n])
         = Inr (AList.update (label_target fs slab out n) (File cl) fs)"
  using copy2_Inr_I [OF assms(1), of "out @ [''labels'', n]"]
    label_target_parent [OF assms(2), of slab n] assms(3)
  by (simp add: label_copy_ok_def label_target_def)

text \<open>After the image is written, the label copy sees the file system it would have seen before.\<close>

lemma after_image_write:
  fixes ci :: string
  assumes "\<not> is_dir fs (image_target fs simg out n)" "is_txt n"
  defines "fs1 \<equiv> AList.update (image_target fs simg out n) (File ci) fs"
  shows "node_at fs1 (slab @ [n]) = node_at fs (slab @ [n])"
    and "is_dir fs1 q = is_dir fs q"
    and "label_target fs1 slab out n = label_target fs slab out n"
    and "label_copy_ok fs1 slab out n = label_copy_ok fs slab out n"
proof -
  show a: "node_at fs1 (slab @ [n]) = node_at fs (slab @ [n])"
    unfolding fs1_def using image_target_neq_label_src [OF assms(2), of fs simg out n slab]
    by (simp add: node_at_write [OF assms(1)])
  show b: "is_dir fs1 q = is_dir fs q" for q
    unfolding fs1_def by (rule is_dir_write [OF assms(1)])
  show c: "label_target fs1 slab out n = label_target fs slab out n"
    unfolding fs1_def label_target_def by (rule copy_target_write [OF assms(1)])
  show "label_copy_ok fs1 slab out n = label_copy_ok fs slab out n"
    by (simp add: label_copy_ok_def c b)
qed

lemma process_label_image_fails:
  assumes "is_file (fsys s) (simg @ [image_filename n])" "is_dir (fsys s) (out @ [''images''])"
    "\<not> image_copy_ok (fsys s) simg out n"
  shows "\<exists>e. process_label simg slab out s n =
           s\<lparr>log := log s @ [Error_processing n e],
             copies := copies s @ [(simg @ [image_filename n], out @ [''images'', image_filename n])]\<rparr>"
proof -
  from image_copy_Inl [OF assms] obtain e where
    "copy2 (fsys s) (simg @ [image_filename n]) (out @ [''images'', image_filename n]) = Inl e" ..
  then show ?thesis using assms(1) by (intro exI [of _ e]) (simp add: process_label_def)
qed

lemma process_label_label_fails:
  assumes "node_at (fsys s) (simg @ [image_filename n]) = Some (File ci)"
    "is_dir (fsys s) (out @ [''images''])" "is_dir (fsys s) (out @ [''labels''])"
    "image_copy_ok (fsys s) simg out n"
    "is_file (fsys s) (slab @ [n])" "is_txt n"
    "\<not> label_copy_ok (fsys s) slab out n"
  shows "\<exists>e. process_label simg slab out s n =
           s\<lparr>fsys := AList.update (image_target (fsys s) simg out n) (File ci) (fsys s),
             log := log s @ [Error_processing n e],
             copies := copies s @ [(simg @ [image_filename n], out @ [''images'', image_filename n]),
                                   (slab @ [n], out @ [''labels'', n])]\<rparr>"
proof -
  let ?fs1 = "AList.update (image_target (fsys s) simg out n) (File ci) (fsys s)"
  have nd: "\<not> is_dir (fsys s) (image_target (fsys s) simg out n)"
    using assms(4) by (simp add: image_copy_ok_def)
  have i: "copy2 (fsys s) (simg @ [image_filename n]) (out @ [''images'', image_filename n]) = Inr ?fs1"
    by (rule image_copy_Inr [OF assms(1,2,4)])
  have "is_file ?fs1 (slab @ [n])"
    using assms(5) after_image_write(1) [OF nd assms(6), where slab=slab and ci=ci] by (simp add: is_file_iff)
  moreover have "is_dir ?fs1 (out @ [''labels''])"
    using assms(3) after_image_write(2) [OF nd assms(6), where ci=ci] by simp
  moreover have "\<not> label_copy_ok ?fs1 slab out n"
    using assms(7) after_image_write(4) [OF nd assms(6), where ci=ci and slab=slab] by simp
  ultimately obtain e where "copy2 ?fs1 (slab @ [n]) (out @ [''labels'', n]) = Inl e"
    using label_copy_Inl by blast
  with i show ?thesis using assms(1) by (intro exI [of _ e]) (simp add: process_label_def is_file_iff)
qed

lemma process_label_ok:
  assumes "node_at (fsys s) (simg @ [image_filename n]) = Some (File ci)"
    "is_dir (fsys s) (out @ [''images''])" "is_dir (fsys s) (out @ [''labels''])"
    "image_copy_ok (fsys s) simg out n"
    "node_at (fsys s) (slab @ [n]) = Some (File cl)" "is_txt n"
    "label_copy_ok (fsys s) slab out n"
  shows "process_label simg slab out s n =
           s\<lparr>fsys := AList.update (label_target (fsys s) slab out n) (File cl)
                      (AList.update (image_target (fsys s) simg out n) (File ci) (fsys s)),
             copied_count := copied_count s + 1,
             copies := copies s @ [(simg @ [image_filename n], out @ [''images'', image_filename n]),
                                   (slab @ [n], out @ [''labels'', n])]\<rparr>"
proof -
  let ?fs1 = "AList.update (image_target (fsys s) simg out n) (File ci) (fsys s)"
  have nd: "\<not> is_dir (fsys s) (image_target (fsys s) simg out n)"
    using assms(4) by (simp add: image_copy_ok_def)
  have i: "copy2 (fsys s) (simg @ [image_filename n]) (out @ [''images'', image_filename n]) = Inr ?fs1"
    by (rule image_copy_Inr [OF assms(1,2,4)])
  have "node_at ?fs1 (slab @ [n]) = Some (File cl)"
    using assms(5) after_image_write(1) [OF nd assms(6), where slab=slab and ci=ci] by simp
  moreover have "is_dir ?fs1 (out @ [''labels''])"
    using assms(3) after_image_write(2) [OF nd assms(6), where ci=ci] by simp
  moreover have "label_copy_ok ?fs1 slab out n"
    using assms(7) after_image_write(4) [OF nd assms(6), where ci=ci and slab=slab] by simp
  ultimately have "copy2 ?fs1 (slab @ [n]) (out @ [''labels'', n])
      = Inr (AList.update (label_target ?fs1 slab out n) (File cl) ?fs1)"
    by (rule label_copy_Inr)
  with i show ?thesis using assms(1) after_image_write(3) [OF nd assms(6), where slab=slab and ci=ci]
    by (simp add: process_label_def is_file_iff)
qed

subsection \<open>The expected image name\<close>

lemma process_label_copies_image_first:
  "is_file (fsys s) (simg @ [image_filename n]) \<Longrightarrow>
   \<exists>rest. copies (process_label simg slab out s n) =
     copies s @ (simg @ [image_filename n], out @ [''images'', image_filename n]) # rest"
  by (auto simp: process_label_def Let_def split: sum.splits)

lemma process_label_raised:
  "raised simg slab out s name = Some e \<Longrightarrow>
   log (process_label simg slab out s name) = log s @ [Error_processing name e]
   \<and> copied_count (process_label simg slab out s name) = copied_count s"
  by (auto simp: raised_def process_label_def Let_def split: if_splits sum.splits)

lemma process_label_not_raised:
  assumes "is_file (fsys s) (simg @ [image_filename name])" and "raised simg slab out s name = None"
  shows "copied_count (process_label simg slab out s name) = copied_count s + 1
       \<and> log (process_label simg slab out s name) = log s
       \<and> copies (process_label simg slab out s name)
           = copies s @ [(simg @ [image_filename name], out @ [''images'', image_filename name]),
                         (slab @ [name], out @ [''labels'', name])]"
proof (cases "copy2 (fsys s) (simg @ [image_filename name]) (out @ [''images'', image_filename name])")
  case (Inl e)
  with assms show ?thesis by (simp add: raised_def)
next
  case (Inr fs1)
  note i = Inr
  show ?thesis
  proof (cases "copy2 fs1 (slab @ [name]) (out @ [''labels'', name])")
    case (Inl e)
    with assms i show ?thesis by (simp add: raised_def)
  next
    case (Inr fs2)
    with assms(1) i show ?thesis by (simp add: process_label_def)
  qed
qed

lemma process_label_puts_pair:
  assumes "is_txt name" and "is_file (fsys s) (simg @ [image_filename name])"
    and "raised simg slab out s name = None"
  shows "node_at (fsys (process_label simg slab out s name)) (image_target (fsys s) simg out name)
           = node_at (fsys s) (simg @ [image_filename name])
       \<and> node_at (fsys (process_label simg slab out s name)) (label_target (fsys s) slab out name)
           = node_at (fsys s) (slab @ [name])
       \<and> is_file (fsys (process_label simg slab out s name)) (image_target (fsys s) simg out name)
       \<and> is_file (fsys (process_label simg slab out s name)) (label_target (fsys s) slab out name)"
proof (cases "copy2 (fsys s) (simg @ [image_filename name]) (out @ [''images'', image_filename name])")
  case (Inl e)
  with assms(2,3) show ?thesis by (simp add: raised_def)
next
  case (Inr fs1)
  note i = Inr
  let ?Ti = "image_target (fsys s) simg out name"
  from copy2_Inr_D [OF i] obtain ci where ci: "node_at (fsys s) (simg @ [image_filename name]) = Some (File ci)"
    and fs1: "fs1 = AList.update ?Ti (File ci) (fsys s)"
    and nd: "\<not> is_dir (fsys s) ?Ti"
    by (auto simp: image_target_def)
  show ?thesis
  proof (cases "copy2 fs1 (slab @ [name]) (out @ [''labels'', name])")
    case (Inl e)
    with assms(2,3) i show ?thesis by (simp add: raised_def)
  next
    case (Inr fs2)
    let ?Tl = "label_target (fsys s) slab out name"
    have tl: "label_target fs1 slab out name = ?Tl"
      unfolding fs1 by (rule after_image_write(3) [OF nd assms(1)])
    from copy2_Inr_D [OF Inr] obtain cl where cl1: "node_at fs1 (slab @ [name]) = Some (File cl)"
      and fs2: "fs2 = AList.update ?Tl (File cl) fs1"
      and nl1: "\<not> is_dir fs1 ?Tl"
      unfolding label_target_def [symmetric] tl by blast
    have cl: "node_at (fsys s) (slab @ [name]) = Some (File cl)"
      using cl1 after_image_write(1) [OF nd assms(1), where slab=slab and ci=ci] by (simp add: fs1)
    have r: "fsys (process_label simg slab out s name) = fs2"
      using assms(2) i Inr by (simp add: process_label_def)
    have "node_at fs2 ?Ti = node_at fs1 ?Ti"
      unfolding fs2
      using image_target_neq_label_target [of "fsys s" simg out name "fsys s" slab name]
      by (simp add: node_at_write [OF nl1])
    moreover have "node_at fs1 ?Ti = Some (File ci)"
      unfolding fs1 by (simp add: node_at_write [OF nd])
    ultimately have 1: "node_at fs2 ?Ti = Some (File ci)" by simp
    have 2: "node_at fs2 ?Tl = Some (File cl)"
      unfolding fs2 by (simp add: node_at_write [OF nl1])
    show ?thesis using 1 2 ci cl by (simp add: r is_file_def)
  qed
qed

lemma first_hyphen_split:
  "c \<in> set s \<Longrightarrow> s = takeWhile (\<lambda>x. x \<noteq> c) s @ [c] @ tl (dropWhile (\<lambda>x. x \<noteq> c) s)"
proof -
  assume a: "c \<in> set s"
  then have ne: "dropWhile (\<lambda>x. x \<noteq> c) s \<noteq> []" by auto
  have "hd (dropWhile (\<lambda>x. x \<noteq> c) s) = c"
    using hd_dropWhile [OF ne] by simp
  with ne have "dropWhile (\<lambda>x. x \<noteq> c) s = c # tl (dropWhile (\<lambda>x. x \<noteq> c) s)"
    by (metis list.collapse)
  then show ?thesis by (metis append_Cons append_Nil takeWhile_dropWhile_id)
qed

text \<open>
  C3, as stated, fails: the existence of the expected image does not alone decide
  whether the pair is copied. In \<open>fs_f\<close> the three labels have a hyphen in their
  names and their expected images are in the source images directory; the function
  returns with the first and the third pair copied and the second not: a directory
  stands where that label is to be written, and the copy of the label raised.
\<close>

theorem image_exists_pair_not_copied_counterexample:
  "label_files fs_f [''exp'', ''labels''] = [''a-f1.txt'', ''b-f2.txt'', ''c-f3.txt'']
   \<and> map image_filename [''a-f1.txt'', ''b-f2.txt'', ''c-f3.txt''] = [''f1.jpg'', ''f2.jpg'', ''f3.jpg'']
   \<and> is_file fs_f [''exp'', ''images'', ''f1.jpg'']
   \<and> is_file fs_f [''exp'', ''images'', ''f2.jpg'']
   \<and> is_file fs_f [''exp'', ''images'', ''f3.jpg'']
   \<and> fst (filter_annotated_data fs_f [''exp'', ''images''] [''exp'', ''labels''] [''res'']
         [''exp'', ''classes.txt'']) = Returned
   \<and> log (snd (filter_annotated_data fs_f [''exp'', ''images''] [''exp'', ''labels''] [''res'']
         [''exp'', ''classes.txt'']))
       = [Info_created [''res''], Info_starting,
          Error_processing ''b-f2.txt'' IsADirectoryError, Info_complete 2, Info_available [''res'']]
   \<and> is_file (fsys (snd (filter_annotated_data fs_f [''exp'', ''images''] [''exp'', ''labels''] [''res'']
         [''exp'', ''classes.txt''])))
        [''res'', ''labels'', ''a-f1.txt'']
   \<and> \<not> is_file (fsys (snd (filter_annotated_data fs_f [''exp'', ''images''] [''exp'', ''labels''] [''res'']
         [''exp'', ''classes.txt''])))
        [''res'', ''labels'', ''b-f2.txt'']
   \<and> \<not> is_file (fsys (snd (filter_annotated_data fs_f [''exp'', ''images''] [''exp'', ''labels''] [''res'']
         [''exp'', ''classes.txt''])))
        [''res'', ''labels'', ''b-f2.txt'', ''b-f2.txt'']"
  by code_simp

text \<open>
  C3, amended. For a label file whose name contains a hyphen, the stem is an
  identifier without hyphen, the first hyphen and a base name (which keeps its own
  hyphens); the expected image is the base name followed by \<open>.jpg\<close>. The body of
  the loop looks for that name, and no other, in the source images directory: when it
  is not a regular file there the label is skipped with a warning and nothing else
  changes; when it is, the first thing done is the copy of that image, and unless a
  copy raises the pair is copied, each target then a regular file with the bytes of
  its source, and counted; when a copy raises the error is logged and the pair is not
  counted.
\<close>

theorem image_name_drops_first_hyphen_prefix:
  assumes "is_txt name" and "CHR ''-'' \<in> set name"
  shows "path_stem name =
           takeWhile (\<lambda>x. x \<noteq> CHR ''-'') (path_stem name) @ ''-''
             @ tl (dropWhile (\<lambda>x. x \<noteq> CHR ''-'') (path_stem name))
         \<and> image_filename name = tl (dropWhile (\<lambda>x. x \<noteq> CHR ''-'') (path_stem name)) @ ''.jpg''
         \<and> (\<not> is_file (fsys s) (simg @ [image_filename name]) \<longrightarrow>
              process_label simg slab out s name =
                s\<lparr>log := log s @ [Warning_skipping name (image_filename name)]\<rparr>)
         \<and> (is_file (fsys s) (simg @ [image_filename name]) \<longrightarrow>
              (\<exists>rest. copies (process_label simg slab out s name) =
                 copies s @ (simg @ [image_filename name],
                             out @ [''images'', image_filename name]) # rest))
         \<and> (is_file (fsys s) (simg @ [image_filename name])
              \<and> raised simg slab out s name = None \<longrightarrow>
              node_at (fsys (process_label simg slab out s name)) (image_target (fsys s) simg out name)
                = node_at (fsys s) (simg @ [image_filename name])
              \<and> node_at (fsys (process_label simg slab out s name)) (label_target (fsys s) slab out name)
                = node_at (fsys s) (slab @ [name])
              \<and> is_file (fsys (process_label simg slab out s name)) (image_target (fsys s) simg out name)
              \<and> is_file (fsys (process_label simg slab out s name)) (label_target (fsys s) slab out name)
              \<and> copied_count (process_label simg slab out s name) = copied_count s + 1
              \<and> copies (process_label simg slab out s name)
                  = copies s @ [(simg @ [image_filename name], out @ [''images'', image_filename name]),
                                (slab @ [name], out @ [''labels'', name])])
         \<and> (\<forall>e. raised simg slab out s name = Some e \<longrightarrow>
              copied_count (process_label simg slab out s name) = copied_count s
              \<and> log (process_label simg slab out s name) = log s @ [Error_processing name e])"
proof -
  from assms have h: "CHR ''-'' \<in> set (path_stem name)" by (simp add: is_txt_hyphen)
  have "path_stem name =
           takeWhile (\<lambda>x. x \<noteq> CHR ''-'') (path_stem name) @ ''-''
             @ tl (dropWhile (\<lambda>x. x \<noteq> CHR ''-'') (path_stem name))"
    using first_hyphen_split [OF h] by simp
  moreover have "image_filename name = tl (dropWhile (\<lambda>x. x \<noteq> CHR ''-'') (path_stem name)) @ ''.jpg''"
    by (simp add: image_filename_def image_base_name_hyphen [OF h])
  moreover have "copied_count (process_label simg slab out s name) = copied_count s
       \<and> log (process_label simg slab out s name) = log s @ [Error_processing name e]"
    if "raised simg slab out s name = Some e" for e
    using process_label_raised [OF that] by simp
  ultimately show ?thesis
    using process_label_skip [of s simg name slab out]
      process_label_copies_image_first [of s simg name slab out]
      process_label_not_raised [of s simg name slab out]
      process_label_puts_pair [OF assms(1), of s simg slab out]
    by blast
qed

theorem image_name_drops_first_hyphen_prefix_witness:
  "is_txt ''0a5581f7-frame_00100.txt'' \<and> CHR ''-'' \<in> set ''0a5581f7-frame_00100.txt''
   \<and> path_stem ''0a5581f7-frame_00100.txt'' = ''0a5581f7'' @ ''-'' @ ''frame_00100''
   \<and> image_filename ''0a5581f7-frame_00100.txt'' = ''frame_00100.jpg''
   \<and> is_file (fsys st_a) ([''src'', ''images''] @ [image_filename ''0a5581f7-frame_00100.txt''])
   \<and> (\<exists>rest. copies (process_label [''src'', ''images''] [''src'', ''labels''] [''out''] st_a
                  ''0a5581f7-frame_00100.txt'') =
         copies st_a @ ([''src'', ''images''] @ [''frame_00100.jpg''],
                        [''out''] @ [''images'', ''frame_00100.jpg'']) # rest)
   \<and> is_txt ''1b66c2d0-frame_00200.txt'' \<and> CHR ''-'' \<in> set ''1b66c2d0-frame_00200.txt''
   \<and> \<not> is_file (fsys st_a) ([''src'', ''images''] @ [image_filename ''1b66c2d0-frame_00200.txt''])
   \<and> process_label [''src'', ''images''] [''src'', ''labels''] [''out''] st_a ''1b66c2d0-frame_00200.txt''
       = st_a\<lparr>log := log st_a @ [Warning_skipping ''1b66c2d0-frame_00200.txt'' ''frame_00200.jpg'']\<rparr>
   \<and> raised [''src'', ''images''] [''src'', ''labels''] [''out''] st_a ''0a5581f7-frame_00100.txt'' = None
   \<and> copied_count (process_label [''src'', ''images''] [''src'', ''labels''] [''out''] st_a
          ''0a5581f7-frame_00100.txt'') = copied_count st_a + 1
   \<and> node_at (fsys (process_label [''src'', ''images''] [''src'', ''labels''] [''out''] st_a
          ''0a5581f7-frame_00100.txt'')) [''out'', ''images'', ''frame_00100.jpg'']
       = Some (File ''JPEG-100'')
   \<and> node_at (fsys (process_label [''src'', ''images''] [''src'', ''labels''] [''out''] st_a
          ''0a5581f7-frame_00100.txt'')) [''out'', ''labels'', ''0a5581f7-frame_00100.txt'']
       = Some (File ''0 0.5 0.5 0.1 0.1'')
   \<and> is_txt ''b-f2.txt'' \<and> CHR ''-'' \<in> set ''b-f2.txt''
   \<and> raised [''exp'', ''images''] [''exp'', ''labels''] [''res'']
        \<lparr>fsys = fs_f, copied_count = 0, log = [], copies = []\<rparr> ''b-f2.txt'' = Some IsADirectoryError
   \<and> log (process_label [''exp'', ''images''] [''exp'', ''labels''] [''res'']
        \<lparr>fsys = fs_f, copied_count = 0, log = [], copies = []\<rparr> ''b-f2.txt'')
       = [Error_processing ''b-f2.txt'' IsADirectoryError]"
proof -
  have t1: "is_txt ''0a5581f7-frame_00100.txt''" by code_simp
  have h1: "CHR ''-'' \<in> set ''0a5581f7-frame_00100.txt''" by simp
  have t2: "is_txt ''1b66c2d0-frame_00200.txt''" by code_simp
  have h2: "CHR ''-'' \<in> set ''1b66c2d0-frame_00200.txt''" by simp
  have s1: "path_stem ''0a5581f7-frame_00100.txt'' = ''0a5581f7-frame_00100''" by code_simp
  have s2: "path_stem ''1b66c2d0-frame_00200.txt'' = ''1b66c2d0-frame_00200''" by code_simp
  have f1: "is_file (fsys st_a) ([''src'', ''images''] @ [''frame_00100.jpg''])" by code_simp
  have f2: "\<not> is_file (fsys st_a) ([''src'', ''images''] @ [''frame_00200.jpg''])" by code_simp
  note a = image_name_drops_first_hyphen_prefix [OF t1 h1, of st_a "[''src'', ''images'']" "[''src'', ''labels'']" "[''out'']"]
  note b = image_name_drops_first_hyphen_prefix [OF t2 h2, of st_a "[''src'', ''images'']" "[''src'', ''labels'']" "[''out'']"]
  have i1: "image_filename ''0a5581f7-frame_00100.txt'' = ''frame_00100.jpg''"
    using a by (simp add: s1)
  have i2: "image_filename ''1b66c2d0-frame_00200.txt'' = ''frame_00200.jpg''"
    using b by (simp add: s2)
  have c1: "\<exists>rest. copies (process_label [''src'', ''images''] [''src'', ''labels''] [''out''] st_a
                  ''0a5581f7-frame_00100.txt'') =
         copies st_a @ ([''src'', ''images''] @ [''frame_00100.jpg''],
                        [''out''] @ [''images'', ''frame_00100.jpg'']) # rest"
    using a f1 by (simp add: i1)
  have c2: "process_label [''src'', ''images''] [''src'', ''labels''] [''out''] st_a ''1b66c2d0-frame_00200.txt''
       = st_a\<lparr>log := log st_a @ [Warning_skipping ''1b66c2d0-frame_00200.txt'' ''frame_00200.jpg'']\<rparr>"
    using b f2 by (simp add: i2)
  have r1: "raised [''src'', ''images''] [''src'', ''labels''] [''out''] st_a ''0a5581f7-frame_00100.txt'' = None"
    by code_simp
  have c3: "copied_count (process_label [''src'', ''images''] [''src'', ''labels''] [''out''] st_a
          ''0a5581f7-frame_00100.txt'') = copied_count st_a + 1"
    using a f1 r1 by (simp add: i1)
  have ti: "image_target (fsys st_a) [''src'', ''images''] [''out''] ''0a5581f7-frame_00100.txt''
            = [''out'', ''images'', ''frame_00100.jpg'']" by code_simp
  have tl: "label_target (fsys st_a) [''src'', ''labels''] [''out''] ''0a5581f7-frame_00100.txt''
            = [''out'', ''labels'', ''0a5581f7-frame_00100.txt'']" by code_simp
  have ni: "node_at (fsys st_a) ([''src'', ''images''] @ [''frame_00100.jpg'']) = Some (File ''JPEG-100'')"
    by code_simp
  have nl: "node_at (fsys st_a) ([''src'', ''labels''] @ [''0a5581f7-frame_00100.txt''])
            = Some (File ''0 0.5 0.5 0.1 0.1'')" by code_simp
  have c5: "node_at (fsys (process_label [''src'', ''images''] [''src'', ''labels''] [''out''] st_a
          ''0a5581f7-frame_00100.txt'')) [''out'', ''images'', ''frame_00100.jpg'']
       = Some (File ''JPEG-100'')
   \<and> node_at (fsys (process_label [''src'', ''images''] [''src'', ''labels''] [''out''] st_a
          ''0a5581f7-frame_00100.txt'')) [''out'', ''labels'', ''0a5581f7-frame_00100.txt'']
       = Some (File ''0 0.5 0.5 0.1 0.1'')"
    using a f1 r1 ni nl by (simp add: i1 ti tl)
  have t3: "is_txt ''b-f2.txt''" by code_simp
  have h3: "CHR ''-'' \<in> set ''b-f2.txt''" by simp
  have r3: "raised [''exp'', ''images''] [''exp'', ''labels''] [''res'']
        \<lparr>fsys = fs_f, copied_count = 0, log = [], copies = []\<rparr> ''b-f2.txt'' = Some IsADirectoryError"
    by code_simp
  have c4: "log (process_label [''exp'', ''images''] [''exp'', ''labels''] [''res'']
        \<lparr>fsys = fs_f, copied_count = 0, log = [], copies = []\<rparr> ''b-f2.txt'')
       = [Error_processing ''b-f2.txt'' IsADirectoryError]"
    using image_name_drops_first_hyphen_prefix [OF t3 h3,
        of "\<lparr>fsys = fs_f, copied_count = 0, log = [], copies = []\<rparr>"
           "[''exp'', ''images'']" "[''exp'', ''labels'']" "[''res'']"] r3
    by simp
  show ?thesis
    using t1 h1 t2 h2 f1 f2 c1 c2 r1 c3 c5 t3 h3 r3 c4 by (simp add: s1 i1 i2)
qed

subsection \<open>What one pass of the loop does to the file system\<close>

lemma process_label_fsys:
  assumes "is_txt n"
  shows "fsys (process_label simg slab out s n) = fsys s
    \<or> (\<exists>ci. node_at (fsys s) (simg @ [image_filename n]) = Some (File ci)
          \<and> image_copy_ok (fsys s) simg out n
          \<and> (fsys (process_label simg slab out s n)
                = AList.update (image_target (fsys s) simg out n) (File ci) (fsys s)
              \<or> (\<exists>cl. node_at (fsys s) (slab @ [n]) = Some (File cl)
                    \<and> label_copy_ok (fsys s) slab out n
                    \<and> fsys (process_label simg slab out s n)
                        = AList.update (label_target (fsys s) slab out n) (File cl)
                            (AList.update (image_target (fsys s) simg out n) (File ci) (fsys s)))))"
proof (cases "is_file (fsys s) (simg @ [image_filename n])")
  case False
  then show ?thesis by (simp add: process_label_skip)
next
  case True
  let ?isrc = "simg @ [image_filename n]" and ?idst = "out @ [''images'', image_filename n]"
  let ?lsrc = "slab @ [n]" and ?ldst = "out @ [''labels'', n]"
  show ?thesis
  proof (cases "copy2 (fsys s) ?isrc ?idst")
    case (Inl e)
    with True show ?thesis by (simp add: process_label_def)
  next
    case (Inr fs1)
    from copy2_Inr_D [OF Inr] obtain ci where
      ci: "node_at (fsys s) ?isrc = Some (File ci)"
      and fs1: "fs1 = AList.update (image_target (fsys s) simg out n) (File ci) (fsys s)"
      and ok: "image_copy_ok (fsys s) simg out n"
      by (auto simp: image_target_def image_copy_ok_def)
    have nd: "\<not> is_dir (fsys s) (image_target (fsys s) simg out n)"
      using ok by (simp add: image_copy_ok_def)
    show ?thesis
    proof (cases "copy2 fs1 ?lsrc ?ldst")
      case (Inl e)
      with Inr True ci ok fs1 show ?thesis by (simp add: process_label_def)
    next
      case (Inr fs2)
      from copy2_Inr_D [OF Inr] obtain cl where
        cl: "node_at fs1 ?lsrc = Some (File cl)"
        and fs2: "fs2 = AList.update (label_target fs1 slab out n) (File cl) fs1"
        and okl: "label_copy_ok fs1 slab out n"
        by (auto simp: label_target_def label_copy_ok_def)
      note aw1 = after_image_write(1) [OF nd assms, where slab=slab and ci=ci]
      note aw3 = after_image_write(3) [OF nd assms, where slab=slab and ci=ci]
      note aw4 = after_image_write(4) [OF nd assms, where slab=slab and ci=ci]
      have "node_at (fsys s) ?lsrc = Some (File cl)" using cl aw1 by (simp add: fs1)
      moreover have "label_copy_ok (fsys s) slab out n" using okl aw4 by (simp add: fs1)
      moreover have "fsys (process_label simg slab out s n) = fs2"
        using True \<open>copy2 (fsys s) ?isrc ?idst = Inr fs1\<close> Inr by (simp add: process_label_def)
      ultimately show ?thesis using ci ok fs1 fs2 aw3 by auto
    qed
  qed
qed

text \<open>The same, read at a path.\<close>

lemma process_label_node_at:
  assumes "is_txt n"
  shows "node_at (fsys (process_label simg slab out s n)) q = node_at (fsys s) q
    \<or> (q = image_target (fsys s) simg out n \<and> image_copy_ok (fsys s) simg out n
        \<and> q \<noteq> label_target (fsys s) slab out n
        \<and> (\<exists>c. node_at (fsys s) (simg @ [image_filename n]) = Some (File c)
                \<and> node_at (fsys (process_label simg slab out s n)) q = Some (File c)))
    \<or> (q = label_target (fsys s) slab out n \<and> label_copy_ok (fsys s) slab out n
        \<and> (\<exists>c. node_at (fsys s) (slab @ [n]) = Some (File c)
                \<and> node_at (fsys (process_label simg slab out s n)) q = Some (File c)))"
proof -
  let ?Ti = "image_target (fsys s) simg out n" and ?Tl = "label_target (fsys s) slab out n"
  from process_label_fsys [OF assms, of simg slab out s]
  consider (same) "fsys (process_label simg slab out s n) = fsys s"
    | (img) ci where "node_at (fsys s) (simg @ [image_filename n]) = Some (File ci)"
        "image_copy_ok (fsys s) simg out n"
        "fsys (process_label simg slab out s n) = AList.update ?Ti (File ci) (fsys s)"
    | (both) ci cl where "node_at (fsys s) (simg @ [image_filename n]) = Some (File ci)"
        "image_copy_ok (fsys s) simg out n"
        "node_at (fsys s) (slab @ [n]) = Some (File cl)" "label_copy_ok (fsys s) slab out n"
        "fsys (process_label simg slab out s n)
           = AList.update ?Tl (File cl) (AList.update ?Ti (File ci) (fsys s))"
    by blast
  then show ?thesis
  proof cases
    case same
    then show ?thesis by simp
  next
    case img
    have nd: "\<not> is_dir (fsys s) ?Ti" using img(2) by (simp add: image_copy_ok_def)
    show ?thesis
      using img image_target_neq_label_target [of "fsys s" simg out n "fsys s" slab]
      by (auto simp: node_at_write [OF nd])
  next
    case both
    have nd: "\<not> is_dir (fsys s) ?Ti" using both(2) by (simp add: image_copy_ok_def)
    have nl: "\<not> is_dir (AList.update ?Ti (File ci) (fsys s)) ?Tl"
      using both(4) by (simp add: label_copy_ok_def is_dir_write [OF nd])
    show ?thesis
      using both image_target_neq_label_target [of "fsys s" simg out n "fsys s" slab]
      by (auto simp: node_at_write [OF nl] node_at_write [OF nd])
  qed
qed

lemma process_label_is_dir:
  assumes "is_txt n"
  shows "is_dir (fsys (process_label simg slab out s n)) q = is_dir (fsys s) q"
  using process_label_node_at [OF assms, of simg slab out s q]
  by (auto simp: is_dir_def image_copy_ok_def label_copy_ok_def)

subsection \<open>What the loop leaves as it is\<close>

lemma stable_refl: "stable simg slab fs fs"
  by (simp add: stable_def)

lemma stable_trans: "stable simg slab fs fs' \<Longrightarrow> stable simg slab fs' fs'' \<Longrightarrow> stable simg slab fs fs''"
  by (simp add: stable_def)

lemma stable_step:
  assumes "is_txt n"
  shows "stable simg slab (fsys s) (fsys (process_label simg slab out s n))"
proof -
  let ?s' = "process_label simg slab out s n"
  have d: "is_dir (fsys ?s') q = is_dir (fsys s) q" for q
    by (rule process_label_is_dir [OF assms])
  have i: "node_at (fsys ?s') (simg @ [image_filename m]) = node_at (fsys s) (simg @ [image_filename m])" for m
    using process_label_node_at [OF assms, of simg slab out s "simg @ [image_filename m]"]
      image_target_eq_image_src [of "fsys s" simg out n m]
      label_target_neq_image_src [OF assms, of "fsys s" slab out simg m]
    by (auto simp: image_copy_ok_def)
  have l: "node_at (fsys ?s') (slab @ [m]) = node_at (fsys s) (slab @ [m])" if "is_txt m" for m
    using process_label_node_at [OF assms, of simg slab out s "slab @ [m]"]
      image_target_neq_label_src [OF that, of "fsys s" simg out n slab]
      label_target_eq_label_src [of "fsys s" slab out n m]
    by (auto simp: label_copy_ok_def)
  show ?thesis using d i l by (simp add: stable_def)
qed

lemma stable_loop:
  "\<forall>n \<in> set names. is_txt n \<Longrightarrow> stable simg slab (fsys s) (fsys (process_labels simg slab out s names))"
proof (induction names arbitrary: s)
  case Nil
  then show ?case by (simp add: stable_refl)
next
  case (Cons n names)
  have "stable simg slab (fsys s) (fsys (process_label simg slab out s n))"
    using Cons.prems by (simp add: stable_step)
  moreover have "stable simg slab (fsys (process_label simg slab out s n))
      (fsys (process_labels simg slab out (process_label simg slab out s n) names))"
    using Cons.prems by (intro Cons.IH) simp
  ultimately show ?case using stable_trans by fastforce
qed

text \<open>What is read off a file system only through what \<open>stable\<close> keeps.\<close>

lemma stable_is_dir: "stable simg slab fs fs' \<Longrightarrow> is_dir fs' q = is_dir fs q"
  by (simp add: stable_def)

lemma stable_image_src:
  "stable simg slab fs fs' \<Longrightarrow> node_at fs' (simg @ [image_filename m]) = node_at fs (simg @ [image_filename m])"
  by (simp add: stable_def)

lemma stable_label_src:
  "stable simg slab fs fs' \<Longrightarrow> is_txt m \<Longrightarrow> node_at fs' (slab @ [m]) = node_at fs (slab @ [m])"
  by (simp add: stable_def)

lemma stable_is_file_image:
  "stable simg slab fs fs' \<Longrightarrow> is_file fs' (simg @ [image_filename m]) = is_file fs (simg @ [image_filename m])"
  by (simp add: is_file_def stable_image_src)

lemma stable_is_file_label:
  "stable simg slab fs fs' \<Longrightarrow> is_txt m \<Longrightarrow> is_file fs' (slab @ [m]) = is_file fs (slab @ [m])"
  by (simp add: is_file_def stable_label_src)

lemma stable_copy_target: "stable simg slab fs fs' \<Longrightarrow> copy_target fs' src dst = copy_target fs src dst"
  by (simp add: copy_target_def stable_is_dir)

lemma stable_image_target:
  "stable simg slab fs fs' \<Longrightarrow> image_target fs' simg out n = image_target fs simg out n"
  by (simp add: image_target_def stable_copy_target)

lemma stable_label_target:
  "stable simg slab fs fs' \<Longrightarrow> label_target fs' slab out n = label_target fs slab out n"
  by (simp add: label_target_def stable_copy_target)

lemma stable_image_copy_ok:
  "stable simg slab fs fs' \<Longrightarrow> image_copy_ok fs' simg out n = image_copy_ok fs simg out n"
  by (simp add: image_copy_ok_def stable_image_target stable_is_dir)

lemma stable_label_copy_ok:
  "stable simg slab fs fs' \<Longrightarrow> label_copy_ok fs' slab out n = label_copy_ok fs slab out n"
  by (simp add: label_copy_ok_def stable_label_target stable_is_dir)

subsection \<open>The body of the loop, by cases\<close>

lemma process_label_cases:
  assumes "is_dir (fsys s) (out @ [''images''])" "is_dir (fsys s) (out @ [''labels''])"
    "is_txt n" "is_file (fsys s) (slab @ [n])"
  obtains
    (skip) "\<not> is_file (fsys s) (simg @ [image_filename n])"
      "process_label simg slab out s n = s\<lparr>log := log s @ [Warning_skipping n (image_filename n)]\<rparr>"
  | (image_fails) e where "is_file (fsys s) (simg @ [image_filename n])"
      "\<not> image_copy_ok (fsys s) simg out n"
      "process_label simg slab out s n =
         s\<lparr>log := log s @ [Error_processing n e],
           copies := copies s @ [(simg @ [image_filename n], out @ [''images'', image_filename n])]\<rparr>"
  | (label_fails) e ci where "node_at (fsys s) (simg @ [image_filename n]) = Some (File ci)"
      "image_copy_ok (fsys s) simg out n" "\<not> label_copy_ok (fsys s) slab out n"
      "process_label simg slab out s n =
         s\<lparr>fsys := AList.update (image_target (fsys s) simg out n) (File ci) (fsys s),
           log := log s @ [Error_processing n e],
           copies := copies s @ [(simg @ [image_filename n], out @ [''images'', image_filename n]),
                                 (slab @ [n], out @ [''labels'', n])]\<rparr>"
  | (copied) ci cl where "node_at (fsys s) (simg @ [image_filename n]) = Some (File ci)"
      "node_at (fsys s) (slab @ [n]) = Some (File cl)"
      "image_copy_ok (fsys s) simg out n" "label_copy_ok (fsys s) slab out n"
      "process_label simg slab out s n =
         s\<lparr>fsys := AList.update (label_target (fsys s) slab out n) (File cl)
                    (AList.update (image_target (fsys s) simg out n) (File ci) (fsys s)),
           copied_count := copied_count s + 1,
           copies := copies s @ [(simg @ [image_filename n], out @ [''images'', image_filename n]),
                                 (slab @ [n], out @ [''labels'', n])]\<rparr>"
proof (cases "is_file (fsys s) (simg @ [image_filename n])")
  case False
  then show ?thesis using skip process_label_skip by blast
next
  case True
  then obtain ci where ci: "node_at (fsys s) (simg @ [image_filename n]) = Some (File ci)"
    by (auto simp: is_file_iff)
  from assms(4) obtain cl where cl: "node_at (fsys s) (slab @ [n]) = Some (File cl)"
    by (auto simp: is_file_iff)
  show ?thesis
  proof (cases "image_copy_ok (fsys s) simg out n")
    case False
    from process_label_image_fails [OF True assms(1) False, of slab] show ?thesis
      using image_fails True False by blast
  next
    case iok: True
    show ?thesis
    proof (cases "label_copy_ok (fsys s) slab out n")
      case False
      from process_label_label_fails [OF ci assms(1,2) iok assms(4,3) False] show ?thesis
        using label_fails ci iok False by blast
    next
      case True
      from process_label_ok [OF ci assms(1,2) iok cl assms(3) True] show ?thesis
        using copied ci cl iok True by blast
    qed
  qed
qed

lemma loop_ready_step:
  assumes "loop_ready slab out (fsys s) (n # names)"
  shows "loop_ready slab out (fsys (process_label simg slab out s n)) names"
proof -
  from assms have t: "is_txt n" by (simp add: loop_ready_def)
  note st = stable_step [OF t, of simg slab s out]
  show ?thesis
    using assms stable_is_dir [OF st] stable_is_file_label [OF st]
    by (simp add: loop_ready_def)
qed

lemma stable_pair_copied:
  "stable simg slab fs fs' \<Longrightarrow> pair_copied fs' simg slab out n = pair_copied fs simg slab out n"
  by (simp add: pair_copied_def stable_is_file_image stable_image_copy_ok stable_label_copy_ok)

subsection \<open>The counter\<close>

lemma process_label_count:
  assumes "loop_ready slab out (fsys s) (n # names)"
  shows "copied_count (process_label simg slab out s n)
         = copied_count s + (if pair_copied (fsys s) simg slab out n then 1 else 0)"
proof -
  from assms have a: "is_dir (fsys s) (out @ [''images''])" "is_dir (fsys s) (out @ [''labels''])"
    "is_txt n" "is_file (fsys s) (slab @ [n])" by (simp_all add: loop_ready_def)
  from a show ?thesis
    by (cases rule: process_label_cases [where simg=simg]) (auto simp: pair_copied_def is_file_iff)
qed

lemma process_labels_count:
  "loop_ready slab out (fsys s) names \<Longrightarrow>
   copied_count (process_labels simg slab out s names)
     = copied_count s + length (filter (pair_copied (fsys s) simg slab out) names)"
proof (induction names arbitrary: s)
  case Nil
  then show ?case by simp
next
  case (Cons n names)
  let ?s1 = "process_label simg slab out s n"
  from Cons.prems have t: "is_txt n" by (simp add: loop_ready_def)
  note st = stable_step [OF t, of simg slab s out]
  have "copied_count (process_labels simg slab out ?s1 names)
     = copied_count ?s1 + length (filter (pair_copied (fsys ?s1) simg slab out) names)"
    by (rule Cons.IH [OF loop_ready_step [OF Cons.prems]])
  also have "pair_copied (fsys ?s1) simg slab out = pair_copied (fsys s) simg slab out"
    using stable_pair_copied [OF st] by blast
  finally show ?case
    by (simp add: process_label_count [OF Cons.prems])
qed

subsection \<open>The log and the calls\<close>

lemma process_label_log:
  assumes "loop_ready slab out (fsys s) (n # names)"
  shows "\<exists>e. log (process_label simg slab out s n) = log s @
           (if \<not> is_file (fsys s) (simg @ [image_filename n]) then [Warning_skipping n (image_filename n)]
            else if pair_copied (fsys s) simg slab out n then []
            else [Error_processing n e])"
proof -
  from assms have a: "is_dir (fsys s) (out @ [''images''])" "is_dir (fsys s) (out @ [''labels''])"
    "is_txt n" "is_file (fsys s) (slab @ [n])" by (simp_all add: loop_ready_def)
  from a show ?thesis
    by (cases rule: process_label_cases [where simg=simg]) (auto simp: pair_copied_def is_file_iff)
qed

lemma process_labels_log_errors:
  "loop_ready slab out (fsys s) names \<Longrightarrow>
   (\<exists>e. Error_processing n e \<in> set (log (process_labels simg slab out s names))) \<longleftrightarrow>
   (\<exists>e. Error_processing n e \<in> set (log s))
   \<or> (n \<in> set names \<and> is_file (fsys s) (simg @ [image_filename n])
       \<and> \<not> pair_copied (fsys s) simg slab out n)"
proof (induction names arbitrary: s)
  case Nil
  then show ?case by simp
next
  case (Cons m names)
  let ?s1 = "process_label simg slab out s m"
  from Cons.prems have t: "is_txt m" by (simp add: loop_ready_def)
  note st = stable_step [OF t, of simg slab s out]
  from process_label_log [OF Cons.prems, of simg] obtain e where
    l: "log ?s1 = log s @
           (if \<not> is_file (fsys s) (simg @ [image_filename m]) then [Warning_skipping m (image_filename m)]
            else if pair_copied (fsys s) simg slab out m then []
            else [Error_processing m e])" ..
  have "(\<exists>e. Error_processing n e \<in> set (log (process_labels simg slab out ?s1 names))) \<longleftrightarrow>
   (\<exists>e. Error_processing n e \<in> set (log ?s1))
   \<or> (n \<in> set names \<and> is_file (fsys ?s1) (simg @ [image_filename n])
       \<and> \<not> pair_copied (fsys ?s1) simg slab out n)"
    by (rule Cons.IH [OF loop_ready_step [OF Cons.prems]])
  then show ?case
    unfolding stable_pair_copied [OF st] stable_is_file_image [OF st] l
    by auto
qed

lemma process_labels_log_warnings:
  "loop_ready slab out (fsys s) names \<Longrightarrow>
   Warning_skipping n f \<in> set (log (process_labels simg slab out s names)) \<longleftrightarrow>
   Warning_skipping n f \<in> set (log s)
   \<or> (n \<in> set names \<and> \<not> is_file (fsys s) (simg @ [image_filename n]) \<and> f = image_filename n)"
proof (induction names arbitrary: s)
  case Nil
  then show ?case by simp
next
  case (Cons m names)
  let ?s1 = "process_label simg slab out s m"
  from Cons.prems have t: "is_txt m" by (simp add: loop_ready_def)
  note st = stable_step [OF t, of simg slab s out]
  from process_label_log [OF Cons.prems, of simg] obtain e where
    l: "log ?s1 = log s @
           (if \<not> is_file (fsys s) (simg @ [image_filename m]) then [Warning_skipping m (image_filename m)]
            else if pair_copied (fsys s) simg slab out m then []
            else [Error_processing m e])" ..
  have "Warning_skipping n f \<in> set (log (process_labels simg slab out ?s1 names)) \<longleftrightarrow>
   Warning_skipping n f \<in> set (log ?s1)
   \<or> (n \<in> set names \<and> \<not> is_file (fsys ?s1) (simg @ [image_filename n]) \<and> f = image_filename n)"
    by (rule Cons.IH [OF loop_ready_step [OF Cons.prems]])
  then show ?case
    unfolding stable_is_file_image [OF st] l
    by auto
qed

text \<open>The loop adds warnings and errors to the log, and nothing else.\<close>

lemma process_label_log_kind:
  "\<exists>es. log (process_label simg slab out s n) = log s @ es
        \<and> (\<forall>x \<in> set es. (\<exists>f. x = Warning_skipping n f) \<or> (\<exists>e. x = Error_processing n e))"
  by (auto simp: process_label_def Let_def split: sum.splits)

lemma process_labels_log_kind:
  "\<exists>es. log (process_labels simg slab out s names) = log s @ es
        \<and> (\<forall>x \<in> set es. (\<exists>m f. x = Warning_skipping m f) \<or> (\<exists>m e. x = Error_processing m e))"
proof (induction names arbitrary: s)
  case Nil
  then show ?case by simp
next
  case (Cons n names)
  let ?s1 = "process_label simg slab out s n"
  from process_label_log_kind [of simg slab out s n] obtain es1 where
    1: "log ?s1 = log s @ es1"
    "\<forall>x \<in> set es1. (\<exists>f. x = Warning_skipping n f) \<or> (\<exists>e. x = Error_processing n e)" by blast
  from Cons.IH [of ?s1] obtain es2 where
    2: "log (process_labels simg slab out ?s1 names) = log ?s1 @ es2"
    "\<forall>x \<in> set es2. (\<exists>m f. x = Warning_skipping m f) \<or> (\<exists>m e. x = Error_processing m e)" by blast
  have "log (process_labels simg slab out s (n # names)) = log s @ (es1 @ es2)"
    using 1(1) 2(1) by simp
  moreover have "\<forall>x \<in> set (es1 @ es2). (\<exists>m f. x = Warning_skipping m f) \<or> (\<exists>m e. x = Error_processing m e)"
    using 1(2) 2(2) by auto
  ultimately show ?case by blast
qed

text \<open>The loop calls \<open>copy2\<close> on images and labels only.\<close>

lemma process_label_copies_kind:
  "\<exists>cs. copies (process_label simg slab out s n) = copies s @ cs
        \<and> (\<forall>x \<in> set cs. length (snd x) = length out + 2)"
  by (auto simp: process_label_def Let_def split: sum.splits)

lemma process_labels_copies_kind:
  "\<exists>cs. copies (process_labels simg slab out s names) = copies s @ cs
        \<and> (\<forall>x \<in> set cs. length (snd x) = length out + 2)"
proof (induction names arbitrary: s)
  case Nil
  then show ?case by simp
next
  case (Cons n names)
  let ?s1 = "process_label simg slab out s n"
  from process_label_copies_kind [of simg slab out s n] obtain cs1 where
    1: "copies ?s1 = copies s @ cs1" "\<forall>x \<in> set cs1. length (snd x) = length out + 2" by blast
  from Cons.IH [of ?s1] obtain cs2 where
    2: "copies (process_labels simg slab out ?s1 names) = copies ?s1 @ cs2"
    "\<forall>x \<in> set cs2. length (snd x) = length out + 2" by blast
  have "copies (process_labels simg slab out s (n # names)) = copies s @ (cs1 @ cs2)"
    using 1(1) 2(1) by simp
  moreover have "\<forall>x \<in> set (cs1 @ cs2). length (snd x) = length out + 2"
    using 1(2) 2(2) by auto
  ultimately show ?case by blast
qed

subsection \<open>What the loop writes, and where\<close>



text \<open>
  Once a target holds what its source holds, it goes on doing so: a later pass that
  writes to the same target copies the same source.
\<close>

lemma step_keeps_image:
  assumes "is_txt m"
    and "node_at (fsys s) (image_target (fsys s) simg out n) = node_at (fsys s) (simg @ [image_filename n])"
  shows "node_at (fsys (process_label simg slab out s m)) (image_target (fsys s) simg out n)
         = node_at (fsys s) (simg @ [image_filename n])"
  using process_label_node_at [OF assms(1), of simg slab out s "image_target (fsys s) simg out n"]
    assms(2) image_target_eq [of "fsys s" simg out n m]
    image_target_neq_label_target [of "fsys s" simg out n "fsys s" slab m]
  by auto

lemma step_keeps_label:
  assumes "is_txt m"
    and "node_at (fsys s) (label_target (fsys s) slab out n) = node_at (fsys s) (slab @ [n])"
  shows "node_at (fsys (process_label simg slab out s m)) (label_target (fsys s) slab out n)
         = node_at (fsys s) (slab @ [n])"
  using process_label_node_at [OF assms(1), of simg slab out s "label_target (fsys s) slab out n"]
    assms(2) label_target_eq [of "fsys s" slab out n m]
    image_target_neq_label_target [of "fsys s" simg out m "fsys s" slab n]
  by auto

lemma loop_keeps_image:
  "\<forall>m \<in> set names. is_txt m \<Longrightarrow>
   node_at (fsys s) (image_target (fsys s) simg out n) = node_at (fsys s) (simg @ [image_filename n]) \<Longrightarrow>
   node_at (fsys (process_labels simg slab out s names)) (image_target (fsys s) simg out n)
     = node_at (fsys s) (simg @ [image_filename n])"
proof (induction names arbitrary: s)
  case Nil
  then show ?case by simp
next
  case (Cons m names)
  let ?s1 = "process_label simg slab out s m"
  from Cons.prems have t: "is_txt m" and ts: "\<forall>m \<in> set names. is_txt m" by simp_all
  note st = stable_step [OF t, of simg slab s out]
  have "node_at (fsys ?s1) (image_target (fsys ?s1) simg out n) = node_at (fsys ?s1) (simg @ [image_filename n])"
    using step_keeps_image [OF t Cons.prems(2)]
    by (simp add: stable_image_target [OF st] stable_image_src [OF st])
  from Cons.IH [OF ts this] show ?case
    by (simp add: stable_image_target [OF st] stable_image_src [OF st])
qed

lemma loop_keeps_label:
  "\<forall>m \<in> set names. is_txt m \<Longrightarrow> is_txt n \<Longrightarrow>
   node_at (fsys s) (label_target (fsys s) slab out n) = node_at (fsys s) (slab @ [n]) \<Longrightarrow>
   node_at (fsys (process_labels simg slab out s names)) (label_target (fsys s) slab out n)
     = node_at (fsys s) (slab @ [n])"
proof (induction names arbitrary: s)
  case Nil
  then show ?case by simp
next
  case (Cons m names)
  let ?s1 = "process_label simg slab out s m"
  from Cons.prems have t: "is_txt m" and ts: "\<forall>m \<in> set names. is_txt m" by simp_all
  note st = stable_step [OF t, of simg slab s out]
  have "node_at (fsys ?s1) (label_target (fsys ?s1) slab out n) = node_at (fsys ?s1) (slab @ [n])"
    using step_keeps_label [OF t Cons.prems(3)]
    by (simp add: stable_label_target [OF st] stable_label_src [OF st Cons.prems(2)])
  from Cons.IH [OF ts Cons.prems(2) this] show ?case
    by (simp add: stable_label_target [OF st] stable_label_src [OF st Cons.prems(2)])
qed

text \<open>The pass for a label whose image is there and can be copied puts the image; when the
  label can be copied too, it puts the label.\<close>

lemma step_puts_image:
  assumes "loop_ready slab out (fsys s) (n # names)"
    and "is_file (fsys s) (simg @ [image_filename n])" and "image_copy_ok (fsys s) simg out n"
  shows "node_at (fsys (process_label simg slab out s n)) (image_target (fsys s) simg out n)
         = node_at (fsys s) (simg @ [image_filename n])"
proof -
  from assms(1) have a: "is_dir (fsys s) (out @ [''images''])" "is_dir (fsys s) (out @ [''labels''])"
    "is_txt n" "is_file (fsys s) (slab @ [n])" by (simp_all add: loop_ready_def)
  have nd: "\<not> is_dir (fsys s) (image_target (fsys s) simg out n)"
    using assms(3) by (simp add: image_copy_ok_def)
  from a show ?thesis
  proof (cases rule: process_label_cases [where simg=simg])
    case skip
    with assms(2) show ?thesis by simp
  next
    case (image_fails e)
    with assms(3) show ?thesis by simp
  next
    case (label_fails e ci)
    then show ?thesis by (simp add: node_at_write [OF nd])
  next
    case (copied ci cl)
    have nl: "\<not> is_dir (AList.update (image_target (fsys s) simg out n) (File ci) (fsys s))
                 (label_target (fsys s) slab out n)"
      using copied(4) by (simp add: label_copy_ok_def is_dir_write [OF nd])
    show ?thesis
      using copied image_target_neq_label_target [of "fsys s" simg out n "fsys s" slab n]
      by (simp add: node_at_write [OF nl] node_at_write [OF nd])
  qed
qed

lemma step_puts_label:
  assumes "loop_ready slab out (fsys s) (n # names)"
    and "pair_copied (fsys s) simg slab out n"
  shows "node_at (fsys (process_label simg slab out s n)) (label_target (fsys s) slab out n)
         = node_at (fsys s) (slab @ [n])"
proof -
  from assms(1) have a: "is_dir (fsys s) (out @ [''images''])" "is_dir (fsys s) (out @ [''labels''])"
    "is_txt n" "is_file (fsys s) (slab @ [n])" by (simp_all add: loop_ready_def)
  from assms(2) have p: "is_file (fsys s) (simg @ [image_filename n])"
    "image_copy_ok (fsys s) simg out n" "label_copy_ok (fsys s) slab out n"
    by (simp_all add: pair_copied_def)
  have nd: "\<not> is_dir (fsys s) (image_target (fsys s) simg out n)"
    using p(2) by (simp add: image_copy_ok_def)
  from a show ?thesis
  proof (cases rule: process_label_cases [where simg=simg])
    case skip
    with p show ?thesis by simp
  next
    case (image_fails e)
    with p show ?thesis by simp
  next
    case (label_fails e ci)
    with p show ?thesis by simp
  next
    case (copied ci cl)
    have nl: "\<not> is_dir (AList.update (image_target (fsys s) simg out n) (File ci) (fsys s))
                 (label_target (fsys s) slab out n)"
      using copied(4) by (simp add: label_copy_ok_def is_dir_write [OF nd])
    show ?thesis
      using copied by (simp add: node_at_write [OF nl])
  qed
qed

lemma loop_puts_image:
  "loop_ready slab out (fsys s) names \<Longrightarrow> n \<in> set names \<Longrightarrow>
   is_file (fsys s) (simg @ [image_filename n]) \<Longrightarrow> image_copy_ok (fsys s) simg out n \<Longrightarrow>
   node_at (fsys (process_labels simg slab out s names)) (image_target (fsys s) simg out n)
     = node_at (fsys s) (simg @ [image_filename n])"
proof (induction names arbitrary: s)
  case Nil
  then show ?case by simp
next
  case (Cons m names)
  let ?s1 = "process_label simg slab out s m"
  from Cons.prems(1) have t: "is_txt m" by (simp add: loop_ready_def)
  note st = stable_step [OF t, of simg slab s out]
  note r1 = loop_ready_step [OF Cons.prems(1), of simg]
  from r1 have ts: "\<forall>m \<in> set names. is_txt m" by (simp add: loop_ready_def)
  show ?case
  proof (cases "n = m")
    case True
    have "node_at (fsys ?s1) (image_target (fsys ?s1) simg out n) = node_at (fsys ?s1) (simg @ [image_filename n])"
      using step_puts_image [OF Cons.prems(1), of simg] Cons.prems(3,4) True
      by (simp add: stable_image_target [OF st] stable_image_src [OF st])
    from loop_keeps_image [OF ts this] show ?thesis
      by (simp add: stable_image_target [OF st] stable_image_src [OF st])
  next
    case False
    with Cons.prems(2) have "n \<in> set names" by simp
    from Cons.IH [OF r1 this] Cons.prems(3,4) show ?thesis
      by (simp add: stable_image_target [OF st] stable_image_src [OF st]
          stable_is_file_image [OF st] stable_image_copy_ok [OF st])
  qed
qed

lemma loop_puts_label:
  "loop_ready slab out (fsys s) names \<Longrightarrow> n \<in> set names \<Longrightarrow>
   pair_copied (fsys s) simg slab out n \<Longrightarrow>
   node_at (fsys (process_labels simg slab out s names)) (label_target (fsys s) slab out n)
     = node_at (fsys s) (slab @ [n])"
proof (induction names arbitrary: s)
  case Nil
  then show ?case by simp
next
  case (Cons m names)
  let ?s1 = "process_label simg slab out s m"
  from Cons.prems(1) have t: "is_txt m" by (simp add: loop_ready_def)
  from Cons.prems(1,2) have tn: "is_txt n" by (auto simp: loop_ready_def)
  note st = stable_step [OF t, of simg slab s out]
  note r1 = loop_ready_step [OF Cons.prems(1), of simg]
  from r1 have ts: "\<forall>m \<in> set names. is_txt m" by (simp add: loop_ready_def)
  show ?case
  proof (cases "n = m")
    case True
    have "node_at (fsys ?s1) (label_target (fsys ?s1) slab out n) = node_at (fsys ?s1) (slab @ [n])"
      using step_puts_label [OF Cons.prems(1), of simg] Cons.prems(3) True
      by (simp add: stable_label_target [OF st] stable_label_src [OF st t])
    from loop_keeps_label [OF ts tn this] show ?thesis
      by (simp add: stable_label_target [OF st] stable_label_src [OF st tn])
  next
    case False
    with Cons.prems(2) have "n \<in> set names" by simp
    from Cons.IH [OF r1 this] Cons.prems(3) show ?thesis
      by (simp add: stable_label_target [OF st] stable_label_src [OF st tn]
          stable_pair_copied [OF st])
  qed
qed

subsection \<open>Creating the output directories\<close>

lemma mkdir_parents_unfold:
  "mkdir_parents fs p = Inr fs' \<Longrightarrow>
   (node_at fs p = Some Dir \<and> fs' = fs)
   \<or> (node_at fs p = None \<and> (\<exists>fs1. mkdir_parents fs (butlast p) = Inr fs1 \<and> fs' = AList.update p Dir fs1))"
  by (subst (asm) mkdir_parents.simps) (simp split: option.splits node.splits sum.splits)

lemma mkdir_parents_node_at:
  "mkdir_parents fs p = Inr fs' \<Longrightarrow>
   is_dir fs' p \<and> (\<forall>q. node_at fs' q = node_at fs q \<or> (node_at fs q = None \<and> node_at fs' q = Some Dir))"
proof (induction fs p arbitrary: fs' rule: mkdir_parents.induct)
  case (1 fs p)
  from mkdir_parents_unfold [OF 1(2)] show ?case
  proof
    assume "node_at fs p = Some Dir \<and> fs' = fs"
    then show ?thesis by (simp add: is_dir_def)
  next
    assume "node_at fs p = None \<and> (\<exists>fs1. mkdir_parents fs (butlast p) = Inr fs1 \<and> fs' = AList.update p Dir fs1)"
    then obtain fs1 where None: "node_at fs p = None" and m: "mkdir_parents fs (butlast p) = Inr fs1"
      and f: "fs' = AList.update p Dir fs1" by blast
    from None have pn: "p \<noteq> []" by (auto simp: node_at_def)
    from 1(1) [OF None m] have ih: "\<forall>q. node_at fs1 q = node_at fs q \<or> (node_at fs q = None \<and> node_at fs1 q = Some Dir)"
      by blast
    show ?thesis
      using ih None by (auto simp: f node_at_update [OF pn] is_dir_def)
  qed
qed

lemma mkdir_parents_is_file: "mkdir_parents fs p = Inr fs' \<Longrightarrow> is_file fs' q = is_file fs q"
proof -
  assume "mkdir_parents fs p = Inr fs'"
  from mkdir_parents_node_at [OF this]
  have "node_at fs' q = node_at fs q \<or> (node_at fs q = None \<and> node_at fs' q = Some Dir)" by blast
  then show ?thesis by (auto simp: is_file_def)
qed

lemma mkdir_parents_is_dir: "mkdir_parents fs p = Inr fs' \<Longrightarrow> is_dir fs q \<Longrightarrow> is_dir fs' q"
proof -
  assume "mkdir_parents fs p = Inr fs'"
  from mkdir_parents_node_at [OF this]
  have "node_at fs' q = node_at fs q \<or> (node_at fs q = None \<and> node_at fs' q = Some Dir)" by blast
  then show "is_dir fs q \<Longrightarrow> is_dir fs' q" by (auto simp: is_dir_def)
qed

lemma mkdir_parents_file_content:
  "mkdir_parents fs p = Inr fs' \<Longrightarrow> node_at fs q = Some (File c) \<longleftrightarrow> node_at fs' q = Some (File c)"
proof -
  assume "mkdir_parents fs p = Inr fs'"
  from mkdir_parents_node_at [OF this]
  have "node_at fs' q = node_at fs q \<or> (node_at fs q = None \<and> node_at fs' q = Some Dir)" by blast
  then show ?thesis by auto
qed

subsection \<open>The listing of the labels directory\<close>

lemma remdups_snoc: "x \<notin> set xs \<Longrightarrow> remdups (xs @ [x]) = remdups xs @ [x]"
  by (induction xs) auto

lemma label_files_update:
  assumes "\<And>f. is_txt f \<Longrightarrow> is_file (AList.update k v fs) (d @ [f]) = is_file fs (d @ [f])"
  shows "label_files (AList.update k v fs) d = label_files fs d"
proof -
  let ?fs' = "AList.update k v fs"
  let ?child = "\<lambda>p. p \<noteq> [] \<and> butlast p = d"
  let ?xs = "map last (filter ?child (map fst fs))"
  have cong: "filter (\<lambda>f. is_file ?fs' (d @ [f]) \<and> is_txt f) ys = filter (\<lambda>f. is_file fs (d @ [f]) \<and> is_txt f) ys" for ys
    using assms by (intro filter_cong) auto
  show ?thesis
  proof (cases "k \<in> set (map fst fs)")
    case True
    then have "map fst ?fs' = map fst fs" by (simp add: update_keys)
    then show ?thesis by (simp add: label_files_def iterdir_def cong)
  next
    case False
    then have keys: "map fst ?fs' = map fst fs @ [k]" by (simp add: update_keys)
    show ?thesis
    proof (cases "?child k")
      case nc: False
      then have "filter ?child (map fst ?fs') = filter ?child (map fst fs)" by (auto simp: keys)
      then show ?thesis by (simp add: label_files_def iterdir_def cong)
    next
      case c: True
      then have kd: "d @ [last k] = k" by auto
      have "last k \<notin> set ?xs"
      proof
        assume "last k \<in> set ?xs"
        then obtain p where p: "p \<in> set (map fst fs)" "p \<noteq> []" "butlast p = d" "last p = last k" by force
        then have "p = k" using c by (metis append_butlast_last_id)
        with p(1) False show False by simp
      qed
      then have it: "iterdir ?fs' d = iterdir fs d @ [last k]"
        using c by (simp add: iterdir_def keys remdups_snoc)
      have "map_of fs k = None" using False by (simp add: map_of_eq_None_iff)
      then have nf: "\<not> is_file fs k" using c by (simp add: is_file_def node_at_def)
      have "\<not> (is_file ?fs' (d @ [last k]) \<and> is_txt (last k))"
        using assms [of "last k"] nf kd by auto
      moreover have "\<not> is_file fs (d @ [last k])" using nf kd by simp
      ultimately show ?thesis by (simp add: label_files_def it cong)
    qed
  qed
qed

lemma mkdir_parents_label_files:
  "mkdir_parents fs p = Inr fs' \<Longrightarrow> label_files fs' d = label_files fs d"
proof (induction fs p arbitrary: fs' rule: mkdir_parents.induct)
  case (1 fs p)
  from mkdir_parents_unfold [OF 1(2)] show ?case
  proof
    assume "node_at fs p = Some Dir \<and> fs' = fs"
    then show ?thesis by simp
  next
    assume "node_at fs p = None \<and> (\<exists>fs1. mkdir_parents fs (butlast p) = Inr fs1 \<and> fs' = AList.update p Dir fs1)"
    then obtain fs1 where None: "node_at fs p = None" and m: "mkdir_parents fs (butlast p) = Inr fs1"
      and f: "fs' = AList.update p Dir fs1" by blast
    have "is_file fs' q = is_file fs1 q" for q
      using mkdir_parents_is_file [OF 1(2), of q] mkdir_parents_is_file [OF m, of q] by simp
    then have "label_files fs' d = label_files fs1 d"
      unfolding f by (intro label_files_update) simp
    with 1(1) [OF None m] show ?thesis by simp
  qed
qed

lemma label_files_txt: "n \<in> set (label_files fs d) \<Longrightarrow> is_txt n \<and> is_file fs (d @ [n])"
  by (simp add: label_files_def)

lemma distinct_label_files: "distinct (label_files fs d)"
  by (simp add: label_files_def iterdir_def)

lemma label_files_iff:
  "n \<in> set (label_files fs d) \<longleftrightarrow> is_txt n \<and> is_file fs (d @ [n])"
proof
  assume "n \<in> set (label_files fs d)"
  then show "is_txt n \<and> is_file fs (d @ [n])" by (rule label_files_txt)
next
  assume a: "is_txt n \<and> is_file fs (d @ [n])"
  then have "map_of fs (d @ [n]) \<noteq> None" by (auto simp: is_file_iff node_at_def)
  then have "d @ [n] \<in> set (map fst fs)" by (simp add: map_of_eq_None_iff)
  then have "n \<in> set (iterdir fs d)" by (force simp: iterdir_def)
  with a show "n \<in> set (label_files fs d)" by (simp add: label_files_def)
qed

subsection \<open>The function, by cases\<close>

lemma filter_annotated_data_exit:
  "\<not> (is_dir fs0 simg \<and> is_dir fs0 slab \<and> is_file fs0 cls) \<Longrightarrow>
   filter_annotated_data fs0 simg slab out cls =
     (Exited 1, \<lparr>fsys = fs0, copied_count = 0,
        log = [Error_sources_not_found (exists_path fs0 simg) (exists_path fs0 slab) (exists_path fs0 cls)],
        copies = []\<rparr>)"
  by (simp add: filter_annotated_data_def)

lemma filter_annotated_data_mkdir_raises:
  assumes "is_dir fs0 simg" "is_dir fs0 slab" "is_file fs0 cls" "make_output_dirs fs0 out = Inl e"
  shows "fst (filter_annotated_data fs0 simg slab out cls) = Raised e
       \<and> copied_count (snd (filter_annotated_data fs0 simg slab out cls)) = 0
       \<and> log (snd (filter_annotated_data fs0 simg slab out cls)) = []
       \<and> copies (snd (filter_annotated_data fs0 simg slab out cls)) = []"
  using assms by (auto simp: filter_annotated_data_def make_output_dirs_def split: sum.splits)

lemma filter_annotated_data_run:
  assumes "is_dir fs0 simg" "is_dir fs0 slab" "is_file fs0 cls" "make_output_dirs fs0 out = Inr fs2"
  shows "filter_annotated_data fs0 simg slab out cls =
     (case copy2 (fsys (after_loop fs2 simg slab out)) cls (out @ [last cls]) of
        Inl e \<Rightarrow>
          (Raised e,
           (after_loop fs2 simg slab out)
             \<lparr>copies := copies (after_loop fs2 simg slab out) @ [(cls, out @ [last cls])]\<rparr>)
      | Inr fs3 \<Rightarrow>
          (Returned,
           (after_loop fs2 simg slab out)
             \<lparr>copies := copies (after_loop fs2 simg slab out) @ [(cls, out @ [last cls])],
              fsys := fs3,
              log := log (after_loop fs2 simg slab out)
                       @ [Info_complete (copied_count (after_loop fs2 simg slab out)),
                          Info_available out]\<rparr>))"
  using assms
  by (auto simp: filter_annotated_data_def make_output_dirs_def after_loop_def Let_def split: sum.splits)

text \<open>What creating the output directories changes: directories appear at paths that
  were free, none of them below \<open>images\<close> or \<open>labels\<close>.\<close>

lemma mkdir_parents_prefix:
  "mkdir_parents fs p = Inr fs' \<Longrightarrow> node_at fs' q \<noteq> node_at fs q \<Longrightarrow> prefix q p"
proof (induction fs p arbitrary: fs' rule: mkdir_parents.induct)
  case (1 fs p)
  from mkdir_parents_unfold [OF 1(2)] show ?case
  proof
    assume "node_at fs p = Some Dir \<and> fs' = fs"
    with 1(3) show ?thesis by simp
  next
    assume "node_at fs p = None \<and> (\<exists>fs1. mkdir_parents fs (butlast p) = Inr fs1 \<and> fs' = AList.update p Dir fs1)"
    then obtain fs1 where None: "node_at fs p = None" and m: "mkdir_parents fs (butlast p) = Inr fs1"
      and f: "fs' = AList.update p Dir fs1" by blast
    from None have pn: "p \<noteq> []" by (auto simp: node_at_def)
    show ?thesis
    proof (cases "q = p")
      case True
      then show ?thesis by simp
    next
      case False
      with 1(3) have "node_at fs1 q \<noteq> node_at fs q" by (simp add: f node_at_update [OF pn])
      from 1(1) [OF None m this] have "prefix q (butlast p)" .
      then show ?thesis by (meson prefix_order.trans prefixeq_butlast)
    qed
  qed
qed

lemma make_output_dirs_facts:
  assumes "make_output_dirs fs out = Inr fs2"
  shows "is_dir fs2 (out @ [''images''])" and "is_dir fs2 (out @ [''labels''])"
    and "is_file fs2 q = is_file fs q"
    and "node_at fs q = Some (File c) \<longleftrightarrow> node_at fs2 q = Some (File c)"
    and "is_dir fs q \<Longrightarrow> is_dir fs2 q"
    and "label_files fs2 d = label_files fs d"
    and "length out + 1 < length q \<Longrightarrow> node_at fs2 q = node_at fs q"
proof -
  from assms obtain fs1 where 1: "mkdir_parents fs (out @ [''images'']) = Inr fs1"
    and 2: "mkdir_parents fs1 (out @ [''labels'']) = Inr fs2"
    by (auto simp: make_output_dirs_def split: sum.splits)
  show "is_dir fs2 (out @ [''images''])"
    using mkdir_parents_node_at [OF 1] mkdir_parents_is_dir [OF 2] by blast
  show "is_dir fs2 (out @ [''labels''])"
    using mkdir_parents_node_at [OF 2] by blast
  show "is_file fs2 q = is_file fs q"
    using mkdir_parents_is_file [OF 1] mkdir_parents_is_file [OF 2] by simp
  show "node_at fs q = Some (File c) \<longleftrightarrow> node_at fs2 q = Some (File c)"
    using mkdir_parents_file_content [OF 1] mkdir_parents_file_content [OF 2] by simp
  show "is_dir fs q \<Longrightarrow> is_dir fs2 q"
    using mkdir_parents_is_dir [OF 1] mkdir_parents_is_dir [OF 2] by blast
  show "label_files fs2 d = label_files fs d"
    using mkdir_parents_label_files [OF 1] mkdir_parents_label_files [OF 2] by simp
  show "node_at fs2 q = node_at fs q" if l: "length out + 1 < length q"
  proof -
    have "\<not> prefix q (out @ [''images''])" "\<not> prefix q (out @ [''labels''])"
      using l by (auto dest: prefix_length_le)
    then have "node_at fs1 q = node_at fs q" "node_at fs2 q = node_at fs1 q"
      using mkdir_parents_prefix [OF 1, of q] mkdir_parents_prefix [OF 2, of q] by blast+
    then show ?thesis by simp
  qed
qed

subsection \<open>After the loop\<close>

lemma run_copies:
  assumes "is_dir fs0 simg" "is_dir fs0 slab" "is_file fs0 cls" "make_output_dirs fs0 out = Inr fs2"
  shows "copies (snd (filter_annotated_data fs0 simg slab out cls))
         = copies (after_loop fs2 simg slab out) @ [(cls, out @ [last cls])]"
  by (simp add: filter_annotated_data_run [OF assms] split: sum.splits)

lemma run_copied_count:
  assumes "is_dir fs0 simg" "is_dir fs0 slab" "is_file fs0 cls" "make_output_dirs fs0 out = Inr fs2"
  shows "copied_count (snd (filter_annotated_data fs0 simg slab out cls))
         = copied_count (after_loop fs2 simg slab out)"
  by (simp add: filter_annotated_data_run [OF assms] split: sum.splits)

lemma run_log:
  assumes "is_dir fs0 simg" "is_dir fs0 slab" "is_file fs0 cls" "make_output_dirs fs0 out = Inr fs2"
  shows "log (snd (filter_annotated_data fs0 simg slab out cls))
         = log (after_loop fs2 simg slab out)
           @ (if fst (filter_annotated_data fs0 simg slab out cls) = Returned
              then [Info_complete (copied_count (after_loop fs2 simg slab out)), Info_available out]
              else [])"
  by (simp add: filter_annotated_data_run [OF assms] split: sum.splits)

lemma run_outcome:
  assumes "is_dir fs0 simg" "is_dir fs0 slab" "is_file fs0 cls" "make_output_dirs fs0 out = Inr fs2"
  shows "fst (filter_annotated_data fs0 simg slab out cls)
         = (case copy2 (fsys (after_loop fs2 simg slab out)) cls (out @ [last cls]) of
              Inl e \<Rightarrow> Raised e | Inr fs3 \<Rightarrow> Returned)"
  by (simp add: filter_annotated_data_run [OF assms] split: sum.splits)

lemma run_fsys:
  assumes "is_dir fs0 simg" "is_dir fs0 slab" "is_file fs0 cls" "make_output_dirs fs0 out = Inr fs2"
  shows "fsys (snd (filter_annotated_data fs0 simg slab out cls))
         = (case copy2 (fsys (after_loop fs2 simg slab out)) cls (out @ [last cls]) of
              Inl e \<Rightarrow> fsys (after_loop fs2 simg slab out) | Inr fs3 \<Rightarrow> fs3)"
  by (simp add: filter_annotated_data_run [OF assms] split: sum.splits)

lemma run_node_at:
  assumes "is_dir fs0 simg" "is_dir fs0 slab" "is_file fs0 cls" "make_output_dirs fs0 out = Inr fs2"
    and "q \<noteq> class_target (fsys (after_loop fs2 simg slab out)) out cls"
  shows "node_at (fsys (snd (filter_annotated_data fs0 simg slab out cls))) q
         = node_at (fsys (after_loop fs2 simg slab out)) q"
proof (cases "copy2 (fsys (after_loop fs2 simg slab out)) cls (out @ [last cls])")
  case (Inl e)
  then show ?thesis by (simp add: run_fsys [OF assms(1-4)])
next
  case (Inr fs3)
  from copy2_Inr_D [OF Inr] obtain c where
    "fs3 = AList.update (class_target (fsys (after_loop fs2 simg slab out)) out cls) (File c)
             (fsys (after_loop fs2 simg slab out))"
    "\<not> is_dir (fsys (after_loop fs2 simg slab out)) (class_target (fsys (after_loop fs2 simg slab out)) out cls)"
    by (auto simp: class_target_def)
  with Inr assms(5) show ?thesis
    by (simp add: run_fsys [OF assms(1-4)] node_at_write)
qed

text \<open>The state the loop starts from, and what the loop has done when it ends.\<close>

lemma after_loop_ready:
  assumes "make_output_dirs fs0 out = Inr fs2"
  shows "loop_ready slab out fs2 (label_files fs2 slab)"
  using make_output_dirs_facts(1,2) [OF assms] label_files_txt [of _ fs2 slab]
  by (auto simp: loop_ready_def)

lemma targets_after_mkdir:
  assumes "make_output_dirs fs0 out = Inr fs2"
  shows "image_target fs2 simg out n = image_target fs0 simg out n"
    and "label_target fs2 slab out n = label_target fs0 slab out n"
    and "image_copy_ok fs2 simg out n = image_copy_ok fs0 simg out n"
    and "label_copy_ok fs2 slab out n = label_copy_ok fs0 slab out n"
    and "pair_copied fs2 simg slab out n = pair_copied fs0 simg slab out n"
proof -
  have d: "is_dir fs2 q = is_dir fs0 q" if "length out + 1 < length q" for q
    using make_output_dirs_facts(7) [OF assms that] by (simp add: is_dir_def)
  show i: "image_target fs2 simg out n = image_target fs0 simg out n"
    by (simp add: image_target_def copy_target_def d)
  show l: "label_target fs2 slab out n = label_target fs0 slab out n"
    by (simp add: label_target_def copy_target_def d)
  have "length out + 1 < length (image_target fs0 simg out n)"
    using image_target_cases [of fs0 simg out n] by auto
  then show io: "image_copy_ok fs2 simg out n = image_copy_ok fs0 simg out n"
    by (simp add: image_copy_ok_def i d)
  have "length out + 1 < length (label_target fs0 slab out n)"
    using label_target_cases [of fs0 slab out n] by auto
  then show lo: "label_copy_ok fs2 slab out n = label_copy_ok fs0 slab out n"
    by (simp add: label_copy_ok_def l d)
  show "pair_copied fs2 simg slab out n = pair_copied fs0 simg slab out n"
    by (simp add: pair_copied_def io lo make_output_dirs_facts(3) [OF assms])
qed

lemma after_loop_errors:
  assumes "make_output_dirs fs0 out = Inr fs2"
  shows "(\<exists>e. Error_processing n e \<in> set (log (after_loop fs2 simg slab out))) \<longleftrightarrow>
         n \<in> set (label_files fs0 slab) \<and> is_file fs0 (simg @ [image_filename n])
         \<and> \<not> pair_copied fs0 simg slab out n"
proof -
  let ?s0 = "\<lparr>fsys = fs2, copied_count = 0, log = [Info_created out, Info_starting], copies = []\<rparr>"
  have r: "loop_ready slab out (fsys ?s0) (label_files fs2 slab)"
    using after_loop_ready [OF assms] by simp
  from process_labels_log_errors [OF r, of n simg] show ?thesis
    by (simp add: after_loop_def make_output_dirs_facts(3,6) [OF assms]
        targets_after_mkdir(5) [OF assms])
qed

lemma after_loop_warnings:
  assumes "make_output_dirs fs0 out = Inr fs2"
  shows "Warning_skipping n f \<in> set (log (after_loop fs2 simg slab out)) \<longleftrightarrow>
         n \<in> set (label_files fs0 slab) \<and> \<not> is_file fs0 (simg @ [image_filename n])
         \<and> f = image_filename n"
proof -
  let ?s0 = "\<lparr>fsys = fs2, copied_count = 0, log = [Info_created out, Info_starting], copies = []\<rparr>"
  have r: "loop_ready slab out (fsys ?s0) (label_files fs2 slab)"
    using after_loop_ready [OF assms] by simp
  from process_labels_log_warnings [OF r, of n f simg] show ?thesis
    by (simp add: after_loop_def make_output_dirs_facts(3,6) [OF assms])
qed

lemma after_loop_count:
  assumes "make_output_dirs fs0 out = Inr fs2"
  shows "copied_count (after_loop fs2 simg slab out)
         = length (filter (pair_copied fs0 simg slab out) (label_files fs0 slab))"
proof -
  let ?s0 = "\<lparr>fsys = fs2, copied_count = 0, log = [Info_created out, Info_starting], copies = []\<rparr>"
  have r: "loop_ready slab out (fsys ?s0) (label_files fs2 slab)"
    using after_loop_ready [OF assms] by simp
  have "pair_copied fs2 simg slab out = pair_copied fs0 simg slab out"
    using targets_after_mkdir(5) [OF assms] by blast
  with process_labels_count [OF r, of simg] show ?thesis
    by (simp add: after_loop_def make_output_dirs_facts(6) [OF assms])
qed

lemma after_loop_image:
  assumes "make_output_dirs fs0 out = Inr fs2"
    and "n \<in> set (label_files fs0 slab)" "is_file fs0 (simg @ [image_filename n])"
    and "image_copy_ok fs0 simg out n"
  shows "node_at (fsys (after_loop fs2 simg slab out)) (image_target fs0 simg out n)
         = node_at fs0 (simg @ [image_filename n])"
proof -
  from assms(3) obtain c where c: "node_at fs0 (simg @ [image_filename n]) = Some (File c)"
    by (auto simp: is_file_iff)
  then have c2: "node_at fs2 (simg @ [image_filename n]) = Some (File c)"
    using make_output_dirs_facts(4) [OF assms(1)] by simp
  have "node_at (fsys (after_loop fs2 simg slab out)) (image_target fs2 simg out n)
         = node_at fs2 (simg @ [image_filename n])"
    unfolding after_loop_def
    using loop_puts_image [where slab=slab and out=out and simg=simg and n=n and names="label_files fs2 slab"
        and s="\<lparr>fsys = fs2, copied_count = 0, log = [Info_created out, Info_starting], copies = []\<rparr>"]
      after_loop_ready [OF assms(1), of slab] assms(2-4)
    by (simp add: make_output_dirs_facts(3,6) [OF assms(1)] targets_after_mkdir(3) [OF assms(1)])
  then show ?thesis by (simp add: c c2 targets_after_mkdir(1) [OF assms(1)])
qed

lemma after_loop_label:
  assumes "make_output_dirs fs0 out = Inr fs2"
    and "n \<in> set (label_files fs0 slab)" "pair_copied fs0 simg slab out n"
  shows "node_at (fsys (after_loop fs2 simg slab out)) (label_target fs0 slab out n)
         = node_at fs0 (slab @ [n])"
proof -
  from assms(2) have "is_file fs0 (slab @ [n])" by (simp add: label_files_txt)
  then obtain c where c: "node_at fs0 (slab @ [n]) = Some (File c)"
    by (auto simp: is_file_iff)
  then have c2: "node_at fs2 (slab @ [n]) = Some (File c)"
    using make_output_dirs_facts(4) [OF assms(1)] by simp
  have "node_at (fsys (after_loop fs2 simg slab out)) (label_target fs2 slab out n)
         = node_at fs2 (slab @ [n])"
    unfolding after_loop_def
    using loop_puts_label [where slab=slab and out=out and simg=simg and n=n and names="label_files fs2 slab"
        and s="\<lparr>fsys = fs2, copied_count = 0, log = [Info_created out, Info_starting], copies = []\<rparr>"]
      after_loop_ready [OF assms(1), of slab] assms(2,3)
    by (simp add: make_output_dirs_facts(6) [OF assms(1)] targets_after_mkdir(5) [OF assms(1)])
  then show ?thesis by (simp add: c c2 targets_after_mkdir(2) [OF assms(1)])
qed

subsection \<open>Matched pairs\<close>

text \<open>
  C1, as stated, fails: in \<open>fs_b\<close> the label \<open>ab12-frame_1.txt\<close> has its image
  \<open>frame_1.jpg\<close> in the source images directory, the function returns, and the label
  is not in the output: the copy of the image onto itself raised \<open>SameFileError\<close>, which
  the handler logged, and the copy of the label was not reached.
\<close>

theorem matched_pair_not_copied_counterexample:
  "is_dir fs_b [''data'', ''images''] \<and> is_dir fs_b [''data'', ''raw_labels'']
   \<and> is_file fs_b [''meta'', ''classes.txt'']
   \<and> ''ab12-frame_1.txt'' \<in> set (label_files fs_b [''data'', ''raw_labels''])
   \<and> is_file fs_b ([''data'', ''images''] @ [image_filename ''ab12-frame_1.txt''])
   \<and> fst (filter_annotated_data fs_b [''data'', ''images''] [''data'', ''raw_labels''] [''data'']
            [''meta'', ''classes.txt'']) = Returned
   \<and> log (snd (filter_annotated_data fs_b [''data'', ''images''] [''data'', ''raw_labels''] [''data'']
            [''meta'', ''classes.txt'']))
       = [Info_created [''data''], Info_starting,
          Error_processing ''ab12-frame_1.txt'' SameFileError,
          Info_complete 0, Info_available [''data'']]
   \<and> iterdir (fsys (snd (filter_annotated_data fs_b [''data'', ''images''] [''data'', ''raw_labels'']
            [''data''] [''meta'', ''classes.txt'']))) [''data'', ''labels''] = []
   \<and> \<not> exists_path (fsys (snd (filter_annotated_data fs_b [''data'', ''images''] [''data'', ''raw_labels'']
            [''data''] [''meta'', ''classes.txt''])))
          [''data'', ''labels'', ''ab12-frame_1.txt'']"
  by code_simp

text \<open>
  C1, amended. When the source paths pass the validation and the output directories
  are created, every label file of the source labels directory whose image is in the
  source images directory and for which no error is logged has, when the function
  ends, its image under \<open>images\<close> and itself under \<open>labels\<close> in the output
  directory, each a regular file with the bytes its source had when the function was
  called.
\<close>

theorem matched_pair_copied_unless_raised:
  assumes "is_dir fs0 simg" and "is_dir fs0 slab" and "is_file fs0 cls"
    and "make_output_dirs fs0 out = Inr fs2"
    and "name \<in> set (label_files fs0 slab)"
    and "is_file fs0 (simg @ [image_filename name])"
    and "\<forall>e. Error_processing name e \<notin> set (log (snd (filter_annotated_data fs0 simg slab out cls)))"
  shows "node_at (fsys (snd (filter_annotated_data fs0 simg slab out cls))) (image_target fs0 simg out name)
           = node_at fs0 (simg @ [image_filename name])
       \<and> node_at (fsys (snd (filter_annotated_data fs0 simg slab out cls))) (label_target fs0 slab out name)
           = node_at fs0 (slab @ [name])
       \<and> is_file (fsys (snd (filter_annotated_data fs0 simg slab out cls))) (image_target fs0 simg out name)
       \<and> is_file (fsys (snd (filter_annotated_data fs0 simg slab out cls))) (label_target fs0 slab out name)
       \<and> prefix (out @ [''images'']) (image_target fs0 simg out name)
       \<and> prefix (out @ [''labels'']) (label_target fs0 slab out name)"
proof -
  let ?r = "filter_annotated_data fs0 simg slab out cls"
  let ?s1 = "after_loop fs2 simg slab out"
  note v = assms(1-4)
  from assms(5) have t: "is_txt name" and lf: "is_file fs0 (slab @ [name])"
    by (simp_all add: label_files_txt)
  have "\<forall>e. Error_processing name e \<notin> set (log ?s1)"
    using assms(7) by (simp add: run_log [OF v])
  with after_loop_errors [OF assms(4), of name simg slab] assms(5,6)
  have pc: "pair_copied fs0 simg slab out name" by blast
  then have io: "image_copy_ok fs0 simg out name" by (simp add: pair_copied_def)
  have i: "node_at (fsys (snd ?r)) (image_target fs0 simg out name) = node_at fs0 (simg @ [image_filename name])"
    using run_node_at [OF v class_target_neq_image_target [symmetric]]
      after_loop_image [OF assms(4,5,6) io] by simp
  have l: "node_at (fsys (snd ?r)) (label_target fs0 slab out name) = node_at fs0 (slab @ [name])"
    using run_node_at [OF v class_target_neq_label_target [OF t, symmetric]]
      after_loop_label [OF assms(4,5) pc] by simp
  have "is_file (fsys (snd ?r)) (image_target fs0 simg out name)"
    using assms(6) i by (simp add: is_file_def)
  moreover have "is_file (fsys (snd ?r)) (label_target fs0 slab out name)"
    using lf l by (simp add: is_file_def)
  moreover have "prefix (out @ [''images'']) (image_target fs0 simg out name)"
    using image_target_cases [of fs0 simg out name] by (auto simp: prefix_def)
  moreover have "prefix (out @ [''labels'']) (label_target fs0 slab out name)"
    using label_target_cases [of fs0 slab out name] by (auto simp: prefix_def)
  ultimately show ?thesis using i l by simp
qed

theorem matched_pair_copied_unless_raised_witness:
  "is_dir fs_a [''src'', ''images''] \<and> is_dir fs_a [''src'', ''labels'']
   \<and> is_file fs_a [''src'', ''classes.txt'']
   \<and> make_output_dirs fs_a [''out''] = Inr fs_a
   \<and> ''0a5581f7-frame_00100.txt'' \<in> set (label_files fs_a [''src'', ''labels''])
   \<and> is_file fs_a ([''src'', ''images''] @ [image_filename ''0a5581f7-frame_00100.txt''])
   \<and> (\<forall>e. Error_processing ''0a5581f7-frame_00100.txt'' e \<notin> set (log (snd
         (filter_annotated_data fs_a [''src'', ''images''] [''src'', ''labels''] [''out'']
            [''src'', ''classes.txt'']))))
   \<and> node_at (fsys (snd (filter_annotated_data fs_a [''src'', ''images''] [''src'', ''labels''] [''out'']
            [''src'', ''classes.txt''])))
        [''out'', ''images'', ''frame_00100.jpg''] = Some (File ''JPEG-100'')
   \<and> node_at (fsys (snd (filter_annotated_data fs_a [''src'', ''images''] [''src'', ''labels''] [''out'']
            [''src'', ''classes.txt''])))
        [''out'', ''labels'', ''0a5581f7-frame_00100.txt''] = Some (File ''0 0.5 0.5 0.1 0.1'')"
proof -
  let ?r = "filter_annotated_data fs_a [''src'', ''images''] [''src'', ''labels''] [''out'']
            [''src'', ''classes.txt'']"
  have h1: "is_dir fs_a [''src'', ''images'']" by code_simp
  have h2: "is_dir fs_a [''src'', ''labels'']" by code_simp
  have h3: "is_file fs_a [''src'', ''classes.txt'']" by code_simp
  have h4: "make_output_dirs fs_a [''out''] = Inr fs_a" by code_simp
  have h5: "''0a5581f7-frame_00100.txt'' \<in> set (label_files fs_a [''src'', ''labels''])" by code_simp
  have h6: "is_file fs_a ([''src'', ''images''] @ [image_filename ''0a5581f7-frame_00100.txt''])"
    by code_simp
  have lg: "log (snd ?r) = [Info_created [''out''], Info_starting,
      Warning_skipping ''1b66c2d0-frame_00200.txt'' ''frame_00200.jpg'',
      Info_complete 1, Info_available [''out'']]" by code_simp
  have h7: "\<forall>e. Error_processing ''0a5581f7-frame_00100.txt'' e \<notin> set (log (snd ?r))"
    by (simp add: lg)
  have t1: "image_target fs_a [''src'', ''images''] [''out''] ''0a5581f7-frame_00100.txt''
            = [''out'', ''images'', ''frame_00100.jpg'']" by code_simp
  have t2: "label_target fs_a [''src'', ''labels''] [''out''] ''0a5581f7-frame_00100.txt''
            = [''out'', ''labels'', ''0a5581f7-frame_00100.txt'']" by code_simp
  have c1: "node_at fs_a ([''src'', ''images''] @ [image_filename ''0a5581f7-frame_00100.txt''])
            = Some (File ''JPEG-100'')" by code_simp
  have c2: "node_at fs_a ([''src'', ''labels''] @ [''0a5581f7-frame_00100.txt''])
            = Some (File ''0 0.5 0.5 0.1 0.1'')" by code_simp
  from matched_pair_copied_unless_raised [OF h1 h2 h3 h4 h5 h6 h7]
  have "node_at (fsys (snd ?r)) [''out'', ''images'', ''frame_00100.jpg''] = Some (File ''JPEG-100'')"
    and "node_at (fsys (snd ?r)) [''out'', ''labels'', ''0a5581f7-frame_00100.txt'']
         = Some (File ''0 0.5 0.5 0.1 0.1'')"
    unfolding t1 t2 c1 c2 by blast+
  with h1 h2 h3 h4 h5 h6 h7 show ?thesis by blast
qed

subsection \<open>Labels without image\<close>

lemma process_labels_append:
  "process_labels simg slab out s (xs @ ys)
   = process_labels simg slab out (process_labels simg slab out s xs) ys"
  by (induction xs arbitrary: s) auto

lemma process_label_copies_mem:
  "x \<in> set (copies (process_label simg slab out s m)) \<Longrightarrow>
   x \<in> set (copies s)
   \<or> (is_file (fsys s) (simg @ [image_filename m])
       \<and> (x = (simg @ [image_filename m], out @ [''images'', image_filename m])
           \<or> x = (slab @ [m], out @ [''labels'', m])))"
  by (auto simp: process_label_def Let_def split: if_splits sum.splits)

lemma process_labels_copies_mem:
  "\<forall>m \<in> set names. is_txt m \<Longrightarrow>
   x \<in> set (copies (process_labels simg slab out s names)) \<Longrightarrow>
   x \<in> set (copies s)
   \<or> (\<exists>m \<in> set names. is_file (fsys s) (simg @ [image_filename m])
       \<and> (x = (simg @ [image_filename m], out @ [''images'', image_filename m])
           \<or> x = (slab @ [m], out @ [''labels'', m])))"
proof (induction names arbitrary: s)
  case Nil
  then show ?case by simp
next
  case (Cons n names)
  let ?s1 = "process_label simg slab out s n"
  from Cons.prems have t: "is_txt n" and ts: "\<forall>m \<in> set names. is_txt m" by simp_all
  note st = stable_step [OF t, of simg slab s out]
  from Cons.IH [OF ts, of ?s1] Cons.prems(2)
  have "x \<in> set (copies ?s1)
     \<or> (\<exists>m \<in> set names. is_file (fsys s) (simg @ [image_filename m])
       \<and> (x = (simg @ [image_filename m], out @ [''images'', image_filename m])
           \<or> x = (slab @ [m], out @ [''labels'', m])))"
    by (simp add: stable_is_file_image [OF st])
  then show ?case
    using process_label_copies_mem [of x simg slab out s n] by auto
qed



subsection \<open>Validation of the source paths\<close>

lemma run_is_dir:
  assumes "is_dir fs0 simg" "is_dir fs0 slab" "is_file fs0 cls" "make_output_dirs fs0 out = Inr fs2"
  shows "is_dir (fsys (snd (filter_annotated_data fs0 simg slab out cls))) q = is_dir fs2 q"
proof -
  let ?s1 = "after_loop fs2 simg slab out"
  have "stable simg slab fs2 (fsys ?s1)"
    unfolding after_loop_def
    using stable_loop [of "label_files fs2 slab" simg slab
        "\<lparr>fsys = fs2, copied_count = 0, log = [Info_created out, Info_starting], copies = []\<rparr>" out]
    by (simp add: label_files_txt)
  then have 1: "is_dir (fsys ?s1) q = is_dir fs2 q" by (rule stable_is_dir)
  show ?thesis
  proof (cases "copy2 (fsys ?s1) cls (out @ [last cls])")
    case (Inl e)
    then show ?thesis by (simp add: run_fsys [OF assms] 1)
  next
    case (Inr fs3)
    from copy2_Inr_D [OF Inr] obtain c where
      "fs3 = AList.update (copy_target (fsys ?s1) cls (out @ [last cls])) (File c) (fsys ?s1)"
      "\<not> is_dir (fsys ?s1) (copy_target (fsys ?s1) cls (out @ [last cls]))" by blast
    then show ?thesis using Inr by (simp add: run_fsys [OF assms] 1 is_dir_write)
  qed
qed

lemma run_pair_present:
  assumes "is_dir fs0 simg" "is_dir fs0 slab" "is_file fs0 cls" "make_output_dirs fs0 out = Inr fs2"
    and "name \<in> set (label_files fs0 slab)" and "pair_copied fs0 simg slab out name"
  shows "node_at (fsys (snd (filter_annotated_data fs0 simg slab out cls))) (image_target fs0 simg out name)
           = node_at fs0 (simg @ [image_filename name])"
    and "node_at (fsys (snd (filter_annotated_data fs0 simg slab out cls))) (label_target fs0 slab out name)
           = node_at fs0 (slab @ [name])"
    and "is_file (fsys (snd (filter_annotated_data fs0 simg slab out cls))) (image_target fs0 simg out name)"
    and "is_file (fsys (snd (filter_annotated_data fs0 simg slab out cls))) (label_target fs0 slab out name)"
proof -
  let ?r = "filter_annotated_data fs0 simg slab out cls"
  note v = assms(1-4)
  from assms(5) have t: "is_txt name" and lf: "is_file fs0 (slab @ [name])"
    by (simp_all add: label_files_txt)
  from assms(6) have io: "image_copy_ok fs0 simg out name"
    and f: "is_file fs0 (simg @ [image_filename name])" by (simp_all add: pair_copied_def)
  show i: "node_at (fsys (snd ?r)) (image_target fs0 simg out name) = node_at fs0 (simg @ [image_filename name])"
    using run_node_at [OF v class_target_neq_image_target [symmetric]]
      after_loop_image [OF assms(4,5) f io] by simp
  show l: "node_at (fsys (snd ?r)) (label_target fs0 slab out name) = node_at fs0 (slab @ [name])"
    using run_node_at [OF v class_target_neq_label_target [OF t, symmetric]]
      after_loop_label [OF assms(4,5,6)] by simp
  show "is_file (fsys (snd ?r)) (image_target fs0 simg out name)"
    using f i by (simp add: is_file_def)
  show "is_file (fsys (snd ?r)) (label_target fs0 slab out name)"
    using lf l by (simp add: is_file_def)
qed

lemma run_label_outcome:
  assumes "is_dir fs0 simg" "is_dir fs0 slab" "is_file fs0 cls" "make_output_dirs fs0 out = Inr fs2"
    and "name \<in> set (label_files fs0 slab)"
  shows "Warning_skipping name (image_filename name)
           \<in> set (log (snd (filter_annotated_data fs0 simg slab out cls)))
       \<or> (\<exists>e. Error_processing name e \<in> set (log (snd (filter_annotated_data fs0 simg slab out cls))))
       \<or> (is_file (fsys (snd (filter_annotated_data fs0 simg slab out cls))) (image_target fs0 simg out name)
          \<and> is_file (fsys (snd (filter_annotated_data fs0 simg slab out cls))) (label_target fs0 slab out name))"
proof -
  note v = assms(1-4)
  consider (none) "\<not> is_file fs0 (simg @ [image_filename name])"
    | (fails) "is_file fs0 (simg @ [image_filename name])" "\<not> pair_copied fs0 simg slab out name"
    | (copied) "pair_copied fs0 simg slab out name" by blast
  then show ?thesis
  proof cases
    case none
    then have "Warning_skipping name (image_filename name) \<in> set (log (after_loop fs2 simg slab out))"
      using after_loop_warnings [OF assms(4)] assms(5) by simp
    then show ?thesis by (simp add: run_log [OF v])
  next
    case fails
    then have "\<exists>e. Error_processing name e \<in> set (log (after_loop fs2 simg slab out))"
      using after_loop_errors [OF assms(4)] assms(5) by simp
    then show ?thesis by (auto simp: run_log [OF v])
  next
    case copied
    from run_pair_present(3,4) [OF v assms(5) copied] show ?thesis by simp
  qed
qed

text \<open>
  C4, as stated, fails twice. In \<open>fs_d\<close> the three source paths exist, as the
  error record of the function itself says, and the function exits with status 1: the
  images path is a regular file, and the test is \<open>is_dir\<close>. In \<open>fs_e\<close> the three source
  paths are what they should be and the function neither creates the output \<open>labels\<close>
  directory nor processes a label: \<open>images\<close> in the output directory is a regular
  file and \<open>mkdir\<close> raises \<open>FileExistsError\<close>.
\<close>

theorem exit_iff_source_missing_counterexample:
  "exists_path fs_d [''exp'', ''images''] \<and> exists_path fs_d [''exp'', ''labels'']
   \<and> exists_path fs_d [''exp'', ''classes.txt'']
   \<and> filter_annotated_data fs_d [''exp'', ''images''] [''exp'', ''labels''] [''res'']
         [''exp'', ''classes.txt'']
       = (Exited 1, \<lparr>fsys = fs_d, copied_count = 0,
                      log = [Error_sources_not_found True True True], copies = []\<rparr>)
   \<and> is_dir fs_e [''exp'', ''images''] \<and> is_dir fs_e [''exp'', ''labels'']
   \<and> is_file fs_e [''exp'', ''classes.txt'']
   \<and> label_files fs_e [''exp'', ''labels''] = [''a-f1.txt'']
   \<and> filter_annotated_data fs_e [''exp'', ''images''] [''exp'', ''labels''] [''res'']
         [''exp'', ''classes.txt'']
       = (Raised FileExistsError, \<lparr>fsys = fs_e, copied_count = 0, log = [], copies = []\<rparr>)
   \<and> \<not> exists_path fs_e [''res'', ''labels'']"
  by code_simp

text \<open>
  C4, amended. The function exits with status 1, the file system as it was and no
  copy attempted, exactly when the images path is not a directory, the labels path is
  not a directory or the class file is not a regular file. Otherwise it creates the
  output directories: when that raises, the exception leaves the function and no label
  is processed; when it returns, \<open>images\<close> and \<open>labels\<close> are directories of the
  output when the function ends, and every label file has been processed: it has its
  warning or its error in the log, or its pair is in the output.
\<close>

theorem exit_iff_source_not_as_expected:
  "(fst (filter_annotated_data fs0 simg slab out cls) = Exited 1
      \<longleftrightarrow> \<not> (is_dir fs0 simg \<and> is_dir fs0 slab \<and> is_file fs0 cls))
   \<and> (fst (filter_annotated_data fs0 simg slab out cls) = Exited 1 \<longrightarrow>
        fsys (snd (filter_annotated_data fs0 simg slab out cls)) = fs0
        \<and> copies (snd (filter_annotated_data fs0 simg slab out cls)) = [])
   \<and> (is_dir fs0 simg \<and> is_dir fs0 slab \<and> is_file fs0 cls \<longrightarrow>
        (case make_output_dirs fs0 out of
           Inl e \<Rightarrow>
             fst (filter_annotated_data fs0 simg slab out cls) = Raised e
             \<and> log (snd (filter_annotated_data fs0 simg slab out cls)) = []
             \<and> copies (snd (filter_annotated_data fs0 simg slab out cls)) = []
         | Inr fs2 \<Rightarrow>
             is_dir (fsys (snd (filter_annotated_data fs0 simg slab out cls))) (out @ [''images''])
             \<and> is_dir (fsys (snd (filter_annotated_data fs0 simg slab out cls))) (out @ [''labels''])
             \<and> (\<forall>name \<in> set (label_files fs0 slab).
                   Warning_skipping name (image_filename name)
                     \<in> set (log (snd (filter_annotated_data fs0 simg slab out cls)))
                   \<or> (\<exists>e. Error_processing name e
                          \<in> set (log (snd (filter_annotated_data fs0 simg slab out cls))))
                   \<or> (is_file (fsys (snd (filter_annotated_data fs0 simg slab out cls)))
                          (image_target fs0 simg out name)
                      \<and> is_file (fsys (snd (filter_annotated_data fs0 simg slab out cls)))
                          (label_target fs0 slab out name)))))"
proof (cases "is_dir fs0 simg \<and> is_dir fs0 slab \<and> is_file fs0 cls")
  case False
  then have "filter_annotated_data fs0 simg slab out cls =
     (Exited 1, \<lparr>fsys = fs0, copied_count = 0,
        log = [Error_sources_not_found (exists_path fs0 simg) (exists_path fs0 slab) (exists_path fs0 cls)],
        copies = []\<rparr>)" by (rule filter_annotated_data_exit)
  with False show ?thesis by auto
next
  case True
  then have v: "is_dir fs0 simg" "is_dir fs0 slab" "is_file fs0 cls" by simp_all
  show ?thesis
  proof (cases "make_output_dirs fs0 out")
    case (Inl e)
    from filter_annotated_data_mkdir_raises [OF v Inl] True Inl show ?thesis by simp
  next
    case (Inr fs2)
    have ne: "fst (filter_annotated_data fs0 simg slab out cls) \<noteq> Exited 1"
      by (simp add: run_outcome [OF v Inr] split: sum.splits)
    have d: "is_dir (fsys (snd (filter_annotated_data fs0 simg slab out cls))) (out @ [''images''])"
      "is_dir (fsys (snd (filter_annotated_data fs0 simg slab out cls))) (out @ [''labels''])"
      using make_output_dirs_facts(1,2) [OF Inr] by (simp_all add: run_is_dir [OF v Inr])
    show ?thesis
      using True ne d run_label_outcome [OF v Inr] by (simp add: Inr)
  qed
qed

theorem exit_iff_source_not_as_expected_witness:
  "\<not> (is_dir fs_d [''exp'', ''images''] \<and> is_dir fs_d [''exp'', ''labels'']
       \<and> is_file fs_d [''exp'', ''classes.txt''])
   \<and> fst (filter_annotated_data fs_d [''exp'', ''images''] [''exp'', ''labels''] [''res'']
            [''exp'', ''classes.txt'']) = Exited 1
   \<and> fsys (snd (filter_annotated_data fs_d [''exp'', ''images''] [''exp'', ''labels''] [''res'']
            [''exp'', ''classes.txt''])) = fs_d
   \<and> is_dir fs_e [''exp'', ''images''] \<and> is_dir fs_e [''exp'', ''labels'']
   \<and> is_file fs_e [''exp'', ''classes.txt'']
   \<and> make_output_dirs fs_e [''res''] = Inl FileExistsError
   \<and> fst (filter_annotated_data fs_e [''exp'', ''images''] [''exp'', ''labels''] [''res'']
            [''exp'', ''classes.txt'']) = Raised FileExistsError
   \<and> is_dir fs_c [''exp'', ''images''] \<and> is_dir fs_c [''exp'', ''labels'']
   \<and> is_file fs_c [''exp'', ''classes.txt'']
   \<and> make_output_dirs fs_c [''exp'', ''filtered_data''] = Inr fs_c_dirs
   \<and> fst (filter_annotated_data fs_c [''exp'', ''images''] [''exp'', ''labels'']
            [''exp'', ''filtered_data''] [''exp'', ''classes.txt'']) \<noteq> Exited 1
   \<and> is_dir (fsys (snd (filter_annotated_data fs_c [''exp'', ''images''] [''exp'', ''labels'']
            [''exp'', ''filtered_data''] [''exp'', ''classes.txt''])))
         ([''exp'', ''filtered_data''] @ [''images''])
   \<and> is_dir (fsys (snd (filter_annotated_data fs_c [''exp'', ''images''] [''exp'', ''labels'']
            [''exp'', ''filtered_data''] [''exp'', ''classes.txt''])))
         ([''exp'', ''filtered_data''] @ [''labels''])
   \<and> ''c-f3.txt'' \<in> set (label_files fs_c [''exp'', ''labels''])
   \<and> is_file (fsys (snd (filter_annotated_data fs_c [''exp'', ''images''] [''exp'', ''labels'']
            [''exp'', ''filtered_data''] [''exp'', ''classes.txt''])))
         [''exp'', ''filtered_data'', ''images'', ''f3.jpg'']
   \<and> is_file (fsys (snd (filter_annotated_data fs_c [''exp'', ''images''] [''exp'', ''labels'']
            [''exp'', ''filtered_data''] [''exp'', ''classes.txt''])))
         [''exp'', ''filtered_data'', ''labels'', ''c-f3.txt'']"
proof -
  have d: "\<not> (is_dir fs_d [''exp'', ''images''] \<and> is_dir fs_d [''exp'', ''labels'']
       \<and> is_file fs_d [''exp'', ''classes.txt''])" by code_simp
  have e: "is_dir fs_e [''exp'', ''images'']" "is_dir fs_e [''exp'', ''labels'']"
    "is_file fs_e [''exp'', ''classes.txt'']" by code_simp+
  have em: "make_output_dirs fs_e [''res''] = Inl FileExistsError" by code_simp
  have c: "is_dir fs_c [''exp'', ''images'']" "is_dir fs_c [''exp'', ''labels'']"
    "is_file fs_c [''exp'', ''classes.txt'']" by code_simp+
  have cm: "make_output_dirs fs_c [''exp'', ''filtered_data''] = Inr fs_c_dirs" by code_simp
  have cl: "''c-f3.txt'' \<in> set (label_files fs_c [''exp'', ''labels''])" by code_simp
  note a = exit_iff_source_not_as_expected [of fs_d "[''exp'', ''images'']" "[''exp'', ''labels'']"
      "[''res'']" "[''exp'', ''classes.txt'']"]
  note b = exit_iff_source_not_as_expected [of fs_e "[''exp'', ''images'']" "[''exp'', ''labels'']"
      "[''res'']" "[''exp'', ''classes.txt'']"]
  note g = exit_iff_source_not_as_expected [of fs_c "[''exp'', ''images'']" "[''exp'', ''labels'']"
      "[''exp'', ''filtered_data'']" "[''exp'', ''classes.txt'']"]
  have 1: "fst (filter_annotated_data fs_d [''exp'', ''images''] [''exp'', ''labels''] [''res'']
            [''exp'', ''classes.txt'']) = Exited 1
   \<and> fsys (snd (filter_annotated_data fs_d [''exp'', ''images''] [''exp'', ''labels''] [''res'']
            [''exp'', ''classes.txt''])) = fs_d"
    using a d by blast
  have 2: "fst (filter_annotated_data fs_e [''exp'', ''images''] [''exp'', ''labels''] [''res'']
            [''exp'', ''classes.txt'']) = Raised FileExistsError"
    using b e by (simp add: em)
  have 3: "fst (filter_annotated_data fs_c [''exp'', ''images''] [''exp'', ''labels'']
            [''exp'', ''filtered_data''] [''exp'', ''classes.txt'']) \<noteq> Exited 1
   \<and> is_dir (fsys (snd (filter_annotated_data fs_c [''exp'', ''images''] [''exp'', ''labels'']
            [''exp'', ''filtered_data''] [''exp'', ''classes.txt''])))
         ([''exp'', ''filtered_data''] @ [''images''])
   \<and> is_dir (fsys (snd (filter_annotated_data fs_c [''exp'', ''images''] [''exp'', ''labels'']
            [''exp'', ''filtered_data''] [''exp'', ''classes.txt''])))
         ([''exp'', ''filtered_data''] @ [''labels''])"
    using g c by (simp add: cm)
  have lg: "log (snd (filter_annotated_data fs_c [''exp'', ''images''] [''exp'', ''labels'']
                 [''exp'', ''filtered_data''] [''exp'', ''classes.txt'']))
       = [Info_created [''exp'', ''filtered_data''], Info_starting,
          Warning_skipping ''b-f2.txt'' ''f2.jpg'', Info_complete 2,
          Info_available [''exp'', ''filtered_data'']]" by code_simp
  have t1: "image_target fs_c [''exp'', ''images''] [''exp'', ''filtered_data''] ''c-f3.txt''
            = [''exp'', ''filtered_data'', ''images'', ''f3.jpg'']" by code_simp
  have t2: "label_target fs_c [''exp'', ''labels''] [''exp'', ''filtered_data''] ''c-f3.txt''
            = [''exp'', ''filtered_data'', ''labels'', ''c-f3.txt'']" by code_simp
  have "Warning_skipping ''c-f3.txt'' (image_filename ''c-f3.txt'')
          \<in> set (log (snd (filter_annotated_data fs_c [''exp'', ''images''] [''exp'', ''labels'']
                 [''exp'', ''filtered_data''] [''exp'', ''classes.txt''])))
       \<or> (\<exists>e. Error_processing ''c-f3.txt'' e
          \<in> set (log (snd (filter_annotated_data fs_c [''exp'', ''images''] [''exp'', ''labels'']
                 [''exp'', ''filtered_data''] [''exp'', ''classes.txt'']))))
       \<or> (is_file (fsys (snd (filter_annotated_data fs_c [''exp'', ''images''] [''exp'', ''labels'']
            [''exp'', ''filtered_data''] [''exp'', ''classes.txt''])))
           (image_target fs_c [''exp'', ''images''] [''exp'', ''filtered_data''] ''c-f3.txt'')
         \<and> is_file (fsys (snd (filter_annotated_data fs_c [''exp'', ''images''] [''exp'', ''labels'']
            [''exp'', ''filtered_data''] [''exp'', ''classes.txt''])))
           (label_target fs_c [''exp'', ''labels''] [''exp'', ''filtered_data''] ''c-f3.txt''))"
    using g c cl by (simp add: cm)
  then have 4: "is_file (fsys (snd (filter_annotated_data fs_c [''exp'', ''images''] [''exp'', ''labels'']
            [''exp'', ''filtered_data''] [''exp'', ''classes.txt''])))
         [''exp'', ''filtered_data'', ''images'', ''f3.jpg'']
   \<and> is_file (fsys (snd (filter_annotated_data fs_c [''exp'', ''images''] [''exp'', ''labels'']
            [''exp'', ''filtered_data''] [''exp'', ''classes.txt''])))
         [''exp'', ''filtered_data'', ''labels'', ''c-f3.txt'']"
    unfolding lg t1 t2 by simp
  show ?thesis using d e em c cm cl 1 2 3 4 by blast
qed

subsection \<open>The class file\<close>

lemma process_labels_keeps_files:
  "\<forall>m \<in> set names. is_txt m \<Longrightarrow> is_file (fsys s) q \<Longrightarrow>
   is_file (fsys (process_labels simg slab out s names)) q"
proof (induction names arbitrary: s)
  case Nil
  then show ?case by simp
next
  case (Cons n names)
  from Cons.prems have t: "is_txt n" and ts: "\<forall>m \<in> set names. is_txt m" by simp_all
  have "is_file (fsys (process_label simg slab out s n)) q"
    using process_label_node_at [OF t, of simg slab out s q] Cons.prems(2)
    by (auto simp: is_file_iff)
  from Cons.IH [OF ts this] show ?case by simp
qed

lemma after_loop_stable:
  "stable simg slab fs2 (fsys (after_loop fs2 simg slab out))"
  unfolding after_loop_def
  using stable_loop [of "label_files fs2 slab" simg slab
      "\<lparr>fsys = fs2, copied_count = 0, log = [Info_created out, Info_starting], copies = []\<rparr>" out]
  by (simp add: label_files_txt)

lemma after_loop_keeps_files:
  "is_file fs2 q \<Longrightarrow> is_file (fsys (after_loop fs2 simg slab out)) q"
  unfolding after_loop_def
  using process_labels_keeps_files [of "label_files fs2 slab"
      "\<lparr>fsys = fs2, copied_count = 0, log = [Info_created out, Info_starting], copies = []\<rparr>" q simg slab out]
  by (simp add: label_files_txt)


lemma class_copy_returns:
  assumes "make_output_dirs fs0 out = Inr fs2" and "is_file fs0 cls"
    and "class_target fs2 out cls \<noteq> cls" and "\<not> is_dir fs2 (class_target fs2 out cls)"
    and "is_dir fs2 out"
  shows "\<exists>fs3. copy2 (fsys (after_loop fs2 simg slab out)) cls (out @ [last cls]) = Inr fs3"
proof -
  let ?fs = "fsys (after_loop fs2 simg slab out)"
  note st = after_loop_stable [of simg slab fs2 out]
  have "is_file ?fs cls"
    using assms(2) make_output_dirs_facts(3) [OF assms(1)] by (simp add: after_loop_keeps_files)
  then obtain c where c: "node_at ?fs cls = Some (File c)" by (auto simp: is_file_iff)
  have ct: "copy_target ?fs cls (out @ [last cls]) = class_target fs2 out cls"
    by (simp add: class_target_def stable_copy_target [OF st])
  have "is_dir ?fs (butlast (copy_target ?fs cls (out @ [last cls])))"
    using class_target_parent [of fs2 out cls] assms(5) by (simp add: ct stable_is_dir [OF st])
  from copy2_Inr_I [OF c _ _ this] assms(3,4) show ?thesis
    by (simp add: ct stable_is_dir [OF st])
qed

lemma run_class_file:
  assumes "is_dir fs0 simg" "is_dir fs0 slab" "is_file fs0 cls" "make_output_dirs fs0 out = Inr fs2"
    and "fst (filter_annotated_data fs0 simg slab out cls) = Returned"
  shows "node_at (fsys (snd (filter_annotated_data fs0 simg slab out cls))) (class_target fs2 out cls)
         = node_at (fsys (snd (filter_annotated_data fs0 simg slab out cls))) cls"
    and "is_file (fsys (snd (filter_annotated_data fs0 simg slab out cls))) (class_target fs2 out cls)"
proof -
  let ?fs = "fsys (after_loop fs2 simg slab out)"
  let ?r = "filter_annotated_data fs0 simg slab out cls"
  note v = assms(1-4)
  note st = after_loop_stable [of simg slab fs2 out]
  have ct: "copy_target ?fs cls (out @ [last cls]) = class_target fs2 out cls"
    by (simp add: class_target_def stable_copy_target [OF st])
  from assms(5) obtain fs3 where c: "copy2 ?fs cls (out @ [last cls]) = Inr fs3"
    by (auto simp: run_outcome [OF v] split: sum.splits)
  from copy2_Inr_D [OF c] obtain b where b: "node_at ?fs cls = Some (File b)"
    "fs3 = AList.update (class_target fs2 out cls) (File b) ?fs"
    "class_target fs2 out cls \<noteq> cls" "\<not> is_dir ?fs (class_target fs2 out cls)"
    unfolding ct by blast
  have f: "fsys (snd ?r) = fs3" by (simp add: run_fsys [OF v] c)
  show "node_at (fsys (snd ?r)) (class_target fs2 out cls) = node_at (fsys (snd ?r)) cls"
    using b by (simp add: f node_at_write)
  then show "is_file (fsys (snd ?r)) (class_target fs2 out cls)"
    using b by (simp add: f node_at_write is_file_def)
qed




subsection \<open>Exceptions in the body of the loop\<close>

lemma process_labels_log_mono:
  "x \<in> set (log s) \<Longrightarrow> x \<in> set (log (process_labels simg slab out s names))"
  using process_labels_log_kind [of simg slab out s names] by auto

text \<open>
  C6. Let the source paths pass the validation and the output directories be created,
  and let the \<open>try\<close> block raise \<open>e\<close> for the label \<open>name\<close>, in the state the labels
  listed before it have left. Then the error is logged with the label's name and the
  counter is not incremented; the loop goes on with the labels listed after it, each
  of which ends with its warning or its error in the log or with its pair in the
  output; the copy of the class file is called, last of all, and nothing but that copy
  itself can stop it: the function returns or the copy of the class file raises, it
  returns whenever the place the class file is copied to is neither the class file
  itself nor a directory, and when it returns the file system holds there a regular
  file with the contents of the class file; and every label file for which no error
  is logged and whose image is in the source images directory has its pair in the
  output, with the bytes of the sources.
\<close>

theorem exception_in_loop_body_is_logged_and_loop_continues:
  assumes "is_dir fs0 simg" and "is_dir fs0 slab" and "is_file fs0 cls"
    and "make_output_dirs fs0 out = Inr fs2"
    and "label_files fs0 slab = before @ name # rest"
    and "raised simg slab out
           (process_labels simg slab out
              \<lparr>fsys = fs2, copied_count = 0, log = [Info_created out, Info_starting], copies = []\<rparr>
              before) name = Some e"
  shows "Error_processing name e \<in> set (log (snd (filter_annotated_data fs0 simg slab out cls)))
       \<and> copied_count (process_label simg slab out
            (process_labels simg slab out
              \<lparr>fsys = fs2, copied_count = 0, log = [Info_created out, Info_starting], copies = []\<rparr>
              before) name)
          = copied_count (process_labels simg slab out
              \<lparr>fsys = fs2, copied_count = 0, log = [Info_created out, Info_starting], copies = []\<rparr>
              before)
       \<and> after_loop fs2 simg slab out
          = process_labels simg slab out
              (process_label simg slab out
                 (process_labels simg slab out
                    \<lparr>fsys = fs2, copied_count = 0, log = [Info_created out, Info_starting], copies = []\<rparr>
                    before) name)
              rest
       \<and> (\<forall>m \<in> set rest.
             Warning_skipping m (image_filename m)
               \<in> set (log (snd (filter_annotated_data fs0 simg slab out cls)))
             \<or> (\<exists>e'. Error_processing m e' \<in> set (log (snd (filter_annotated_data fs0 simg slab out cls))))
             \<or> (is_file (fsys (snd (filter_annotated_data fs0 simg slab out cls))) (image_target fs0 simg out m)
                \<and> is_file (fsys (snd (filter_annotated_data fs0 simg slab out cls))) (label_target fs0 slab out m)))
       \<and> last (copies (snd (filter_annotated_data fs0 simg slab out cls))) = (cls, out @ [last cls])
       \<and> (fst (filter_annotated_data fs0 simg slab out cls) = Returned
            \<or> (\<exists>e'. fst (filter_annotated_data fs0 simg slab out cls) = Raised e'))
       \<and> (fst (filter_annotated_data fs0 simg slab out cls) = Returned \<longrightarrow>
            is_file (fsys (snd (filter_annotated_data fs0 simg slab out cls))) (class_target fs2 out cls)
            \<and> node_at (fsys (snd (filter_annotated_data fs0 simg slab out cls))) (class_target fs2 out cls)
                = node_at (fsys (snd (filter_annotated_data fs0 simg slab out cls))) cls)
       \<and> (class_target fs2 out cls \<noteq> cls \<and> \<not> is_dir fs2 (class_target fs2 out cls)
              \<and> is_dir fs2 out \<longrightarrow>
            fst (filter_annotated_data fs0 simg slab out cls) = Returned)
       \<and> (\<forall>m \<in> set (label_files fs0 slab).
             is_file fs0 (simg @ [image_filename m])
             \<and> (\<forall>e'. Error_processing m e' \<notin> set (log (snd (filter_annotated_data fs0 simg slab out cls))))
             \<longrightarrow> node_at (fsys (snd (filter_annotated_data fs0 simg slab out cls))) (image_target fs0 simg out m)
                   = node_at fs0 (simg @ [image_filename m])
                 \<and> node_at (fsys (snd (filter_annotated_data fs0 simg slab out cls))) (label_target fs0 slab out m)
                   = node_at fs0 (slab @ [m]))"
proof -
  let ?r = "filter_annotated_data fs0 simg slab out cls"
  let ?s0 = "\<lparr>fsys = fs2, copied_count = 0, log = [Info_created out, Info_starting], copies = []\<rparr>"
  let ?sb = "process_labels simg slab out ?s0 before"
  let ?sn = "process_label simg slab out ?sb name"
  note v = assms(1-4)
  have lf2: "label_files fs2 slab = label_files fs0 slab"
    by (rule make_output_dirs_facts(6) [OF assms(4)])
  note pr = process_label_raised [OF assms(6)]
  have go: "after_loop fs2 simg slab out = process_labels simg slab out ?sn rest"
    by (simp add: after_loop_def lf2 assms(5) process_labels_append)
  have "Error_processing name e \<in> set (log ?sn)" using pr by simp
  then have "Error_processing name e \<in> set (log (after_loop fs2 simg slab out))"
    unfolding go by (rule process_labels_log_mono)
  then have 1: "Error_processing name e \<in> set (log (snd ?r))"
    by (simp add: run_log [OF v])
  have 2: "copied_count ?sn = copied_count ?sb" using pr by simp
  have 4: "Warning_skipping m (image_filename m) \<in> set (log (snd ?r))
       \<or> (\<exists>e'. Error_processing m e' \<in> set (log (snd ?r)))
       \<or> (is_file (fsys (snd ?r)) (image_target fs0 simg out m)
          \<and> is_file (fsys (snd ?r)) (label_target fs0 slab out m))" if "m \<in> set rest" for m
    using that by (intro run_label_outcome [OF v]) (simp add: assms(5))
  have 5: "last (copies (snd ?r)) = (cls, out @ [last cls])"
    by (simp add: run_copies [OF v])
  have 6: "node_at (fsys (snd ?r)) (image_target fs0 simg out m) = node_at fs0 (simg @ [image_filename m])
         \<and> node_at (fsys (snd ?r)) (label_target fs0 slab out m) = node_at fs0 (slab @ [m])"
    if m: "m \<in> set (label_files fs0 slab)" "is_file fs0 (simg @ [image_filename m])"
      "\<forall>e'. Error_processing m e' \<notin> set (log (snd ?r))" for m
  proof -
    have "\<forall>e'. Error_processing m e' \<notin> set (log (after_loop fs2 simg slab out))"
      using m(3) by (simp add: run_log [OF v])
    with after_loop_errors [OF assms(4), of m simg slab] m(1,2)
    have "pair_copied fs0 simg slab out m" by blast
    from run_pair_present(1,2) [OF v m(1) this] show ?thesis by simp
  qed
  have 7: "fst ?r = Returned \<or> (\<exists>e'. fst ?r = Raised e')"
    by (simp add: run_outcome [OF v] split: sum.splits)
  have 8: "fst ?r = Returned" if "class_target fs2 out cls \<noteq> cls"
    "\<not> is_dir fs2 (class_target fs2 out cls)" "is_dir fs2 out"
    using class_copy_returns [OF assms(4,3) that, of simg slab]
    by (auto simp: run_outcome [OF v])
  have 9: "is_file (fsys (snd ?r)) (class_target fs2 out cls)
         \<and> node_at (fsys (snd ?r)) (class_target fs2 out cls) = node_at (fsys (snd ?r)) cls"
    if "fst ?r = Returned"
    using run_class_file [OF v that] by simp
  show ?thesis using 1 2 go 4 5 6 7 8 9 by blast
qed

theorem exception_in_loop_body_is_logged_and_loop_continues_witness:
  "is_dir fs_f [''exp'', ''images''] \<and> is_dir fs_f [''exp'', ''labels'']
   \<and> is_file fs_f [''exp'', ''classes.txt'']
   \<and> make_output_dirs fs_f [''res''] = Inr fs_f
   \<and> label_files fs_f [''exp'', ''labels''] = [''a-f1.txt''] @ ''b-f2.txt'' # [''c-f3.txt'']
   \<and> raised [''exp'', ''images''] [''exp'', ''labels''] [''res'']
         (process_labels [''exp'', ''images''] [''exp'', ''labels''] [''res'']
            \<lparr>fsys = fs_f, copied_count = 0, log = [Info_created [''res''], Info_starting], copies = []\<rparr>
            [''a-f1.txt'']) ''b-f2.txt'' = Some IsADirectoryError
   \<and> Error_processing ''b-f2.txt'' IsADirectoryError
       \<in> set (log (snd (filter_annotated_data fs_f [''exp'', ''images''] [''exp'', ''labels'']
                [''res''] [''exp'', ''classes.txt''])))
   \<and> last (copies (snd (filter_annotated_data fs_f [''exp'', ''images''] [''exp'', ''labels'']
                [''res''] [''exp'', ''classes.txt''])))
       = ([''exp'', ''classes.txt''], [''res''] @ [last [''exp'', ''classes.txt'']])
   \<and> class_target fs_f [''res''] [''exp'', ''classes.txt''] = [''res'', ''classes.txt'']
   \<and> \<not> is_dir fs_f [''res'', ''classes.txt''] \<and> is_dir fs_f [''res'']
   \<and> fst (filter_annotated_data fs_f [''exp'', ''images''] [''exp'', ''labels'']
                [''res''] [''exp'', ''classes.txt'']) = Returned
   \<and> node_at (fsys (snd (filter_annotated_data fs_f [''exp'', ''images''] [''exp'', ''labels'']
                [''res''] [''exp'', ''classes.txt''])))
         [''res'', ''classes.txt''] = Some (File ''car'')
   \<and> ''c-f3.txt'' \<in> set (label_files fs_f [''exp'', ''labels''])
   \<and> is_file fs_f ([''exp'', ''images''] @ [image_filename ''c-f3.txt''])
   \<and> (\<forall>e'. Error_processing ''c-f3.txt'' e'
         \<notin> set (log (snd (filter_annotated_data fs_f [''exp'', ''images''] [''exp'', ''labels'']
                [''res''] [''exp'', ''classes.txt'']))))
   \<and> node_at (fsys (snd (filter_annotated_data fs_f [''exp'', ''images''] [''exp'', ''labels'']
                [''res''] [''exp'', ''classes.txt''])))
         [''res'', ''images'', ''f3.jpg''] = Some (File ''J3'')
   \<and> node_at (fsys (snd (filter_annotated_data fs_f [''exp'', ''images''] [''exp'', ''labels'']
                [''res''] [''exp'', ''classes.txt''])))
         [''res'', ''labels'', ''c-f3.txt''] = Some (File ''L3'')"
proof -
  let ?r = "filter_annotated_data fs_f [''exp'', ''images''] [''exp'', ''labels'']
                [''res''] [''exp'', ''classes.txt'']"
  have h1: "is_dir fs_f [''exp'', ''images'']" by code_simp
  have h2: "is_dir fs_f [''exp'', ''labels'']" by code_simp
  have h3: "is_file fs_f [''exp'', ''classes.txt'']" by code_simp
  have h4: "make_output_dirs fs_f [''res''] = Inr fs_f" by code_simp
  have h5: "label_files fs_f [''exp'', ''labels''] = [''a-f1.txt''] @ ''b-f2.txt'' # [''c-f3.txt'']"
    by code_simp
  have h6: "raised [''exp'', ''images''] [''exp'', ''labels''] [''res'']
         (process_labels [''exp'', ''images''] [''exp'', ''labels''] [''res'']
            \<lparr>fsys = fs_f, copied_count = 0, log = [Info_created [''res''], Info_starting], copies = []\<rparr>
            [''a-f1.txt'']) ''b-f2.txt'' = Some IsADirectoryError" by code_simp
  have lg: "log (snd ?r) = [Info_created [''res''], Info_starting,
      Error_processing ''b-f2.txt'' IsADirectoryError, Info_complete 2, Info_available [''res'']]"
    by code_simp
  have m: "''c-f3.txt'' \<in> set (label_files fs_f [''exp'', ''labels''])" by (simp add: h5)
  have mi: "is_file fs_f ([''exp'', ''images''] @ [image_filename ''c-f3.txt''])" by code_simp
  have me: "\<forall>e'. Error_processing ''c-f3.txt'' e' \<notin> set (log (snd ?r))" by (simp add: lg)
  have t1: "image_target fs_f [''exp'', ''images''] [''res''] ''c-f3.txt'' = [''res'', ''images'', ''f3.jpg'']"
    by code_simp
  have t2: "label_target fs_f [''exp'', ''labels''] [''res''] ''c-f3.txt'' = [''res'', ''labels'', ''c-f3.txt'']"
    by code_simp
  have c1: "node_at fs_f ([''exp'', ''images''] @ [image_filename ''c-f3.txt'']) = Some (File ''J3'')"
    by code_simp
  have c2: "node_at fs_f ([''exp'', ''labels''] @ [''c-f3.txt'']) = Some (File ''L3'')" by code_simp
  note a = exception_in_loop_body_is_logged_and_loop_continues [OF h1 h2 h3 h4 h5 h6]
  from a have 1: "Error_processing ''b-f2.txt'' IsADirectoryError \<in> set (log (snd ?r))"
    and 2: "last (copies (snd ?r)) = ([''exp'', ''classes.txt''], [''res''] @ [last [''exp'', ''classes.txt'']])"
    by blast+
  from a m mi me
  have "node_at (fsys (snd ?r)) (image_target fs_f [''exp'', ''images''] [''res''] ''c-f3.txt'')
          = node_at fs_f ([''exp'', ''images''] @ [image_filename ''c-f3.txt''])
      \<and> node_at (fsys (snd ?r)) (label_target fs_f [''exp'', ''labels''] [''res''] ''c-f3.txt'')
          = node_at fs_f ([''exp'', ''labels''] @ [''c-f3.txt''])"
    by blast
  then have 3: "node_at (fsys (snd ?r)) [''res'', ''images'', ''f3.jpg''] = Some (File ''J3'')
      \<and> node_at (fsys (snd ?r)) [''res'', ''labels'', ''c-f3.txt''] = Some (File ''L3'')"
    unfolding t1 t2 c1 c2 .
  have k1: "class_target fs_f [''res''] [''exp'', ''classes.txt''] = [''res'', ''classes.txt'']"
    by code_simp
  have k2: "\<not> is_dir fs_f [''res'', ''classes.txt'']" by code_simp
  have k3: "is_dir fs_f [''res'']" by code_simp
  have k4: "node_at (fsys (snd ?r)) [''exp'', ''classes.txt''] = Some (File ''car'')" by code_simp
  from a k2 k3 have 4: "fst ?r = Returned" unfolding k1 by simp
  with a have "node_at (fsys (snd ?r)) (class_target fs_f [''res''] [''exp'', ''classes.txt''])
      = node_at (fsys (snd ?r)) [''exp'', ''classes.txt'']"
    by blast
  then have 5: "node_at (fsys (snd ?r)) [''res'', ''classes.txt''] = Some (File ''car'')"
    unfolding k1 k4 .
  show ?thesis using h1 h2 h3 h4 h5 h6 1 2 m mi me 3 k1 k2 k3 4 5 by blast
qed

subsection \<open>The final count\<close>

lemma after_loop_no_info:
  "Info_complete k \<notin> set (log (after_loop fs2 simg slab out))"
proof -
  from process_labels_log_kind [of simg slab out
      "\<lparr>fsys = fs2, copied_count = 0, log = [Info_created out, Info_starting], copies = []\<rparr>"
      "label_files fs2 slab"]
  obtain es where "log (after_loop fs2 simg slab out) = [Info_created out, Info_starting] @ es"
    "\<forall>x \<in> set es. (\<exists>m f. x = Warning_skipping m f) \<or> (\<exists>m e. x = Error_processing m e)"
    by (auto simp: after_loop_def)
  then show ?thesis by auto
qed

lemma info_complete_logged:
  assumes "Info_complete k \<in> set (log (snd (filter_annotated_data fs0 simg slab out cls)))"
  obtains fs2 where "is_dir fs0 simg" "is_dir fs0 slab" "is_file fs0 cls"
    "make_output_dirs fs0 out = Inr fs2"
    "fst (filter_annotated_data fs0 simg slab out cls) = Returned"
    "k = copied_count (after_loop fs2 simg slab out)"
proof (cases "is_dir fs0 simg \<and> is_dir fs0 slab \<and> is_file fs0 cls")
  case False
  from filter_annotated_data_exit [OF False] assms show ?thesis by simp
next
  case True
  then have v: "is_dir fs0 simg" "is_dir fs0 slab" "is_file fs0 cls" by simp_all
  show ?thesis
  proof (cases "make_output_dirs fs0 out")
    case (Inl e)
    from filter_annotated_data_mkdir_raises [OF v Inl] assms show ?thesis by simp
  next
    case (Inr fs2)
    from assms after_loop_no_info [of k fs2 simg slab out]
    have "fst (filter_annotated_data fs0 simg slab out cls) = Returned
        \<and> k = copied_count (after_loop fs2 simg slab out)"
      by (auto simp: run_log [OF v Inr] split: if_splits)
    with that [OF v Inr] show ?thesis by blast
  qed
qed

lemma pair_copied_iff_no_error:
  assumes "is_dir fs0 simg" "is_dir fs0 slab" "is_file fs0 cls" "make_output_dirs fs0 out = Inr fs2"
    and "name \<in> set (label_files fs0 slab)"
  shows "pair_copied fs0 simg slab out name \<longleftrightarrow>
         is_file fs0 (simg @ [image_filename name])
         \<and> (\<forall>e. Error_processing name e \<notin> set (log (snd (filter_annotated_data fs0 simg slab out cls))))"
proof -
  have "(\<exists>e. Error_processing name e \<in> set (log (snd (filter_annotated_data fs0 simg slab out cls))))
        \<longleftrightarrow> (\<exists>e. Error_processing name e \<in> set (log (after_loop fs2 simg slab out)))"
    by (simp add: run_log [OF assms(1-4)])
  with after_loop_errors [OF assms(4), of name simg slab] assms(5) show ?thesis
    by (auto simp: pair_copied_def)
qed

text \<open>
  C8. When the function logs its final count, it has returned, and the count is the
  number of label files whose image was in the source images directory and for which
  neither copy raised (none has an error in the log); each of them has its image and
  itself in the output, with the bytes of the sources.
\<close>

theorem final_count_is_number_of_copied_pairs:
  assumes "Info_complete k \<in> set (log (snd (filter_annotated_data fs0 simg slab out cls)))"
  shows "fst (filter_annotated_data fs0 simg slab out cls) = Returned
       \<and> k = copied_count (snd (filter_annotated_data fs0 simg slab out cls))
       \<and> k = length (filter (pair_copied fs0 simg slab out) (label_files fs0 slab))
       \<and> k = card {name \<in> set (label_files fs0 slab).
                    is_file fs0 (simg @ [image_filename name])
                    \<and> (\<forall>e. Error_processing name e
                           \<notin> set (log (snd (filter_annotated_data fs0 simg slab out cls))))}
       \<and> (\<forall>name \<in> set (label_files fs0 slab).
             pair_copied fs0 simg slab out name \<longrightarrow>
               node_at (fsys (snd (filter_annotated_data fs0 simg slab out cls)))
                   (image_target fs0 simg out name)
                 = node_at fs0 (simg @ [image_filename name])
               \<and> node_at (fsys (snd (filter_annotated_data fs0 simg slab out cls)))
                   (label_target fs0 slab out name)
                 = node_at fs0 (slab @ [name])
               \<and> is_file (fsys (snd (filter_annotated_data fs0 simg slab out cls)))
                   (image_target fs0 simg out name)
               \<and> is_file (fsys (snd (filter_annotated_data fs0 simg slab out cls)))
                   (label_target fs0 slab out name))"
proof -
  let ?r = "filter_annotated_data fs0 simg slab out cls"
  from assms obtain fs2 where v: "is_dir fs0 simg" "is_dir fs0 slab" "is_file fs0 cls"
    "make_output_dirs fs0 out = Inr fs2"
    and ret: "fst ?r = Returned" and k: "k = copied_count (after_loop fs2 simg slab out)"
    by (rule info_complete_logged)
  have 1: "k = copied_count (snd ?r)" by (simp add: k run_copied_count [OF v])
  have 2: "k = length (filter (pair_copied fs0 simg slab out) (label_files fs0 slab))"
    by (simp add: k after_loop_count [OF v(4)])
  have "{name \<in> set (label_files fs0 slab).
           is_file fs0 (simg @ [image_filename name])
           \<and> (\<forall>e. Error_processing name e \<notin> set (log (snd ?r)))}
        = {name. pair_copied fs0 simg slab out name} \<inter> set (label_files fs0 slab)"
    using pair_copied_iff_no_error [OF v] by blast
  then have 3: "k = card {name \<in> set (label_files fs0 slab).
           is_file fs0 (simg @ [image_filename name])
           \<and> (\<forall>e. Error_processing name e \<notin> set (log (snd ?r)))}"
    using distinct_length_filter [OF distinct_label_files, of "pair_copied fs0 simg slab out" fs0 slab]
    by (simp add: 2)
  show ?thesis
    using ret 1 2 3 run_pair_present [OF v] by blast
qed

theorem final_count_is_number_of_copied_pairs_witness:
  "Info_complete 2 \<in> set (log (snd (filter_annotated_data fs_f [''exp'', ''images'']
       [''exp'', ''labels''] [''res''] [''exp'', ''classes.txt''])))
   \<and> fst (filter_annotated_data fs_f [''exp'', ''images''] [''exp'', ''labels''] [''res'']
       [''exp'', ''classes.txt'']) = Returned
   \<and> (2::nat) = length (filter (pair_copied fs_f [''exp'', ''images''] [''exp'', ''labels''] [''res''])
                    (label_files fs_f [''exp'', ''labels'']))
   \<and> filter (pair_copied fs_f [''exp'', ''images''] [''exp'', ''labels''] [''res''])
        (label_files fs_f [''exp'', ''labels'']) = [''a-f1.txt'', ''c-f3.txt'']
   \<and> ''a-f1.txt'' \<in> set (label_files fs_f [''exp'', ''labels''])
   \<and> pair_copied fs_f [''exp'', ''images''] [''exp'', ''labels''] [''res''] ''a-f1.txt''
   \<and> node_at (fsys (snd (filter_annotated_data fs_f [''exp'', ''images''] [''exp'', ''labels''] [''res'']
       [''exp'', ''classes.txt''])))
        [''res'', ''images'', ''f1.jpg''] = Some (File ''J1'')
   \<and> node_at (fsys (snd (filter_annotated_data fs_f [''exp'', ''images''] [''exp'', ''labels''] [''res'']
       [''exp'', ''classes.txt''])))
        [''res'', ''labels'', ''a-f1.txt''] = Some (File ''L1'')"
proof -
  let ?r = "filter_annotated_data fs_f [''exp'', ''images''] [''exp'', ''labels''] [''res'']
       [''exp'', ''classes.txt'']"
  have lg: "log (snd ?r) = [Info_created [''res''], Info_starting,
      Error_processing ''b-f2.txt'' IsADirectoryError, Info_complete 2, Info_available [''res'']]"
    by code_simp
  have h: "Info_complete 2 \<in> set (log (snd ?r))" by (simp add: lg)
  have f: "filter (pair_copied fs_f [''exp'', ''images''] [''exp'', ''labels''] [''res''])
        (label_files fs_f [''exp'', ''labels'']) = [''a-f1.txt'', ''c-f3.txt'']" by code_simp
  have m: "''a-f1.txt'' \<in> set (label_files fs_f [''exp'', ''labels''])" by code_simp
  have pc: "pair_copied fs_f [''exp'', ''images''] [''exp'', ''labels''] [''res''] ''a-f1.txt''"
    by code_simp
  have t1: "image_target fs_f [''exp'', ''images''] [''res''] ''a-f1.txt'' = [''res'', ''images'', ''f1.jpg'']"
    by code_simp
  have t2: "label_target fs_f [''exp'', ''labels''] [''res''] ''a-f1.txt'' = [''res'', ''labels'', ''a-f1.txt'']"
    by code_simp
  have c1: "node_at fs_f ([''exp'', ''images''] @ [image_filename ''a-f1.txt'']) = Some (File ''J1'')"
    by code_simp
  have c2: "node_at fs_f ([''exp'', ''labels''] @ [''a-f1.txt'']) = Some (File ''L1'')" by code_simp
  note a = final_count_is_number_of_copied_pairs [OF h]
  from a have 1: "fst ?r = Returned"
    and 2: "(2::nat) = length (filter (pair_copied fs_f [''exp'', ''images''] [''exp'', ''labels''] [''res''])
                    (label_files fs_f [''exp'', ''labels'']))" by blast+
  from a m pc
  have "node_at (fsys (snd ?r)) (image_target fs_f [''exp'', ''images''] [''res''] ''a-f1.txt'')
          = node_at fs_f ([''exp'', ''images''] @ [image_filename ''a-f1.txt''])
      \<and> node_at (fsys (snd ?r)) (label_target fs_f [''exp'', ''labels''] [''res''] ''a-f1.txt'')
          = node_at fs_f ([''exp'', ''labels''] @ [''a-f1.txt''])"
    by blast
  then have 3: "node_at (fsys (snd ?r)) [''res'', ''images'', ''f1.jpg''] = Some (File ''J1'')
      \<and> node_at (fsys (snd ?r)) [''res'', ''labels'', ''a-f1.txt''] = Some (File ''L1'')"
    unfolding t1 t2 c1 c2 .
  show ?thesis using h f m pc 1 2 3 by blast
qed

subsection \<open>Labels without identifier\<close>

text \<open>
  C9, as stated, fails: in \<open>fs_i\<close> the label \<open>f1.txt\<close> has no hyphen and its
  image \<open>f1.jpg\<close> is in the source images directory, the function returns, and the
  label is not copied: the source images directory is the \<open>images\<close> directory of
  the output, the copy of the image onto itself raised and the handler logged it.
\<close>

theorem no_hyphen_label_not_copied_counterexample:
  "label_files fs_i [''data'', ''annotations''] = [''f1.txt'']
   \<and> CHR ''-'' \<notin> set ''f1.txt''
   \<and> image_filename ''f1.txt'' = ''f1.jpg''
   \<and> is_file fs_i [''data'', ''images'', ''f1.jpg'']
   \<and> fst (filter_annotated_data fs_i [''data'', ''images''] [''data'', ''annotations''] [''data'']
         [''meta'', ''classes.txt'']) = Returned
   \<and> log (snd (filter_annotated_data fs_i [''data'', ''images''] [''data'', ''annotations''] [''data'']
         [''meta'', ''classes.txt'']))
       = [Info_created [''data''], Info_starting, Error_processing ''f1.txt'' SameFileError,
          Info_complete 0, Info_available [''data'']]
   \<and> iterdir (fsys (snd (filter_annotated_data fs_i [''data'', ''images''] [''data'', ''annotations'']
         [''data''] [''meta'', ''classes.txt''])))
        [''data'', ''labels''] = []"
  by code_simp

text \<open>
  C9, amended. For a label file whose name has no hyphen, the expected image is the
  whole stem followed by \<open>.jpg\<close>. The label is treated as any other: when that
  image is not a regular file of the source images directory it is skipped with the
  warning; when it is, no warning is logged and the image is copied first. Unless a
  copy raises, the pair is copied and counted: after the pass the file system holds
  the contents of the image and of the label at the places the two copies write to,
  both regular files. When a copy raises, the error is logged with the name of the
  label and the pair is not counted.
\<close>

theorem no_hyphen_label_uses_full_stem:
  assumes "is_txt name" and "CHR ''-'' \<notin> set name"
  shows "image_filename name = path_stem name @ ''.jpg''
       \<and> (\<not> is_file (fsys s) (simg @ [path_stem name @ ''.jpg'']) \<longrightarrow>
            process_label simg slab out s name
              = s\<lparr>log := log s @ [Warning_skipping name (path_stem name @ ''.jpg'')]\<rparr>)
       \<and> (is_file (fsys s) (simg @ [path_stem name @ ''.jpg'']) \<longrightarrow>
            Warning_skipping name (path_stem name @ ''.jpg'')
              \<notin> set (drop (length (log s)) (log (process_label simg slab out s name)))
            \<and> (\<exists>rest. copies (process_label simg slab out s name)
                  = copies s @ (simg @ [path_stem name @ ''.jpg''],
                                out @ [''images'', path_stem name @ ''.jpg'']) # rest))
       \<and> (is_file (fsys s) (simg @ [path_stem name @ ''.jpg''])
            \<and> raised simg slab out s name = None \<longrightarrow>
            node_at (fsys (process_label simg slab out s name)) (image_target (fsys s) simg out name)
              = node_at (fsys s) (simg @ [path_stem name @ ''.jpg''])
            \<and> node_at (fsys (process_label simg slab out s name)) (label_target (fsys s) slab out name)
              = node_at (fsys s) (slab @ [name])
            \<and> is_file (fsys (process_label simg slab out s name)) (image_target (fsys s) simg out name)
            \<and> is_file (fsys (process_label simg slab out s name)) (label_target (fsys s) slab out name)
            \<and> copied_count (process_label simg slab out s name) = copied_count s + 1
            \<and> copies (process_label simg slab out s name)
                = copies s @ [(simg @ [path_stem name @ ''.jpg''],
                               out @ [''images'', path_stem name @ ''.jpg'']),
                              (slab @ [name], out @ [''labels'', name])])
       \<and> (\<forall>e. raised simg slab out s name = Some e \<longrightarrow>
            copied_count (process_label simg slab out s name) = copied_count s
            \<and> log (process_label simg slab out s name) = log s @ [Error_processing name e])"
proof -
  from assms have "CHR ''-'' \<notin> set (path_stem name)" by (simp add: is_txt_hyphen)
  then have i: "image_filename name = path_stem name @ ''.jpg''"
    by (simp add: image_filename_def image_base_name_plain)
  have w: "Warning_skipping name (path_stem name @ ''.jpg'')
              \<notin> set (drop (length (log s)) (log (process_label simg slab out s name)))"
    if "is_file (fsys s) (simg @ [path_stem name @ ''.jpg''])"
  proof -
    from that have f: "is_file (fsys s) (simg @ [image_filename name])" by (simp add: i)
    show ?thesis
    proof (cases "copy2 (fsys s) (simg @ [image_filename name]) (out @ [''images'', image_filename name])")
      case (Inl e)
      with f show ?thesis by (simp add: process_label_def)
    next
      case (Inr fs1)
      with f show ?thesis
        by (cases "copy2 fs1 (slab @ [name]) (out @ [''labels'', name])") (simp_all add: process_label_def)
    qed
  qed
  have r: "copied_count (process_label simg slab out s name) = copied_count s
       \<and> log (process_label simg slab out s name) = log s @ [Error_processing name e]"
    if "raised simg slab out s name = Some e" for e
    using process_label_raised [OF that] by simp
  show ?thesis
    using process_label_skip [of s simg name slab out]
      process_label_copies_image_first [of s simg name slab out]
      process_label_not_raised [of s simg name slab out]
      process_label_puts_pair [OF assms(1), of s simg slab out] w r
    unfolding i by blast
qed

theorem no_hyphen_label_uses_full_stem_witness:
  "is_txt ''f1.txt'' \<and> CHR ''-'' \<notin> set ''f1.txt''
   \<and> image_filename ''f1.txt'' = ''f1.jpg''
   \<and> is_file (fsys \<lparr>fsys = fs_g, copied_count = 0, log = [], copies = []\<rparr>)
        ([''exp'', ''images''] @ [path_stem ''f1.txt'' @ ''.jpg''])
   \<and> raised [''exp'', ''images''] [''exp'', ''labels''] [''res'']
        \<lparr>fsys = fs_g, copied_count = 0, log = [], copies = []\<rparr> ''f1.txt'' = None
   \<and> copied_count (process_label [''exp'', ''images''] [''exp'', ''labels''] [''res'']
        \<lparr>fsys = fs_g, copied_count = 0, log = [], copies = []\<rparr> ''f1.txt'') = 1
   \<and> copies (process_label [''exp'', ''images''] [''exp'', ''labels''] [''res'']
        \<lparr>fsys = fs_g, copied_count = 0, log = [], copies = []\<rparr> ''f1.txt'')
       = [([''exp'', ''images'', ''f1.jpg''], [''res'', ''images'', ''f1.jpg'']),
          ([''exp'', ''labels'', ''f1.txt''], [''res'', ''labels'', ''f1.txt''])]
   \<and> node_at (fsys (process_label [''exp'', ''images''] [''exp'', ''labels''] [''res'']
        \<lparr>fsys = fs_g, copied_count = 0, log = [], copies = []\<rparr> ''f1.txt''))
        [''res'', ''images'', ''f1.jpg''] = Some (File ''J1'')
   \<and> node_at (fsys (process_label [''exp'', ''images''] [''exp'', ''labels''] [''res'']
        \<lparr>fsys = fs_g, copied_count = 0, log = [], copies = []\<rparr> ''f1.txt''))
        [''res'', ''labels'', ''f1.txt''] = Some (File ''L1'')
   \<and> raised [''data'', ''images''] [''data'', ''annotations''] [''data'']
        \<lparr>fsys = fs_i, copied_count = 0, log = [], copies = []\<rparr> ''f1.txt'' = Some SameFileError
   \<and> copied_count (process_label [''data'', ''images''] [''data'', ''annotations''] [''data'']
        \<lparr>fsys = fs_i, copied_count = 0, log = [], copies = []\<rparr> ''f1.txt'') = 0
   \<and> log (process_label [''data'', ''images''] [''data'', ''annotations''] [''data'']
        \<lparr>fsys = fs_i, copied_count = 0, log = [], copies = []\<rparr> ''f1.txt'')
       = [Error_processing ''f1.txt'' SameFileError]
   \<and> is_txt ''f9.txt'' \<and> CHR ''-'' \<notin> set ''f9.txt''
   \<and> \<not> is_file (fsys \<lparr>fsys = fs_g, copied_count = 0, log = [], copies = []\<rparr>)
        ([''exp'', ''images''] @ [path_stem ''f9.txt'' @ ''.jpg''])
   \<and> process_label [''exp'', ''images''] [''exp'', ''labels''] [''res'']
        \<lparr>fsys = fs_g, copied_count = 0, log = [], copies = []\<rparr> ''f9.txt''
       = \<lparr>fsys = fs_g, copied_count = 0, log = [Warning_skipping ''f9.txt'' ''f9.jpg''], copies = []\<rparr>"
proof -
  let ?s = "\<lparr>fsys = fs_g, copied_count = 0, log = [], copies = []\<rparr>"
  have t1: "is_txt ''f1.txt''" by code_simp
  have n1: "CHR ''-'' \<notin> set ''f1.txt''" by simp
  have t9: "is_txt ''f9.txt''" by code_simp
  have n9: "CHR ''-'' \<notin> set ''f9.txt''" by simp
  have s1: "path_stem ''f1.txt'' = ''f1''" by code_simp
  have s9: "path_stem ''f9.txt'' = ''f9''" by code_simp
  have f1: "is_file (fsys ?s) ([''exp'', ''images''] @ [path_stem ''f1.txt'' @ ''.jpg''])" by code_simp
  have f9: "\<not> is_file (fsys ?s) ([''exp'', ''images''] @ [path_stem ''f9.txt'' @ ''.jpg''])" by code_simp
  have r1: "raised [''exp'', ''images''] [''exp'', ''labels''] [''res''] ?s ''f1.txt'' = None" by code_simp
  note a = no_hyphen_label_uses_full_stem [OF t1 n1, of ?s "[''exp'', ''images'']" "[''exp'', ''labels'']" "[''res'']"]
  note b = no_hyphen_label_uses_full_stem [OF t9 n9, of ?s "[''exp'', ''images'']" "[''exp'', ''labels'']" "[''res'']"]
  from a have 1: "image_filename ''f1.txt'' = ''f1.jpg''" by (simp add: s1)
  from a f1 r1 have 2: "copied_count (process_label [''exp'', ''images''] [''exp'', ''labels''] [''res''] ?s ''f1.txt'') = 1
     \<and> copies (process_label [''exp'', ''images''] [''exp'', ''labels''] [''res''] ?s ''f1.txt'')
       = [([''exp'', ''images'', ''f1.jpg''], [''res'', ''images'', ''f1.jpg'']),
          ([''exp'', ''labels'', ''f1.txt''], [''res'', ''labels'', ''f1.txt''])]"
    by (simp add: s1)
  from b f9 have 3: "process_label [''exp'', ''images''] [''exp'', ''labels''] [''res''] ?s ''f9.txt''
       = \<lparr>fsys = fs_g, copied_count = 0, log = [Warning_skipping ''f9.txt'' ''f9.jpg''], copies = []\<rparr>"
    by (simp add: s9)
  have ti: "image_target (fsys ?s) [''exp'', ''images''] [''res''] ''f1.txt'' = [''res'', ''images'', ''f1.jpg'']"
    by code_simp
  have tl: "label_target (fsys ?s) [''exp'', ''labels''] [''res''] ''f1.txt'' = [''res'', ''labels'', ''f1.txt'']"
    by code_simp
  have ni: "node_at (fsys ?s) ([''exp'', ''images''] @ [''f1.jpg'']) = Some (File ''J1'')" by code_simp
  have nl: "node_at (fsys ?s) ([''exp'', ''labels''] @ [''f1.txt'']) = Some (File ''L1'')" by code_simp
  from a f1 r1 have 4: "node_at (fsys (process_label [''exp'', ''images''] [''exp'', ''labels''] [''res''] ?s ''f1.txt''))
        [''res'', ''images'', ''f1.jpg''] = Some (File ''J1'')
     \<and> node_at (fsys (process_label [''exp'', ''images''] [''exp'', ''labels''] [''res''] ?s ''f1.txt''))
        [''res'', ''labels'', ''f1.txt''] = Some (File ''L1'')"
    unfolding ti tl s1 using ni nl by simp
  let ?t = "\<lparr>fsys = fs_i, copied_count = 0, log = [], copies = []\<rparr>"
  have r5: "raised [''data'', ''images''] [''data'', ''annotations''] [''data''] ?t ''f1.txt'' = Some SameFileError"
    by code_simp
  note c = no_hyphen_label_uses_full_stem [OF t1 n1, of ?t "[''data'', ''images'']" "[''data'', ''annotations'']" "[''data'']"]
  from c r5 have 5: "copied_count (process_label [''data'', ''images''] [''data'', ''annotations''] [''data''] ?t ''f1.txt'') = 0
     \<and> log (process_label [''data'', ''images''] [''data'', ''annotations''] [''data''] ?t ''f1.txt'')
       = [Error_processing ''f1.txt'' SameFileError]"
    by simp
  show ?thesis using t1 n1 t9 n9 f1 f9 r1 r5 1 2 3 4 5 by blast
qed

subsection \<open>The names in the output\<close>

lemma process_labels_copies_mono:
  "x \<in> set (copies s) \<Longrightarrow> x \<in> set (copies (process_labels simg slab out s names))"
  using process_labels_copies_kind [of simg slab out s names] by auto

lemma process_labels_calls_label_copy:
  "loop_ready slab out (fsys s) names \<Longrightarrow> n \<in> set names \<Longrightarrow>
   is_file (fsys s) (simg @ [image_filename n]) \<Longrightarrow> image_copy_ok (fsys s) simg out n \<Longrightarrow>
   (slab @ [n], out @ [''labels'', n]) \<in> set (copies (process_labels simg slab out s names))"
proof (induction names arbitrary: s)
  case Nil
  then show ?case by simp
next
  case (Cons m names)
  let ?s1 = "process_label simg slab out s m"
  from Cons.prems(1) have a: "is_dir (fsys s) (out @ [''images''])" "is_dir (fsys s) (out @ [''labels''])"
    "is_txt m" "is_file (fsys s) (slab @ [m])" by (simp_all add: loop_ready_def)
  note st = stable_step [OF a(3), of simg slab s out]
  show ?case
  proof (cases "n = m")
    case True
    from a have "(slab @ [m], out @ [''labels'', m]) \<in> set (copies ?s1)"
    proof (cases rule: process_label_cases [where simg=simg])
      case skip
      with Cons.prems(3) True show ?thesis by simp
    next
      case (image_fails e)
      with Cons.prems(4) True show ?thesis by simp
    next
      case (label_fails e ci)
      then show ?thesis by simp
    next
      case (copied ci cl)
      then show ?thesis by simp
    qed
    then show ?thesis using True by (simp add: process_labels_copies_mono)
  next
    case False
    with Cons.prems(2) have "n \<in> set names" by simp
    from Cons.IH [OF loop_ready_step [OF Cons.prems(1)] this] Cons.prems(3,4) show ?thesis
      by (simp add: stable_is_file_image [OF st] stable_image_copy_ok [OF st])
  qed
qed

lemma base_name_shorter:
  "CHR ''-'' \<in> set s \<Longrightarrow> length (image_base_name s) < length s"
proof -
  assume h: "CHR ''-'' \<in> set s"
  have "length s = length (takeWhile (\<lambda>x. x \<noteq> CHR ''-'') s @ [CHR ''-'']
           @ tl (dropWhile (\<lambda>x. x \<noteq> CHR ''-'') s))"
    using first_hyphen_split [OF h] by simp
  then show ?thesis by (simp add: image_base_name_hyphen [OF h])
qed

text \<open>
  C10, as stated, fails: in \<open>fs_j\<close> the \<open>labels\<close> directory of the output has a
  directory of the name \<open>a-f1.txt\<close>. The function returns, one pair is counted and no
  error is logged, and the label is not the entry \<open>a-f1.txt\<close> of the \<open>labels\<close>
  directory of the output: that entry is still the directory, \<open>labels\<close> has no
  regular file at all, and the contents of the label are one level below, in the file
  \<open>a-f1.txt\<close> of that directory.
\<close>

theorem copied_label_not_in_labels_directory_counterexample:
  "label_files fs_j [''exp'', ''labels''] = [''a-f1.txt'']
   \<and> is_file fs_j [''exp'', ''images'', ''f1.jpg'']
   \<and> fst (filter_annotated_data fs_j [''exp'', ''images''] [''exp'', ''labels''] [''res'']
         [''exp'', ''classes.txt'']) = Returned
   \<and> log (snd (filter_annotated_data fs_j [''exp'', ''images''] [''exp'', ''labels''] [''res'']
         [''exp'', ''classes.txt'']))
       = [Info_created [''res''], Info_starting, Info_complete 1, Info_available [''res'']]
   \<and> \<not> is_file (fsys (snd (filter_annotated_data fs_j [''exp'', ''images''] [''exp'', ''labels'']
         [''res''] [''exp'', ''classes.txt''])))
        [''res'', ''labels'', ''a-f1.txt'']
   \<and> is_dir (fsys (snd (filter_annotated_data fs_j [''exp'', ''images''] [''exp'', ''labels'']
         [''res''] [''exp'', ''classes.txt''])))
        [''res'', ''labels'', ''a-f1.txt'']
   \<and> iterdir (fsys (snd (filter_annotated_data fs_j [''exp'', ''images''] [''exp'', ''labels'']
         [''res''] [''exp'', ''classes.txt''])))
        [''res'', ''labels''] = [''a-f1.txt'']
   \<and> label_files (fsys (snd (filter_annotated_data fs_j [''exp'', ''images''] [''exp'', ''labels'']
         [''res''] [''exp'', ''classes.txt''])))
        [''res'', ''labels''] = []
   \<and> node_at (fsys (snd (filter_annotated_data fs_j [''exp'', ''images''] [''exp'', ''labels'']
         [''res''] [''exp'', ''classes.txt''])))
        [''res'', ''labels'', ''a-f1.txt'', ''a-f1.txt''] = Some (File ''L1'')
   \<and> node_at (fsys (snd (filter_annotated_data fs_j [''exp'', ''images''] [''exp'', ''labels'']
         [''res''] [''exp'', ''classes.txt''])))
        [''res'', ''images'', ''f1.jpg''] = Some (File ''J1'')"
  by code_simp

text \<open>
  C10, amended. For a label file whose pair is copied (its image is in the source
  images directory and no error is logged for it), the output holds the contents of
  the label in a regular file whose name is the label's own name, identifier
  included, and the contents of the image in a regular file named by the base name
  followed by \<open>.jpg\<close>. The label is the entry of its name in the \<open>labels\<close> directory
  of the output, unless that entry is a directory before the run: then the entry
  stays a directory and the label is the entry of its name in that directory. The
  same holds of the image, its name and the \<open>images\<close> directory. The label file is
  passed to \<open>copy2\<close> with \<open>labels\<close> followed by its own name as destination, and
  every \<open>copy2\<close> call on it has a destination that ends with its own name; when the
  name has an identifier, the stem of the stored name is not the image's base name.
\<close>

theorem copied_label_keeps_its_name:
  assumes "is_dir fs0 simg" and "is_dir fs0 slab" and "is_file fs0 cls"
    and "make_output_dirs fs0 out = Inr fs2"
    and "name \<in> set (label_files fs0 slab)"
    and "is_file fs0 (simg @ [image_filename name])"
    and "\<forall>e. Error_processing name e \<notin> set (log (snd (filter_annotated_data fs0 simg slab out cls)))"
  shows "is_file (fsys (snd (filter_annotated_data fs0 simg slab out cls))) (label_target fs0 slab out name)
       \<and> node_at (fsys (snd (filter_annotated_data fs0 simg slab out cls))) (label_target fs0 slab out name)
           = node_at fs0 (slab @ [name])
       \<and> last (label_target fs0 slab out name) = name
       \<and> prefix (out @ [''labels'']) (label_target fs0 slab out name)
       \<and> label_target fs0 slab out name
           = (if is_dir fs0 (out @ [''labels'', name]) then out @ [''labels'', name, name]
              else out @ [''labels'', name])
       \<and> is_dir (fsys (snd (filter_annotated_data fs0 simg slab out cls))) (out @ [''labels'', name])
           = is_dir fs0 (out @ [''labels'', name])
       \<and> is_file (fsys (snd (filter_annotated_data fs0 simg slab out cls))) (image_target fs0 simg out name)
       \<and> node_at (fsys (snd (filter_annotated_data fs0 simg slab out cls))) (image_target fs0 simg out name)
           = node_at fs0 (simg @ [image_base_name (path_stem name) @ ''.jpg''])
       \<and> last (image_target fs0 simg out name) = image_base_name (path_stem name) @ ''.jpg''
       \<and> prefix (out @ [''images'']) (image_target fs0 simg out name)
       \<and> image_target fs0 simg out name
           = (if is_dir fs0 (out @ [''images'', image_base_name (path_stem name) @ ''.jpg''])
              then out @ [''images'', image_base_name (path_stem name) @ ''.jpg'',
                          image_base_name (path_stem name) @ ''.jpg'']
              else out @ [''images'', image_base_name (path_stem name) @ ''.jpg''])
       \<and> is_dir (fsys (snd (filter_annotated_data fs0 simg slab out cls)))
             (out @ [''images'', image_base_name (path_stem name) @ ''.jpg''])
           = is_dir fs0 (out @ [''images'', image_base_name (path_stem name) @ ''.jpg''])
       \<and> (slab @ [name], out @ [''labels'', name])
            \<in> set (copies (snd (filter_annotated_data fs0 simg slab out cls)))
       \<and> (\<forall>dst. (slab @ [name], dst) \<in> set (copies (snd (filter_annotated_data fs0 simg slab out cls)))
                 \<longrightarrow> last dst = name)
       \<and> (CHR ''-'' \<in> set name \<longrightarrow>
            path_stem (last (label_target fs0 slab out name)) \<noteq> image_base_name (path_stem name))"
proof -
  let ?r = "filter_annotated_data fs0 simg slab out cls"
  let ?s0 = "\<lparr>fsys = fs2, copied_count = 0, log = [Info_created out, Info_starting], copies = []\<rparr>"
  note v = assms(1-4)
  from assms(5) have t: "is_txt name" by (simp add: label_files_txt)
  have lf2: "label_files fs2 slab = label_files fs0 slab"
    by (rule make_output_dirs_facts(6) [OF assms(4)])
  have pc: "pair_copied fs0 simg slab out name"
    using pair_copied_iff_no_error [OF v assms(5)] assms(6,7) by simp
  note pres = run_pair_present(3,4) [OF v assms(5) pc]
  have byt: "node_at (fsys (snd ?r)) (label_target fs0 slab out name) = node_at fs0 (slab @ [name])"
    "node_at (fsys (snd ?r)) (image_target fs0 simg out name)
       = node_at fs0 (simg @ [image_base_name (path_stem name) @ ''.jpg''])"
    using run_pair_present(1,2) [OF v assms(5) pc] by (simp_all add: image_filename_def)
  have dr: "is_dir (fsys (snd ?r)) (out @ [d, n]) = is_dir fs0 (out @ [d, n])" for d n
  proof -
    have "is_dir (fsys (snd ?r)) (out @ [d, n]) = is_dir fs2 (out @ [d, n])"
      by (rule run_is_dir [OF v])
    also have "\<dots> = is_dir fs0 (out @ [d, n])"
      using make_output_dirs_facts(7) [OF assms(4), of "out @ [d, n]"] by (simp add: is_dir_def)
    finally show ?thesis .
  qed
  have l1: "last (label_target fs0 slab out name) = name" by (rule last_label_target)
  have l2: "prefix (out @ [''labels'']) (label_target fs0 slab out name)"
    using label_target_cases [of fs0 slab out name] by (auto simp: prefix_def)
  have l3: "label_target fs0 slab out name
           = (if is_dir fs0 (out @ [''labels'', name]) then out @ [''labels'', name, name]
              else out @ [''labels'', name])"
    by (simp add: label_target_def copy_target_def)
  have i1: "last (image_target fs0 simg out name) = image_base_name (path_stem name) @ ''.jpg''"
    using last_image_target [of fs0 simg out name] by (simp add: image_filename_def)
  have i2: "prefix (out @ [''images'']) (image_target fs0 simg out name)"
    using image_target_cases [of fs0 simg out name] by (auto simp: prefix_def)
  have i3: "image_target fs0 simg out name
           = (if is_dir fs0 (out @ [''images'', image_base_name (path_stem name) @ ''.jpg''])
              then out @ [''images'', image_base_name (path_stem name) @ ''.jpg'',
                          image_base_name (path_stem name) @ ''.jpg'']
              else out @ [''images'', image_base_name (path_stem name) @ ''.jpg''])"
    by (simp add: image_target_def copy_target_def image_filename_def)
  have r: "loop_ready slab out (fsys ?s0) (label_files fs0 slab)"
    using after_loop_ready [OF assms(4), of slab] by (simp add: lf2)
  have "(slab @ [name], out @ [''labels'', name]) \<in> set (copies (after_loop fs2 simg slab out))"
    unfolding after_loop_def lf2
    using pc by (intro process_labels_calls_label_copy [OF r assms(5)])
      (simp_all add: pair_copied_def make_output_dirs_facts(3) [OF assms(4)]
        targets_after_mkdir(3) [OF assms(4)])
  then have c1: "(slab @ [name], out @ [''labels'', name]) \<in> set (copies (snd ?r))"
    by (simp add: run_copies [OF v])
  have c2: "last dst = name" if d: "(slab @ [name], dst) \<in> set (copies (snd ?r))" for dst
  proof -
    from d consider "(slab @ [name], dst) = (cls, out @ [last cls])"
      | "(slab @ [name], dst) \<in> set (copies (after_loop fs2 simg slab out))"
      by (auto simp: run_copies [OF v])
    then show ?thesis
    proof cases
      case 1
      then have "last cls = name" "dst = out @ [last cls]" by auto
      then show ?thesis by simp
    next
      case 2
      have "\<forall>m \<in> set (label_files fs0 slab). is_txt m" by (simp add: label_files_txt)
      from process_labels_copies_mem [OF this 2 [unfolded after_loop_def lf2]]
      obtain m where "(slab @ [name], dst) = (simg @ [image_filename m], out @ [''images'', image_filename m])
          \<or> (slab @ [name], dst) = (slab @ [m], out @ [''labels'', m])" by auto
      then show ?thesis using image_filename_not_txt [OF t, of m] by auto
    qed
  qed
  have h: "path_stem (last (label_target fs0 slab out name)) \<noteq> image_base_name (path_stem name)"
    if "CHR ''-'' \<in> set name"
  proof -
    from that t have "CHR ''-'' \<in> set (path_stem name)" by (simp add: is_txt_hyphen)
    from base_name_shorter [OF this] show ?thesis by (auto simp: l1)
  qed
  show ?thesis
    using pres byt l1 l2 l3 i1 i2 i3 c1 c2 h dr [of "''labels''" name]
      dr [of "''images''" "image_base_name (path_stem name) @ ''.jpg''"]
    by blast
qed

theorem copied_label_keeps_its_name_witness:
  "is_dir fs_c [''exp'', ''images''] \<and> is_dir fs_c [''exp'', ''labels'']
   \<and> is_file fs_c [''exp'', ''classes.txt'']
   \<and> make_output_dirs fs_c [''exp'', ''filtered_data''] = Inr fs_c_dirs
   \<and> ''a-f1.txt'' \<in> set (label_files fs_c [''exp'', ''labels''])
   \<and> is_file fs_c ([''exp'', ''images''] @ [image_filename ''a-f1.txt''])
   \<and> (\<forall>e. Error_processing ''a-f1.txt'' e \<notin> set (log (snd (filter_annotated_data fs_c
          [''exp'', ''images''] [''exp'', ''labels''] [''exp'', ''filtered_data''] [''exp'', ''classes.txt'']))))
   \<and> \<not> is_dir fs_c ([''exp'', ''filtered_data''] @ [''labels'', ''a-f1.txt''])
   \<and> \<not> is_dir fs_c ([''exp'', ''filtered_data'']
          @ [''images'', image_base_name (path_stem ''a-f1.txt'') @ ''.jpg''])
   \<and> CHR ''-'' \<in> set ''a-f1.txt''
   \<and> node_at (fsys (snd (filter_annotated_data fs_c
          [''exp'', ''images''] [''exp'', ''labels''] [''exp'', ''filtered_data''] [''exp'', ''classes.txt''])))
        [''exp'', ''filtered_data'', ''labels'', ''a-f1.txt''] = Some (File ''L1'')
   \<and> node_at (fsys (snd (filter_annotated_data fs_c
          [''exp'', ''images''] [''exp'', ''labels''] [''exp'', ''filtered_data''] [''exp'', ''classes.txt''])))
        [''exp'', ''filtered_data'', ''images'', ''f1.jpg''] = Some (File ''J1'')
   \<and> \<not> exists_path (fsys (snd (filter_annotated_data fs_c
          [''exp'', ''images''] [''exp'', ''labels''] [''exp'', ''filtered_data''] [''exp'', ''classes.txt''])))
        [''exp'', ''filtered_data'', ''labels'', ''f1.txt'']
   \<and> is_dir fs_j [''exp'', ''images''] \<and> is_dir fs_j [''exp'', ''labels'']
   \<and> is_file fs_j [''exp'', ''classes.txt'']
   \<and> make_output_dirs fs_j [''res''] = Inr fs_j
   \<and> ''a-f1.txt'' \<in> set (label_files fs_j [''exp'', ''labels''])
   \<and> is_file fs_j ([''exp'', ''images''] @ [image_filename ''a-f1.txt''])
   \<and> (\<forall>e. Error_processing ''a-f1.txt'' e \<notin> set (log (snd (filter_annotated_data fs_j
          [''exp'', ''images''] [''exp'', ''labels''] [''res''] [''exp'', ''classes.txt'']))))
   \<and> is_dir fs_j ([''res''] @ [''labels'', ''a-f1.txt''])
   \<and> is_dir (fsys (snd (filter_annotated_data fs_j
          [''exp'', ''images''] [''exp'', ''labels''] [''res''] [''exp'', ''classes.txt'']))) ([''res''] @ [''labels'', ''a-f1.txt''])
   \<and> node_at (fsys (snd (filter_annotated_data fs_j
          [''exp'', ''images''] [''exp'', ''labels''] [''res''] [''exp'', ''classes.txt''])))
        [''res'', ''labels'', ''a-f1.txt'', ''a-f1.txt''] = Some (File ''L1'')"
proof -
  let ?r = "filter_annotated_data fs_c
          [''exp'', ''images''] [''exp'', ''labels''] [''exp'', ''filtered_data''] [''exp'', ''classes.txt'']"
  let ?q = "filter_annotated_data fs_j
          [''exp'', ''images''] [''exp'', ''labels''] [''res''] [''exp'', ''classes.txt'']"
  have h1: "is_dir fs_c [''exp'', ''images'']" by code_simp
  have h2: "is_dir fs_c [''exp'', ''labels'']" by code_simp
  have h3: "is_file fs_c [''exp'', ''classes.txt'']" by code_simp
  have h4: "make_output_dirs fs_c [''exp'', ''filtered_data''] = Inr fs_c_dirs" by code_simp
  have h5: "''a-f1.txt'' \<in> set (label_files fs_c [''exp'', ''labels''])" by code_simp
  have h6: "is_file fs_c ([''exp'', ''images''] @ [image_filename ''a-f1.txt''])" by code_simp
  have lg: "log (snd ?r) = [Info_created [''exp'', ''filtered_data''], Info_starting,
          Warning_skipping ''b-f2.txt'' ''f2.jpg'', Info_complete 2,
          Info_available [''exp'', ''filtered_data'']]" by code_simp
  have h7: "\<forall>e. Error_processing ''a-f1.txt'' e \<notin> set (log (snd ?r))" by (simp add: lg)
  have d1: "\<not> is_dir fs_c ([''exp'', ''filtered_data''] @ [''labels'', ''a-f1.txt''])" by code_simp
  have bn: "image_base_name (path_stem ''a-f1.txt'') @ ''.jpg'' = ''f1.jpg''" by code_simp
  have d2: "\<not> is_dir fs_c ([''exp'', ''filtered_data'']
          @ [''images'', image_base_name (path_stem ''a-f1.txt'') @ ''.jpg''])"
    unfolding bn by code_simp
  have hy: "CHR ''-'' \<in> set ''a-f1.txt''" by simp
  have ne: "\<not> exists_path (fsys (snd ?r)) [''exp'', ''filtered_data'', ''labels'', ''f1.txt'']"
    by code_simp
  have sl: "node_at fs_c ([''exp'', ''labels''] @ [''a-f1.txt'']) = Some (File ''L1'')" by code_simp
  have si: "node_at fs_c ([''exp'', ''images''] @ [image_base_name (path_stem ''a-f1.txt'') @ ''.jpg''])
      = Some (File ''J1'')" unfolding bn by code_simp
  note a = copied_label_keeps_its_name [OF h1 h2 h3 h4 h5 h6 h7]
  from a have "label_target fs_c [''exp'', ''labels''] [''exp'', ''filtered_data''] ''a-f1.txt''
      = (if is_dir fs_c ([''exp'', ''filtered_data''] @ [''labels'', ''a-f1.txt''])
         then [''exp'', ''filtered_data''] @ [''labels'', ''a-f1.txt'', ''a-f1.txt'']
         else [''exp'', ''filtered_data''] @ [''labels'', ''a-f1.txt''])" by blast
  with d1 have tl: "label_target fs_c [''exp'', ''labels''] [''exp'', ''filtered_data''] ''a-f1.txt''
      = [''exp'', ''filtered_data'', ''labels'', ''a-f1.txt'']" by simp
  from a have "image_target fs_c [''exp'', ''images''] [''exp'', ''filtered_data''] ''a-f1.txt''
      = (if is_dir fs_c ([''exp'', ''filtered_data'']
               @ [''images'', image_base_name (path_stem ''a-f1.txt'') @ ''.jpg''])
         then [''exp'', ''filtered_data'']
               @ [''images'', image_base_name (path_stem ''a-f1.txt'') @ ''.jpg'',
                  image_base_name (path_stem ''a-f1.txt'') @ ''.jpg'']
         else [''exp'', ''filtered_data'']
               @ [''images'', image_base_name (path_stem ''a-f1.txt'') @ ''.jpg''])" by blast
  with d2 have "image_target fs_c [''exp'', ''images''] [''exp'', ''filtered_data''] ''a-f1.txt''
      = [''exp'', ''filtered_data''] @ [''images'', image_base_name (path_stem ''a-f1.txt'') @ ''.jpg'']"
    by presburger
  then have ti: "image_target fs_c [''exp'', ''images''] [''exp'', ''filtered_data''] ''a-f1.txt''
      = [''exp'', ''filtered_data'', ''images'', ''f1.jpg'']" unfolding bn by simp
  from a have "node_at (fsys (snd ?r))
       (label_target fs_c [''exp'', ''labels''] [''exp'', ''filtered_data''] ''a-f1.txt'')
       = node_at fs_c ([''exp'', ''labels''] @ [''a-f1.txt''])"
    and "node_at (fsys (snd ?r))
       (image_target fs_c [''exp'', ''images''] [''exp'', ''filtered_data''] ''a-f1.txt'')
       = node_at fs_c ([''exp'', ''images''] @ [image_base_name (path_stem ''a-f1.txt'') @ ''.jpg''])"
    by blast+
  then have 1: "node_at (fsys (snd ?r)) [''exp'', ''filtered_data'', ''labels'', ''a-f1.txt'']
       = Some (File ''L1'')"
    and 2: "node_at (fsys (snd ?r)) [''exp'', ''filtered_data'', ''images'', ''f1.jpg'']
       = Some (File ''J1'')"
    unfolding tl ti sl si by simp_all
  have j1: "is_dir fs_j [''exp'', ''images'']" by code_simp
  have j2: "is_dir fs_j [''exp'', ''labels'']" by code_simp
  have j3: "is_file fs_j [''exp'', ''classes.txt'']" by code_simp
  have j4: "make_output_dirs fs_j [''res''] = Inr fs_j" by code_simp
  have j5: "''a-f1.txt'' \<in> set (label_files fs_j [''exp'', ''labels''])" by code_simp
  have j6: "is_file fs_j ([''exp'', ''images''] @ [image_filename ''a-f1.txt''])" by code_simp
  have lj: "log (snd ?q) = [Info_created [''res''], Info_starting, Info_complete 1,
          Info_available [''res'']]" by code_simp
  have j7: "\<forall>e. Error_processing ''a-f1.txt'' e \<notin> set (log (snd ?q))" by (simp add: lj)
  have dj: "is_dir fs_j ([''res''] @ [''labels'', ''a-f1.txt''])" by code_simp
  have sj: "node_at fs_j ([''exp'', ''labels''] @ [''a-f1.txt'']) = Some (File ''L1'')" by code_simp
  note b = copied_label_keeps_its_name [OF j1 j2 j3 j4 j5 j6 j7]
  from b have "label_target fs_j [''exp'', ''labels''] [''res''] ''a-f1.txt''
      = (if is_dir fs_j ([''res''] @ [''labels'', ''a-f1.txt''])
         then [''res''] @ [''labels'', ''a-f1.txt'', ''a-f1.txt'']
         else [''res''] @ [''labels'', ''a-f1.txt''])" by blast
  with dj have tj: "label_target fs_j [''exp'', ''labels''] [''res''] ''a-f1.txt''
      = [''res'', ''labels'', ''a-f1.txt'', ''a-f1.txt'']" by simp
  from b have "node_at (fsys (snd ?q)) (label_target fs_j [''exp'', ''labels''] [''res''] ''a-f1.txt'')
       = node_at fs_j ([''exp'', ''labels''] @ [''a-f1.txt''])"
    and "is_dir (fsys (snd ?q)) ([''res''] @ [''labels'', ''a-f1.txt''])
       = is_dir fs_j ([''res''] @ [''labels'', ''a-f1.txt''])"
    by blast+
  then have 3: "node_at (fsys (snd ?q)) [''res'', ''labels'', ''a-f1.txt'', ''a-f1.txt'']
       = Some (File ''L1'')"
    and 4: "is_dir (fsys (snd ?q)) ([''res''] @ [''labels'', ''a-f1.txt''])"
    unfolding tj sj using dj by simp_all
  show ?thesis using h1 h2 h3 h4 h5 h6 h7 d1 d2 hy ne 1 2 j1 j2 j3 j4 j5 j6 j7 dj 3 4 by blast
qed

subsection \<open>Running the function again\<close>

lemma mkdir_parents_existing: "is_dir fs p \<Longrightarrow> mkdir_parents fs p = Inr fs"
  by (subst mkdir_parents.simps) (simp add: is_dir_def)

lemma make_output_dirs_existing:
  "is_dir fs (out @ [''images'']) \<Longrightarrow> is_dir fs (out @ [''labels'']) \<Longrightarrow> make_output_dirs fs out = Inr fs"
  by (simp add: make_output_dirs_def mkdir_parents_existing)

lemma write_noop:
  "\<not> is_dir fs t \<Longrightarrow> node_at fs t = Some (File c) \<Longrightarrow> AList.update t (File c) fs = fs"
proof -
  assume "\<not> is_dir fs t" and n: "node_at fs t = Some (File c)"
  then have "t \<noteq> []" by auto
  with n have "map_of fs t = Some (File c)" by (simp add: node_at_def)
  then show ?thesis by (rule update_triv)
qed

lemma process_label_settled:
  assumes "is_txt n" and "settled (fsys s) simg slab out n"
  shows "fsys (process_label simg slab out s n) = fsys s"
proof -
  let ?Ti = "image_target (fsys s) simg out n" and ?Tl = "label_target (fsys s) slab out n"
  from process_label_fsys [OF assms(1), of simg slab out s]
  consider (same) "fsys (process_label simg slab out s n) = fsys s"
    | (img) ci where "node_at (fsys s) (simg @ [image_filename n]) = Some (File ci)"
        "image_copy_ok (fsys s) simg out n"
        "fsys (process_label simg slab out s n) = AList.update ?Ti (File ci) (fsys s)"
    | (both) ci cl where "node_at (fsys s) (simg @ [image_filename n]) = Some (File ci)"
        "image_copy_ok (fsys s) simg out n"
        "node_at (fsys s) (slab @ [n]) = Some (File cl)" "label_copy_ok (fsys s) slab out n"
        "fsys (process_label simg slab out s n)
           = AList.update ?Tl (File cl) (AList.update ?Ti (File ci) (fsys s))"
    by blast
  then show ?thesis
  proof cases
    case same
    then show ?thesis .
  next
    case img
    have nd: "\<not> is_dir (fsys s) ?Ti" using img(2) by (simp add: image_copy_ok_def)
    have "node_at (fsys s) ?Ti = Some (File ci)"
      using assms(2) img(1,2) by (simp add: settled_def is_file_iff)
    from write_noop [OF nd this] img(3) show ?thesis by simp
  next
    case both
    have nd: "\<not> is_dir (fsys s) ?Ti" using both(2) by (simp add: image_copy_ok_def)
    have nl: "\<not> is_dir (fsys s) ?Tl" using both(4) by (simp add: label_copy_ok_def)
    have "node_at (fsys s) ?Ti = Some (File ci)"
      using assms(2) both(1,2) by (simp add: settled_def is_file_iff)
    from write_noop [OF nd this] have 1: "AList.update ?Ti (File ci) (fsys s) = fsys s" .
    have "node_at (fsys s) ?Tl = Some (File cl)"
      using assms(2) both(1-4) by (simp add: settled_def is_file_iff)
    from write_noop [OF nl this] have 2: "AList.update ?Tl (File cl) (fsys s) = fsys s" .
    show ?thesis using both(5) by (simp add: 1 2)
  qed
qed

lemma process_labels_settled:
  "\<forall>n \<in> set names. is_txt n \<and> settled (fsys s) simg slab out n \<Longrightarrow>
   fsys (process_labels simg slab out s names) = fsys s"
proof (induction names arbitrary: s)
  case Nil
  then show ?case by simp
next
  case (Cons n names)
  have 1: "fsys (process_label simg slab out s n) = fsys s"
    using Cons.prems by (intro process_label_settled) simp_all
  have "fsys (process_labels simg slab out (process_label simg slab out s n) names)
        = fsys (process_label simg slab out s n)"
    using Cons.prems by (intro Cons.IH) (simp add: 1)
  then show ?case by (simp add: 1)
qed

text \<open>What the file system is like when a run that reached the loop ends.\<close>

lemma run_targets:
  assumes "is_dir fs0 simg" "is_dir fs0 slab" "is_file fs0 cls" "make_output_dirs fs0 out = Inr fs2"
  defines "fs1 \<equiv> fsys (snd (filter_annotated_data fs0 simg slab out cls))"
  shows "image_target fs1 simg out n = image_target fs0 simg out n"
    and "label_target fs1 slab out n = label_target fs0 slab out n"
    and "image_copy_ok fs1 simg out n = image_copy_ok fs0 simg out n"
    and "label_copy_ok fs1 slab out n = label_copy_ok fs0 slab out n"
proof -
  have d: "is_dir fs1 q = is_dir fs2 q" for q
    unfolding fs1_def by (rule run_is_dir [OF assms(1-4)])
  show i: "image_target fs1 simg out n = image_target fs0 simg out n"
    using targets_after_mkdir(1) [OF assms(4), of simg n]
    by (simp add: image_target_def copy_target_def d)
  show l: "label_target fs1 slab out n = label_target fs0 slab out n"
    using targets_after_mkdir(2) [OF assms(4), of slab n]
    by (simp add: label_target_def copy_target_def d)
  show "image_copy_ok fs1 simg out n = image_copy_ok fs0 simg out n"
    using targets_after_mkdir(1,3) [OF assms(4), of simg n]
    by (simp add: image_copy_ok_def i d)
  show "label_copy_ok fs1 slab out n = label_copy_ok fs0 slab out n"
    using targets_after_mkdir(2,4) [OF assms(4), of slab n]
    by (simp add: label_copy_ok_def l d)
qed

lemma run_keeps_files:
  assumes "is_dir fs0 simg" "is_dir fs0 slab" "is_file fs0 cls" "make_output_dirs fs0 out = Inr fs2"
    and "is_file fs0 q"
  shows "is_file (fsys (snd (filter_annotated_data fs0 simg slab out cls))) q"
proof -
  let ?s1 = "after_loop fs2 simg slab out"
  have 1: "is_file (fsys ?s1) q"
    using assms(5) make_output_dirs_facts(3) [OF assms(4)] by (simp add: after_loop_keeps_files)
  show ?thesis
  proof (cases "copy2 (fsys ?s1) cls (out @ [last cls])")
    case (Inl e)
    then show ?thesis using 1 by (simp add: run_fsys [OF assms(1-4)])
  next
    case (Inr fs3)
    from copy2_Inr_D [OF Inr] obtain c where
      "fs3 = AList.update (copy_target (fsys ?s1) cls (out @ [last cls])) (File c) (fsys ?s1)"
      "\<not> is_dir (fsys ?s1) (copy_target (fsys ?s1) cls (out @ [last cls]))" by blast
    then show ?thesis using Inr 1 by (auto simp: run_fsys [OF assms(1-4)] is_file_iff node_at_write)
  qed
qed

lemma run_settled:
  assumes "is_dir fs0 simg" "is_dir fs0 slab" "is_file fs0 cls" "make_output_dirs fs0 out = Inr fs2"
    and "n \<in> set (label_files fs0 slab)"
    and "node_at (fsys (snd (filter_annotated_data fs0 simg slab out cls))) (slab @ [n])
         = node_at fs0 (slab @ [n])"
    and "node_at (fsys (snd (filter_annotated_data fs0 simg slab out cls))) (simg @ [image_filename n])
         = node_at fs0 (simg @ [image_filename n])"
  shows "settled (fsys (snd (filter_annotated_data fs0 simg slab out cls))) simg slab out n"
proof -
  let ?fs1 = "fsys (snd (filter_annotated_data fs0 simg slab out cls))"
  note v = assms(1-4)
  note tg = run_targets [OF v]
  from assms(5) have t: "is_txt n" by (simp add: label_files_txt)
  have f: "is_file ?fs1 (simg @ [image_filename n]) = is_file fs0 (simg @ [image_filename n])"
    by (simp add: is_file_def assms(7))
  have i: "node_at ?fs1 (image_target ?fs1 simg out n) = node_at ?fs1 (simg @ [image_filename n])"
    if "is_file ?fs1 (simg @ [image_filename n])" "image_copy_ok ?fs1 simg out n"
    using that run_node_at [OF v class_target_neq_image_target [symmetric]]
      after_loop_image [OF assms(4,5), of simg]
    by (simp add: tg f assms(7))
  have l: "node_at ?fs1 (label_target ?fs1 slab out n) = node_at ?fs1 (slab @ [n])"
    if "is_file ?fs1 (simg @ [image_filename n])" "image_copy_ok ?fs1 simg out n"
      "label_copy_ok ?fs1 slab out n"
  proof -
    from that have "pair_copied fs0 simg slab out n" by (simp add: pair_copied_def tg f)
    from run_pair_present(2) [OF v assms(5) this] show ?thesis by (simp add: tg assms(6))
  qed
  show ?thesis unfolding settled_def using i l by blast
qed

lemma copy2_twice:
  assumes "copy2 fs src dst = Inr fs'"
  shows "copy2 fs' src dst = Inr fs'"
proof -
  let ?T = "copy_target fs src dst"
  from copy2_Inr_D [OF assms] obtain c where c: "node_at fs src = Some (File c)"
    and f: "fs' = AList.update ?T (File c) fs" and ne: "?T \<noteq> src"
    and nd: "\<not> is_dir fs ?T" and pd: "is_dir fs (butlast ?T)" by blast
  have t: "copy_target fs' src dst = ?T" unfolding f by (rule copy_target_write [OF nd])
  have 1: "node_at fs' src = Some (File c)" using c ne by (simp add: f node_at_write [OF nd])
  have 2: "\<not> is_dir fs' ?T" using nd by (simp add: f is_dir_write [OF nd])
  have 3: "is_dir fs' (butlast ?T)" using pd by (simp add: f is_dir_write [OF nd])
  have 4: "node_at fs' ?T = Some (File c)" by (simp add: f node_at_write [OF nd])
  from copy2_Inr_I [of fs' src c dst] 1 2 3 ne
  have "copy2 fs' src dst = Inr (AList.update ?T (File c) fs')" by (simp add: t)
  then show ?thesis by (simp add: write_noop [OF 2 4])
qed

lemma second_run_after_exit:
  assumes "\<not> (is_dir fs0 simg \<and> is_dir fs0 slab \<and> is_file fs0 cls)"
  shows "fsys (snd (filter_annotated_data fs0 simg slab out cls)) = fs0"
  using assms by (simp add: filter_annotated_data_exit)

lemma second_run_after_mkdir_raised:
  assumes "is_dir fs0 simg" "is_dir fs0 slab" "is_file fs0 cls" "make_output_dirs fs0 out = Inl e"
  defines "fs1 \<equiv> fsys (snd (filter_annotated_data fs0 simg slab out cls))"
  shows "fsys (snd (filter_annotated_data fs1 simg slab out cls)) = fs1
       \<and> fst (filter_annotated_data fs1 simg slab out cls) = fst (filter_annotated_data fs0 simg slab out cls)"
proof (cases "mkdir_parents fs0 (out @ [''images''])")
  case (Inl e1)
  with assms(1-3) have "fsys (snd (filter_annotated_data fs0 simg slab out cls)) = fs0"
    by (simp add: filter_annotated_data_def)
  then show ?thesis unfolding fs1_def by simp
next
  case (Inr fsA)
  with assms(4) have 2: "mkdir_parents fsA (out @ [''labels'']) = Inl e"
    by (simp add: make_output_dirs_def)
  have r0: "filter_annotated_data fs0 simg slab out cls
            = (Raised e, \<lparr>fsys = fsA, copied_count = 0, log = [], copies = []\<rparr>)"
    using assms(1-3) Inr 2 by (simp add: filter_annotated_data_def)
  then have f: "fs1 = fsA" by (simp add: fs1_def)
  have v: "is_dir fsA simg" "is_dir fsA slab" "is_file fsA cls"
    using assms(1-3) mkdir_parents_is_dir [OF Inr] mkdir_parents_is_file [OF Inr] by simp_all
  have "is_dir fsA (out @ [''images''])" using mkdir_parents_node_at [OF Inr] by blast
  then have 1: "mkdir_parents fsA (out @ [''images'']) = Inr fsA" by (rule mkdir_parents_existing)
  have "filter_annotated_data fsA simg slab out cls
            = (Raised e, \<lparr>fsys = fsA, copied_count = 0, log = [], copies = []\<rparr>)"
    using v 1 2 by (simp add: filter_annotated_data_def)
  with r0 f show ?thesis by simp
qed

lemma second_run_after_loop:
  assumes "is_dir fs0 simg" "is_dir fs0 slab" "is_file fs0 cls" "make_output_dirs fs0 out = Inr fs2"
  defines "fs1 \<equiv> fsys (snd (filter_annotated_data fs0 simg slab out cls))"
  assumes "label_files fs1 slab = label_files fs0 slab"
    and "\<forall>n \<in> set (label_files fs0 slab). node_at fs1 (slab @ [n]) = node_at fs0 (slab @ [n])"
    and "\<forall>n \<in> set (label_files fs0 slab).
           node_at fs1 (simg @ [image_filename n]) = node_at fs0 (simg @ [image_filename n])"
  shows "fsys (snd (filter_annotated_data fs1 simg slab out cls)) = fs1
       \<and> fst (filter_annotated_data fs1 simg slab out cls) = fst (filter_annotated_data fs0 simg slab out cls)"
proof -
  note v = assms(1-4)
  let ?s1 = "after_loop fs2 simg slab out"
  let ?dst = "out @ [last cls]"
  \<comment> \<open>the second run passes the validation and finds the output directories\<close>
  have d: "is_dir fs1 q = is_dir fs2 q" for q unfolding fs1_def by (rule run_is_dir [OF v])
  have v1: "is_dir fs1 simg" "is_dir fs1 slab"
    using make_output_dirs_facts(5) [OF assms(4)] assms(1,2) by (simp_all add: d)
  have v1c: "is_file fs1 cls" unfolding fs1_def by (rule run_keeps_files [OF v assms(3)])
  have mk: "make_output_dirs fs1 out = Inr fs1"
    using make_output_dirs_facts(1,2) [OF assms(4)] by (intro make_output_dirs_existing) (simp_all add: d)
  \<comment> \<open>its loop writes nothing\<close>
  have "settled fs1 simg slab out n" if "n \<in> set (label_files fs0 slab)" for n
    unfolding fs1_def using that assms(7,8)
    by (intro run_settled [OF v]) (simp_all add: fs1_def)
  then have "\<forall>n \<in> set (label_files fs1 slab). is_txt n \<and> settled fs1 simg slab out n"
    by (simp add: assms(6) label_files_txt)
  then have lp: "fsys (after_loop fs1 simg slab out) = fs1"
    unfolding after_loop_def
    using process_labels_settled [of "label_files fs1 slab"
        "\<lparr>fsys = fs1, copied_count = 0, log = [Info_created out, Info_starting], copies = []\<rparr>"
        simg slab out]
    by simp
  \<comment> \<open>and the copy of the class file does what it did\<close>
  have cc: "(case copy2 fs1 cls ?dst of Inl e \<Rightarrow> fs1 | Inr fs3 \<Rightarrow> fs3) = fs1
      \<and> (case copy2 fs1 cls ?dst of Inl e \<Rightarrow> Raised e | Inr fs3 \<Rightarrow> Returned)
        = (case copy2 (fsys ?s1) cls ?dst of Inl e \<Rightarrow> Raised e | Inr fs3 \<Rightarrow> Returned)"
  proof (cases "copy2 (fsys ?s1) cls ?dst")
    case (Inl e)
    then have "fs1 = fsys ?s1" by (simp add: fs1_def run_fsys [OF v])
    with Inl show ?thesis by simp
  next
    case (Inr fs3)
    then have "fs1 = fs3" by (simp add: fs1_def run_fsys [OF v])
    with copy2_twice [OF Inr] have "copy2 fs1 cls ?dst = Inr fs1" by simp
    with Inr show ?thesis by simp
  qed
  show ?thesis
    using cc
    by (simp add: run_fsys [OF v1 v1c mk] run_outcome [OF v1 v1c mk] run_outcome [OF v] lp
        cong: sum.case_cong)
qed

text \<open>
  C7, as stated, fails. In \<open>fs_h\<close>, with the source labels directory as output
  directory, the first run puts the class file among the label files; nothing changes
  between the runs, and the second run finds one label file more, with an image, and
  adds the two to the output tree.
\<close>

theorem second_run_differs_counterexample:
  "fst (filter_annotated_data fs_h [''exp'', ''images''] [''exp'', ''labels'']
         [''exp'', ''labels''] [''exp'', ''classes.txt'']) = Returned
   \<and> label_files fs_h [''exp'', ''labels''] = [''a-f1.txt'']
   \<and> label_files (fsys (snd (filter_annotated_data fs_h [''exp'', ''images''] [''exp'', ''labels'']
         [''exp'', ''labels''] [''exp'', ''classes.txt''])))
       [''exp'', ''labels''] = [''a-f1.txt'', ''classes.txt'']
   \<and> \<not> exists_path (fsys (snd (filter_annotated_data fs_h [''exp'', ''images''] [''exp'', ''labels'']
         [''exp'', ''labels''] [''exp'', ''classes.txt''])))
       [''exp'', ''labels'', ''labels'', ''classes.txt'']
   \<and> is_file (fsys (snd (filter_annotated_data
         (fsys (snd (filter_annotated_data fs_h [''exp'', ''images''] [''exp'', ''labels'']
            [''exp'', ''labels''] [''exp'', ''classes.txt''])))
         [''exp'', ''images''] [''exp'', ''labels''] [''exp'', ''labels''] [''exp'', ''classes.txt''])))
       [''exp'', ''labels'', ''labels'', ''classes.txt'']"
  by code_simp

text \<open>
  C7, amended. Let the function run on \<open>fs0\<close> and end with the file system
  \<open>fs1\<close>, and let the first run have left the sources as they were: \<open>fs1\<close> has
  the same label files in the source labels directory as \<open>fs0\<close>, with the same
  bytes, and the same images expected for them in the source images directory. Then a
  second run, on \<open>fs1\<close> with the same arguments, ends as the first did and leaves
  the file system exactly as it found it: whatever it writes is already there.
\<close>

theorem second_run_changes_nothing:
  assumes "fs1 = fsys (snd (filter_annotated_data fs0 simg slab out cls))"
    and "label_files fs1 slab = label_files fs0 slab"
    and "\<forall>n \<in> set (label_files fs0 slab). node_at fs1 (slab @ [n]) = node_at fs0 (slab @ [n])"
    and "\<forall>n \<in> set (label_files fs0 slab).
           node_at fs1 (simg @ [image_filename n]) = node_at fs0 (simg @ [image_filename n])"
  shows "fsys (snd (filter_annotated_data fs1 simg slab out cls)) = fs1
       \<and> fst (filter_annotated_data fs1 simg slab out cls) = fst (filter_annotated_data fs0 simg slab out cls)"
proof (cases "is_dir fs0 simg \<and> is_dir fs0 slab \<and> is_file fs0 cls")
  case False
  from second_run_after_exit [OF False] assms(1) have "fs1 = fs0" by simp
  with assms(1) show ?thesis by simp
next
  case True
  then have v: "is_dir fs0 simg" "is_dir fs0 slab" "is_file fs0 cls" by simp_all
  show ?thesis
  proof (cases "make_output_dirs fs0 out")
    case (Inl e)
    from second_run_after_mkdir_raised [OF v Inl] assms(1) show ?thesis by simp
  next
    case (Inr fs2)
    from second_run_after_loop [OF v Inr] assms show ?thesis by simp
  qed
qed

theorem second_run_changes_nothing_witness:
  "label_files (fsys (snd (filter_annotated_data fs_c [''exp'', ''images''] [''exp'', ''labels'']
        [''exp'', ''filtered_data''] [''exp'', ''classes.txt''])))
      [''exp'', ''labels'']
     = label_files fs_c [''exp'', ''labels'']
   \<and> label_files fs_c [''exp'', ''labels''] = [''a-f1.txt'', ''b-f2.txt'', ''c-f3.txt'']
   \<and> map (\<lambda>n. node_at (fsys (snd (filter_annotated_data fs_c [''exp'', ''images''] [''exp'', ''labels'']
            [''exp'', ''filtered_data''] [''exp'', ''classes.txt''])))
           ([''exp'', ''labels''] @ [n])) [''a-f1.txt'', ''b-f2.txt'', ''c-f3.txt'']
     = map (\<lambda>n. node_at fs_c ([''exp'', ''labels''] @ [n])) [''a-f1.txt'', ''b-f2.txt'', ''c-f3.txt'']
   \<and> map (\<lambda>n. node_at (fsys (snd (filter_annotated_data fs_c [''exp'', ''images''] [''exp'', ''labels'']
            [''exp'', ''filtered_data''] [''exp'', ''classes.txt''])))
           ([''exp'', ''images''] @ [image_filename n])) [''a-f1.txt'', ''b-f2.txt'', ''c-f3.txt'']
     = map (\<lambda>n. node_at fs_c ([''exp'', ''images''] @ [image_filename n]))
         [''a-f1.txt'', ''b-f2.txt'', ''c-f3.txt'']
   \<and> fsys (snd (filter_annotated_data
         (fsys (snd (filter_annotated_data fs_c [''exp'', ''images''] [''exp'', ''labels'']
            [''exp'', ''filtered_data''] [''exp'', ''classes.txt''])))
         [''exp'', ''images''] [''exp'', ''labels''] [''exp'', ''filtered_data''] [''exp'', ''classes.txt'']))
     = fsys (snd (filter_annotated_data fs_c [''exp'', ''images''] [''exp'', ''labels'']
            [''exp'', ''filtered_data''] [''exp'', ''classes.txt'']))
   \<and> fst (filter_annotated_data
         (fsys (snd (filter_annotated_data fs_c [''exp'', ''images''] [''exp'', ''labels'']
            [''exp'', ''filtered_data''] [''exp'', ''classes.txt''])))
         [''exp'', ''images''] [''exp'', ''labels''] [''exp'', ''filtered_data''] [''exp'', ''classes.txt''])
     = Returned
   \<and> is_file (fsys (snd (filter_annotated_data fs_c [''exp'', ''images''] [''exp'', ''labels'']
            [''exp'', ''filtered_data''] [''exp'', ''classes.txt''])))
        [''exp'', ''filtered_data'', ''labels'', ''c-f3.txt'']"
proof -
  let ?fs1 = "fsys (snd (filter_annotated_data fs_c [''exp'', ''images''] [''exp'', ''labels'']
        [''exp'', ''filtered_data''] [''exp'', ''classes.txt'']))"
  have h2: "label_files ?fs1 [''exp'', ''labels''] = label_files fs_c [''exp'', ''labels'']"
    by code_simp
  have h3: "\<forall>n \<in> set (label_files fs_c [''exp'', ''labels'']).
         node_at ?fs1 ([''exp'', ''labels''] @ [n]) = node_at fs_c ([''exp'', ''labels''] @ [n])"
    by code_simp
  have h4: "\<forall>n \<in> set (label_files fs_c [''exp'', ''labels'']).
         node_at ?fs1 ([''exp'', ''images''] @ [image_filename n])
         = node_at fs_c ([''exp'', ''images''] @ [image_filename n])"
    by code_simp
  have r: "fst (filter_annotated_data fs_c [''exp'', ''images''] [''exp'', ''labels'']
        [''exp'', ''filtered_data''] [''exp'', ''classes.txt'']) = Returned" by code_simp
  have f: "is_file ?fs1 [''exp'', ''filtered_data'', ''labels'', ''c-f3.txt'']" by code_simp
  have l: "label_files fs_c [''exp'', ''labels''] = [''a-f1.txt'', ''b-f2.txt'', ''c-f3.txt'']"
    by code_simp
  have m3: "map (\<lambda>n. node_at ?fs1 ([''exp'', ''labels''] @ [n])) [''a-f1.txt'', ''b-f2.txt'', ''c-f3.txt'']
     = map (\<lambda>n. node_at fs_c ([''exp'', ''labels''] @ [n])) [''a-f1.txt'', ''b-f2.txt'', ''c-f3.txt'']"
    using h3 unfolding l by simp
  have m4: "map (\<lambda>n. node_at ?fs1 ([''exp'', ''images''] @ [image_filename n]))
         [''a-f1.txt'', ''b-f2.txt'', ''c-f3.txt'']
     = map (\<lambda>n. node_at fs_c ([''exp'', ''images''] @ [image_filename n]))
         [''a-f1.txt'', ''b-f2.txt'', ''c-f3.txt'']"
    using h4 unfolding l by simp
  from second_run_changes_nothing [OF refl h2 h3 h4] h2 l m3 m4 r f show ?thesis by simp
qed

end
